(* ===== verification/Prelude.thy ===== *)
theory Prelude
  imports Complex_Main "HOL-Library.Sublist"
begin

text \<open>
  Shared vocabulary of the development: the part of Go's \<^verbatim>\<open>strings\<close>, \<^verbatim>\<open>strconv\<close> and
  \<^verbatim>\<open>unicode/utf8\<close> packages the client uses, as executable functions on byte strings
  (a HOL \<^typ>\<open>char\<close> is a byte, so a HOL string is exactly a Go string), the fact
  collections of the development, and generic list lemmas.

  \<^item> \<open>go_value\<close> collects the equations of the accessors for dynamically typed values;
  \<^item> \<open>wire_const\<close> collects the definitions of the protocol's string constants.
\<close>

named_theorems go_value \<open>accessor equations for dynamically typed values\<close>
named_theorems wire_const \<open>definitions of wire string constants\<close>

section \<open>Whitespace and \<^verbatim>\<open>strings.TrimSpace\<close>\<close>

text \<open>
  The UTF-8 encodings of the runes for which \<^verbatim>\<open>unicode.IsSpace\<close> holds: the six ASCII
  blanks, U+0085, U+00A0, U+1680, U+2000 to U+200A, U+2028, U+2029, U+202F, U+205F, U+3000.
\<close>

definition ws_runes :: "string list" where
  "ws_runes =
     [[CHR 0x20], [CHR 0x0A], [CHR 0x0D], [CHR 0x09], [CHR 0x0B], [CHR 0x0C],
      [CHR 0xC2, CHR 0x85], [CHR 0xC2, CHR 0xA0], [CHR 0xE1, CHR 0x9A, CHR 0x80],
      [CHR 0xE2, CHR 0x80, CHR 0x80], [CHR 0xE2, CHR 0x80, CHR 0x81],
      [CHR 0xE2, CHR 0x80, CHR 0x82], [CHR 0xE2, CHR 0x80, CHR 0x83],
      [CHR 0xE2, CHR 0x80, CHR 0x84], [CHR 0xE2, CHR 0x80, CHR 0x85],
      [CHR 0xE2, CHR 0x80, CHR 0x86], [CHR 0xE2, CHR 0x80, CHR 0x87],
      [CHR 0xE2, CHR 0x80, CHR 0x88], [CHR 0xE2, CHR 0x80, CHR 0x89],
      [CHR 0xE2, CHR 0x80, CHR 0x8A], [CHR 0xE2, CHR 0x80, CHR 0xA8],
      [CHR 0xE2, CHR 0x80, CHR 0xA9], [CHR 0xE2, CHR 0x80, CHR 0xAF],
      [CHR 0xE2, CHR 0x81, CHR 0x9F], [CHR 0xE3, CHR 0x80, CHR 0x80]]"

text \<open>Bytes that occur in no whitespace rune: every ASCII byte but the six blanks.\<close>

definition plain_byte :: "char \<Rightarrow> bool" where
  "plain_byte c \<longleftrightarrow> c \<notin> set (concat ws_runes)"

lemma ws_bytes: "c \<in> set (concat ws_runes) \<Longrightarrow> of_char c < (33::nat) \<or> 127 < (of_char c :: nat)"
  by (auto simp: ws_runes_def)

lemma plain_byteI: "(33::nat) \<le> of_char c \<Longrightarrow> of_char c \<le> (127::nat) \<Longrightarrow> plain_byte c"
  unfolding plain_byte_def using ws_bytes [of c] by linarith

definition lead_ws :: "string \<Rightarrow> nat" where
  "lead_ws s = (case find (\<lambda>w. prefix w s) ws_runes of None \<Rightarrow> 0 | Some w \<Rightarrow> length w)"

definition trail_ws :: "string \<Rightarrow> nat" where
  "trail_ws s = (case find (\<lambda>w. suffix w s) ws_runes of None \<Rightarrow> 0 | Some w \<Rightarrow> length w)"

lemma ws_runes_nonempty: "w \<in> set ws_runes \<Longrightarrow> w \<noteq> []"
  by (auto simp: ws_runes_def)

lemma lead_ws_pos_iff: "lead_ws s = 0 \<longleftrightarrow> (\<forall>w\<in>set ws_runes. \<not> prefix w s)"
  by (auto simp: lead_ws_def find_None_iff find_Some_iff split: option.splits
      dest: nth_mem ws_runes_nonempty)

lemma trail_ws_pos_iff: "trail_ws s = 0 \<longleftrightarrow> (\<forall>w\<in>set ws_runes. \<not> suffix w s)"
  by (auto simp: trail_ws_def find_None_iff find_Some_iff split: option.splits
      dest: nth_mem ws_runes_nonempty)

lemma lead_ws_Nil [simp]: "lead_ws [] = 0"
  by (auto simp: lead_ws_pos_iff dest: ws_runes_nonempty)

lemma trail_ws_Nil [simp]: "trail_ws [] = 0"
  by (auto simp: trail_ws_pos_iff dest: ws_runes_nonempty)

function trim_left :: "string \<Rightarrow> string" where
  "trim_left s = (if lead_ws s = 0 then s else trim_left (drop (lead_ws s) s))"
  by pat_completeness auto
termination
proof (relation "measure length")
  show "wf (measure length)" by simp
next
  fix s :: string
  assume h: "lead_ws s \<noteq> 0"
  then have "s \<noteq> []" by auto
  with h show "(drop (lead_ws s) s, s) \<in> measure length" by (cases s) auto
qed

function trim_right :: "string \<Rightarrow> string" where
  "trim_right s = (if trail_ws s = 0 then s else trim_right (take (length s - trail_ws s) s))"
  by pat_completeness auto
termination
proof (relation "measure length")
  show "wf (measure length)" by simp
next
  fix s :: string
  assume h: "trail_ws s \<noteq> 0"
  then have "s \<noteq> []" by auto
  with h show "(take (length s - trail_ws s) s, s) \<in> measure length" by (cases s) auto
qed

declare trim_left.simps [simp del] trim_right.simps [simp del]

text \<open>\<^verbatim>\<open>strings.TrimSpace\<close>.\<close>

definition TrimSpace :: "string \<Rightarrow> string" where
  "TrimSpace s = trim_right (trim_left s)"

lemma trim_left_no_lead [simp]: "lead_ws (trim_left s) = 0"
proof (induction s rule: trim_left.induct)
  case (1 s)
  then show ?case by (cases "lead_ws s = 0") (simp_all add: trim_left.simps [of s])
qed

lemma trim_right_no_trail [simp]: "trail_ws (trim_right s) = 0"
proof (induction s rule: trim_right.induct)
  case (1 s)
  then show ?case by (cases "trail_ws s = 0") (simp_all add: trim_right.simps [of s])
qed

lemma trim_left_id: "lead_ws s = 0 \<Longrightarrow> trim_left s = s"
  by (simp add: trim_left.simps)

lemma trim_right_id: "trail_ws s = 0 \<Longrightarrow> trim_right s = s"
  by (simp add: trim_right.simps)

lemma trim_left_suffix: "suffix (trim_left s) s"
proof (induction s rule: trim_left.induct)
  case (1 s)
  show ?case
  proof (cases "lead_ws s = 0")
    case False
    then have "suffix (trim_left (drop (lead_ws s) s)) (drop (lead_ws s) s)" using 1 by blast
    then have "suffix (trim_left (drop (lead_ws s) s)) s"
      using suffix_drop suffix_order.order_trans by blast
    with False show ?thesis by (simp add: trim_left.simps [of s])
  qed (simp add: trim_left_id)
qed

lemma trim_right_prefix: "prefix (trim_right s) s"
proof (induction s rule: trim_right.induct)
  case (1 s)
  show ?case
  proof (cases "trail_ws s = 0")
    case False
    let ?t = "take (length s - trail_ws s) s"
    have "prefix (trim_right ?t) ?t" using 1 False by blast
    then have "prefix (trim_right ?t) s"
      using take_is_prefix prefix_order.order_trans by blast
    with False show ?thesis by (simp add: trim_right.simps [of s])
  qed (simp add: trim_right_id)
qed

lemma lead_ws_prefix_mono: "lead_ws t = 0 \<Longrightarrow> prefix s t \<Longrightarrow> lead_ws s = 0"
  unfolding lead_ws_pos_iff using prefix_order.order_trans by blast

lemma TrimSpace_clean: "lead_ws (TrimSpace s) = 0" "trail_ws (TrimSpace s) = 0"
  unfolding TrimSpace_def
  using lead_ws_prefix_mono [OF trim_left_no_lead trim_right_prefix] by simp_all

lemma TrimSpace_id: "lead_ws s = 0 \<Longrightarrow> trail_ws s = 0 \<Longrightarrow> TrimSpace s = s"
  by (simp add: TrimSpace_def trim_left_id trim_right_id)

lemma TrimSpace_idem [simp]: "TrimSpace (TrimSpace s) = TrimSpace s"
  by (simp add: TrimSpace_id TrimSpace_clean)

lemma TrimSpace_Nil [simp]: "TrimSpace [] = []"
  by (simp add: TrimSpace_id)

lemma TrimSpace_sublist: "sublist (TrimSpace s) s"
  unfolding TrimSpace_def
  using trim_left_suffix [of s] trim_right_prefix [of "trim_left s"]
  by (meson prefix_imp_sublist suffix_imp_sublist sublist_order.order_trans)

lemma TrimSpace_length: "length (TrimSpace s) \<le> length s"
  using TrimSpace_sublist sublist_length_le by blast

lemma lead_ws_append_plain:
  assumes "lead_ws s = 0" "s \<noteq> []" "plain_byte c"
  shows "lead_ws (s @ c # t) = 0"
proof (rule ccontr)
  assume "lead_ws (s @ c # t) \<noteq> 0"
  then obtain w where w: "w \<in> set ws_runes" "prefix w (s @ c # t)"
    by (auto simp: lead_ws_pos_iff)
  from w(1) \<open>plain_byte c\<close> have "c \<notin> set w" by (auto simp: plain_byte_def)
  moreover from w(2) have "prefix w s \<or> prefix (s @ [c]) w"
    by (metis append.assoc append_Cons append_Nil prefixI prefix_same_cases
        prefix_snoc)
  ultimately have "prefix w s" by (auto dest: set_mono_prefix)
  with w(1) assms(1) show False by (auto simp: lead_ws_pos_iff)
qed

text \<open>A byte that occurs in no multi-byte whitespace rune cannot complete one.\<close>

definition no_tail_byte :: "char \<Rightarrow> bool" where
  "no_tail_byte c \<longleftrightarrow> c \<notin> set (concat (filter (\<lambda>w. 1 < length w) ws_runes))"

lemma lead_ws_append_no_tail:
  assumes "lead_ws s = 0" "s \<noteq> []" "no_tail_byte c"
  shows "lead_ws (s @ c # t) = 0"
proof (rule ccontr)
  assume "lead_ws (s @ c # t) \<noteq> 0"
  then obtain w where w: "w \<in> set ws_runes" "prefix w (s @ c # t)"
    by (auto simp: lead_ws_pos_iff)
  from w(2) have "prefix w s \<or> prefix (s @ [c]) w"
    by (metis append.assoc append_Cons append_Nil prefixI prefix_same_cases prefix_snoc)
  moreover have "\<not> prefix (s @ [c]) w"
  proof
    assume p: "prefix (s @ [c]) w"
    then have "1 < length w" using assms(2) prefix_length_le [OF p] by (cases s) auto
    moreover from p have "c \<in> set w" by (auto dest: set_mono_prefix)
    ultimately show False using w(1) assms(3) by (auto simp: no_tail_byte_def)
  qed
  ultimately show False using w(1) assms(1) by (auto simp: lead_ws_pos_iff)
qed

lemma trail_ws_append_no_tail:
  assumes "trail_ws s = 0" "s \<noteq> []" "no_tail_byte c"
  shows "trail_ws (t @ c # s) = 0"
proof (rule ccontr)
  assume "trail_ws (t @ c # s) \<noteq> 0"
  then obtain w where w: "w \<in> set ws_runes" "suffix w (t @ c # s)"
    by (auto simp: trail_ws_pos_iff)
  have "suffix (c # s) (t @ c # s)" "suffix s (t @ c # s)" by (auto simp: suffix_def)
  with w(2) have "suffix w s \<or> suffix (c # s) w"
    by (metis suffix_same_cases suffix_Cons)
  moreover have "\<not> suffix (c # s) w"
  proof
    assume p: "suffix (c # s) w"
    then have "1 < length w" using assms(2) suffix_length_le [OF p] by (cases s) auto
    moreover from p have "c \<in> set w" by (auto dest: set_mono_suffix)
    ultimately show False using w(1) assms(3) by (auto simp: no_tail_byte_def)
  qed
  ultimately show False using w(1) assms(1) by (auto simp: trail_ws_pos_iff)
qed

lemma trail_ws_snoc_plain:
  assumes "plain_byte c"
  shows "trail_ws (s @ [c]) = 0"
  unfolding trail_ws_pos_iff
proof
  fix w
  assume w: "w \<in> set ws_runes"
  then have "w \<noteq> []" "c \<notin> set w" using assms by (auto simp: plain_byte_def ws_runes_nonempty)
  then show "\<not> suffix w (s @ [c])" by (cases w rule: rev_cases) auto
qed

lemma plain_Cons_lead: "plain_byte c \<Longrightarrow> lead_ws (c # s) = 0"
  by (auto simp: lead_ws_pos_iff plain_byte_def prefix_Cons dest: ws_runes_nonempty)

lemma TrimSpace_plain_ends:
  assumes "s \<noteq> []" "plain_byte (hd s)" "plain_byte (last s)"
  shows "TrimSpace s = s"
proof (rule TrimSpace_id)
  show "lead_ws s = 0" using assms by (cases s) (auto simp: plain_Cons_lead)
  have "s = butlast s @ [last s]" using assms(1) by simp
  then show "trail_ws s = 0" using trail_ws_snoc_plain [OF assms(3)] by metis
qed

section \<open>Substrings, splitting and case folding\<close>

text \<open>\<^verbatim>\<open>strings.Contains(s, sub)\<close> and \<^verbatim>\<open>strings.HasPrefix\<close>/\<^verbatim>\<open>strings.TrimPrefix\<close>.\<close>

definition Contains :: "string \<Rightarrow> string \<Rightarrow> bool" where
  "Contains s sub = sublist sub s"

definition HasPrefix :: "string \<Rightarrow> string \<Rightarrow> bool" where
  "HasPrefix s p = prefix p s"

definition TrimPrefix :: "string \<Rightarrow> string \<Rightarrow> string" where
  "TrimPrefix s p = (if prefix p s then drop (length p) s else s)"

lemma TrimPrefix_append [simp]: "TrimPrefix (p @ s) p = s"
  by (simp add: TrimPrefix_def)

text \<open>\<^verbatim>\<open>strings.Split(s, sep)\<close> for a one-byte separator.\<close>

fun split_char :: "char \<Rightarrow> string \<Rightarrow> string list" where
  "split_char c [] = [[]]"
| "split_char c (x # xs) =
     (if x = c then [] # split_char c xs
      else case split_char c xs of [] \<Rightarrow> [[x]] | p # ps \<Rightarrow> (x # p) # ps)"

lemma split_char_nonempty [simp]: "split_char c s \<noteq> []"
  by (induction s) (auto split: list.splits)

lemma split_char_none: "c \<notin> set s \<Longrightarrow> split_char c s = [s]"
  by (induction s) auto

lemma split_char_append_sep: "split_char c (s @ c # t) = split_char c s @ split_char c t"
proof (induction s)
  case (Cons x s)
  show ?case
  proof (cases "split_char c s")
    case Nil
    then show ?thesis using split_char_nonempty by blast
  next
    case (Cons p ps)
    with Cons.IH show ?thesis by auto
  qed
qed simp

lemma last_split_char: "c \<notin> set t \<Longrightarrow> last (split_char c (s @ c # t)) = t"
  by (simp add: split_char_append_sep split_char_none)

lemma split_char_parts: "p \<in> set (split_char c s) \<Longrightarrow> c \<notin> set p"
proof (induction s arbitrary: p)
  case (Cons x s)
  then show ?case by (cases "split_char c s") (auto split: if_splits)
qed simp

text \<open>\<^verbatim>\<open>strings.ToLower\<close> on the ASCII range, and \<^verbatim>\<open>strings.EqualFold\<close>. The only folding classes
  that mix ASCII letters with other runes are \<open>{s, S, U+017F}\<close> and \<open>{k, K, U+212A}\<close>, so
  \<open>fold_case\<close> decides \<^verbatim>\<open>EqualFold\<close> whenever one side is ASCII, which is how the client uses it.\<close>

definition ascii_lower :: "char \<Rightarrow> char" where
  "ascii_lower c =
     (let n = of_char c :: nat in if 65 \<le> n \<and> n \<le> 90 then char_of (n + 32) else c)"

definition ToLower :: "string \<Rightarrow> string" where
  "ToLower s = map ascii_lower s"

function fold_case :: "string \<Rightarrow> string" where
  "fold_case s =
     (if s = [] then []
      else if prefix [CHR 0xC5, CHR 0xBF] s then CHR ''s'' # fold_case (drop 2 s)
      else if prefix [CHR 0xE2, CHR 0x84, CHR 0xAA] s then CHR ''k'' # fold_case (drop 3 s)
      else ascii_lower (hd s) # fold_case (tl s))"
  by pat_completeness auto
termination
  by (relation "measure length") auto

declare fold_case.simps [simp del]

lemma fold_case_Nil [simp]: "fold_case [] = []"
  by (simp add: fold_case.simps)

lemma fold_case_ascii [simp]:
  "of_char c < (128::nat) \<Longrightarrow> fold_case (c # s) = ascii_lower c # fold_case s"
  by (subst fold_case.simps) (auto simp: prefix_Cons)

definition EqualFold :: "string \<Rightarrow> string \<Rightarrow> bool" where
  "EqualFold a b \<longleftrightarrow> fold_case a = fold_case b"

lemma EqualFold_refl [simp]: "EqualFold a a"
  by (simp add: EqualFold_def)

section \<open>Decimal numerals: \<^verbatim>\<open>strconv.Itoa\<close> and \<^verbatim>\<open>strconv.Atoi\<close>\<close>

definition digit_char :: "nat \<Rightarrow> char" where
  "digit_char d = char_of (48 + d)"

definition char_digit :: "char \<Rightarrow> nat option" where
  "char_digit c = (let n = of_char c :: nat in if 48 \<le> n \<and> n \<le> 57 then Some (n - 48) else None)"

lemma char_digit_digit_char [simp]: "d < 10 \<Longrightarrow> char_digit (digit_char d) = Some d"
  by (simp add: char_digit_def digit_char_def Let_def)

fun nat_dec :: "nat \<Rightarrow> string" where
  "nat_dec n = (if n < 10 then [digit_char n] else nat_dec (n div 10) @ [digit_char (n mod 10)])"

declare nat_dec.simps [simp del]

definition Itoa :: "int \<Rightarrow> string" where
  "Itoa n = (if n < 0 then CHR ''-'' # nat_dec (nat (- n)) else nat_dec (nat n))"

fun dec_value :: "nat \<Rightarrow> string \<Rightarrow> nat option" where
  "dec_value acc [] = Some acc"
| "dec_value acc (c # cs) =
     (case char_digit c of None \<Rightarrow> None | Some d \<Rightarrow> dec_value (10 * acc + d) cs)"

definition int64_max :: int where "int64_max = 2 ^ 63 - 1"
definition int64_min :: int where "int64_min = - (2 ^ 63)"

text \<open>\<^verbatim>\<open>strconv.Atoi\<close>: an optional sign, at least one decimal digit, a 64-bit range check;
  \<open>None\<close> is the error.\<close>

definition Atoi :: "string \<Rightarrow> int option" where
  "Atoi s =
     (let neg = (s \<noteq> [] \<and> hd s = CHR ''-'');
          body = (if s \<noteq> [] \<and> (hd s = CHR ''-'' \<or> hd s = CHR ''+'') then tl s else s)
      in if body = [] then None
         else case dec_value 0 body of
           None \<Rightarrow> None
         | Some n \<Rightarrow>
             (let v = (if neg then - int n else int n)
              in if int64_min \<le> v \<and> v \<le> int64_max then Some v else None))"

lemma dec_value_append:
  "dec_value acc (s @ t) = (case dec_value acc s of None \<Rightarrow> None | Some a \<Rightarrow> dec_value a t)"
  by (induction s arbitrary: acc) (auto split: option.splits)

lemma dec_value_nat_dec: "dec_value 0 (nat_dec n) = Some n"
proof (induction n rule: nat_dec.induct)
  case (1 n)
  show ?case
  proof (cases "n < 10")
    case True
    then show ?thesis by (simp add: nat_dec.simps [of n])
  next
    case False
    with 1 have "dec_value 0 (nat_dec (n div 10)) = Some (n div 10)" by simp
    with False show ?thesis by (simp add: nat_dec.simps [of n] dec_value_append)
  qed
qed

lemma nat_dec_digits: "c \<in> set (nat_dec n) \<Longrightarrow> \<exists>d<10. c = digit_char d"
proof (induction n rule: nat_dec.induct)
  case (1 n)
  then show ?case
    by (cases "n < 10") (auto simp: nat_dec.simps [of n] intro: exI [of _ "n mod 10"])
qed

lemma nat_dec_nonempty [simp]: "nat_dec n \<noteq> []"
  by (subst nat_dec.simps) simp

lemma of_char_digit_char: "d < 10 \<Longrightarrow> of_char (digit_char d) = (48 + d :: nat)"
  by (simp add: digit_char_def)

lemma digit_char_plain: "d < 10 \<Longrightarrow> plain_byte (digit_char d)"
  by (rule plain_byteI) (simp_all add: of_char_digit_char)

lemma digit_char_neq: "d < 10 \<Longrightarrow> of_char c < (48::nat) \<or> 57 < (of_char c :: nat) \<Longrightarrow> digit_char d \<noteq> c"
  using of_char_digit_char [of d] by auto

lemma digit_char_not_sign:
  "d < 10 \<Longrightarrow> digit_char d \<noteq> CHR ''-'' \<and> digit_char d \<noteq> CHR ''+'' \<and> digit_char d \<noteq> CHR '':''"
  by (simp add: digit_char_neq)

lemma nat_dec_hd: "\<exists>d<10. hd (nat_dec n) = digit_char d"
  using nat_dec_digits [of "hd (nat_dec n)" n] by simp

lemma nat_dec_last: "\<exists>d<10. last (nat_dec n) = digit_char d"
  using nat_dec_digits [of "last (nat_dec n)" n] by simp

lemma Atoi_Itoa:
  assumes "int64_min \<le> n" "n \<le> int64_max"
  shows "Atoi (Itoa n) = Some n"
proof (cases "n < 0")
  case True
  with assms show ?thesis
    by (simp add: Atoi_def Itoa_def Let_def dec_value_nat_dec)
next
  case False
  obtain d where "d < 10" "hd (nat_dec (nat n)) = digit_char d" using nat_dec_hd by blast
  with digit_char_not_sign False assms show ?thesis
    by (simp add: Atoi_def Itoa_def Let_def dec_value_nat_dec)
qed

section \<open>Runes\<close>

text \<open>
  Go's conversion \<^verbatim>\<open>[]rune(s)\<close>: the string is cut into UTF-8 encoded runes; a byte that starts
  no valid encoding is one rune, U+FFFD. A rune is represented by its own encoding, so that
  \<^verbatim>\<open>string(runes)\<close> is \<^const>\<open>concat\<close>.
\<close>

definition byte :: "char \<Rightarrow> nat" where
  "byte c = of_char c"

definition cont_byte :: "char \<Rightarrow> bool" where
  "cont_byte c \<longleftrightarrow> 128 \<le> byte c \<and> byte c \<le> 191"

definition rune_len :: "string \<Rightarrow> nat" where
  \<comment> \<open>bytes of the valid encoding at the head, 0 when there is none\<close>
  "rune_len s =
     (case s of
        [] \<Rightarrow> 0
      | a # r \<Rightarrow>
          if byte a < 128 then 1
          else (case r of
             [] \<Rightarrow> 0
           | b # r2 \<Rightarrow>
               if 194 \<le> byte a \<and> byte a \<le> 223 then (if cont_byte b then 2 else 0)
               else (case r2 of
                  [] \<Rightarrow> 0
                | c # r3 \<Rightarrow>
                    if 224 \<le> byte a \<and> byte a \<le> 239 then
                      (if cont_byte b \<and> cont_byte c \<and> (byte a = 224 \<longrightarrow> 160 \<le> byte b)
                          \<and> (byte a = 237 \<longrightarrow> byte b \<le> 159) then 3 else 0)
                    else (case r3 of
                       [] \<Rightarrow> 0
                     | d # _ \<Rightarrow>
                         if 240 \<le> byte a \<and> byte a \<le> 244 \<and> cont_byte b \<and> cont_byte c \<and> cont_byte d
                            \<and> (byte a = 240 \<longrightarrow> 144 \<le> byte b) \<and> (byte a = 244 \<longrightarrow> byte b \<le> 143)
                         then 4 else 0))))"

definition rune_error :: string where
  "rune_error = [CHR 0xEF, CHR 0xBF, CHR 0xBD]"

function runes :: "string \<Rightarrow> string list" where
  "runes s =
     (if s = [] then []
      else if rune_len s = 0 then rune_error # runes (tl s)
      else take (rune_len s) s # runes (drop (rune_len s) s))"
  by pat_completeness auto
termination
  by (relation "measure length") auto

declare runes.simps [simp del]

lemma runes_Nil [simp]: "runes [] = []"
  by (simp add: runes.simps)

lemma runes_length: "length (runes s) \<le> length s"
proof (induction s rule: runes.induct)
  case (1 s)
  consider "s = []" | "s \<noteq> []" "rune_len s = 0" | "s \<noteq> []" "rune_len s \<noteq> 0" by blast
  then show ?case
  proof cases
    case 2
    with 1(1) have "length (runes (tl s)) \<le> length s - 1" by simp
    moreover have "0 < length s" using 2(1) by simp
    ultimately have "Suc (length (runes (tl s))) \<le> length s" by linarith
    with 2 show ?thesis by (simp add: runes.simps [of s])
  next
    case 3
    with 1(2) have "length (runes (drop (rune_len s) s)) \<le> length s - rune_len s" by simp
    moreover have "0 < length s" using 3(1) by simp
    ultimately have "Suc (length (runes (drop (rune_len s) s))) \<le> length s" using 3(2) by linarith
    with 3 show ?thesis by (simp add: runes.simps [of s])
  qed simp
qed

end
