(* ===== verification/Go_Values.thy ===== *)
theory Go_Values
  imports Prelude
begin

text \<open>
  Dynamically typed values: Go's \<^verbatim>\<open>interface{}\<close> as the client uses it. Values decoded from the
  wire are built from \<^verbatim>\<open>nil\<close>, booleans, \<^verbatim>\<open>float64\<close> numbers (exact rationals here), strings,
  \<^verbatim>\<open>[]interface{}\<close> and \<^verbatim>\<open>map[string]interface{}\<close>; values the client itself puts into payloads
  may also be \<^verbatim>\<open>int\<close>, \<^verbatim>\<open>int64\<close>, \<^verbatim>\<open>[]string\<close> and \<^verbatim>\<open>[]map[string]interface{}\<close>.
  A Go map is an association list read by its first entry for a key; a variable of map type,
  which may be \<^verbatim>\<open>nil\<close>, is an \<^verbatim>\<open>option\<close> of one, and a map stored in an interface is never nil
  because every such value comes from a decoder or a map literal.
\<close>

datatype gval =
    GNil
  | GBool bool
  | GInt int
  | GInt64 int
  | GFloat rat
  | GStr string
  | GList "gval list"
  | GStrs "string list"
  | GMaps "(string \<times> gval) list list"
  | GMap "(string \<times> gval) list"

type_synonym gobj = "(string \<times> gval) list"
type_synonym gmap = "gobj option"

section \<open>Reading\<close>

text \<open>The expression \<^verbatim>\<open>m[k]\<close>: the nil interface when the key is absent.\<close>

definition idx :: "gobj \<Rightarrow> string \<Rightarrow> gval" where
  "idx m k = (case map_of m k of None \<Rightarrow> GNil | Some v \<Rightarrow> v)"

definition has_key :: "gobj \<Rightarrow> string \<Rightarrow> bool" where
  "has_key m k \<longleftrightarrow> map_of m k \<noteq> None"

text \<open>Reading a map variable that may be nil: a nil map has no keys.\<close>

definition midx :: "gmap \<Rightarrow> string \<Rightarrow> gval" where
  "midx om k = (case om of None \<Rightarrow> GNil | Some m \<Rightarrow> idx m k)"

text \<open>Type assertions \<^verbatim>\<open>v.(T)\<close> with the comma-ok form as an option.\<close>

fun as_str :: "gval \<Rightarrow> string option" where
  "as_str (GStr s) = Some s"
| "as_str _ = None"

fun as_map :: "gval \<Rightarrow> gmap" where
  "as_map (GMap m) = Some m"
| "as_map _ = None"

fun as_list :: "gval \<Rightarrow> gval list option" where
  "as_list (GList xs) = Some xs"
| "as_list _ = None"

fun as_float :: "gval \<Rightarrow> rat option" where
  "as_float (GFloat r) = Some r"
| "as_float _ = None"

fun as_bool :: "gval \<Rightarrow> bool option" where
  "as_bool (GBool b) = Some b"
| "as_bool _ = None"

text \<open>\<^verbatim>\<open>asString\<close> (session.go, repeated in appkit/events.go): the string or the empty string.\<close>

fun asString :: "gval \<Rightarrow> string" where
  "asString (GStr s) = s"
| "asString _ = []"

text \<open>Conversion \<^verbatim>\<open>int(f)\<close> of a \<^verbatim>\<open>float64\<close>: truncation towards zero; outside the 64-bit range the
  value of the amd64 instruction.\<close>

definition int_of_float :: "rat \<Rightarrow> int" where
  "int_of_float r =
     (let n = (if 0 \<le> r then \<lfloor>r\<rfloor> else \<lceil>r\<rceil>)
      in if int64_min \<le> n \<and> n \<le> int64_max then n else int64_min)"

section \<open>Writing\<close>

text \<open>The assignment \<^verbatim>\<open>m[k] = v\<close> and the copying loop \<^verbatim>\<open>for k, v := range src { dst[k] = v }\<close>.\<close>

fun put :: "string \<Rightarrow> gval \<Rightarrow> gobj \<Rightarrow> gobj" where
  "put k v [] = [(k, v)]"
| "put k v ((k', v') # m) = (if k' = k then (k, v) # m else (k', v') # put k v m)"

definition put_if :: "bool \<Rightarrow> string \<Rightarrow> gval \<Rightarrow> gobj \<Rightarrow> gobj" where
  "put_if b k v m = (if b then put k v m else m)"

definition copy_into :: "gobj \<Rightarrow> gobj \<Rightarrow> gobj" where
  "copy_into src dst = fold (\<lambda>(k, v) d. put k v d) src dst"

text \<open>Go maps have one entry per key.\<close>

definition wf_obj :: "gobj \<Rightarrow> bool" where
  "wf_obj m \<longleftrightarrow> distinct (map fst m)"

section \<open>Lemmas\<close>

lemma idx_Nil [simp]: "idx [] k = GNil"
  by (simp add: idx_def)

lemma idx_Cons [simp]: "idx ((k', v) # m) k = (if k = k' then v else idx m k)"
  by (simp add: idx_def)

lemma has_key_Nil [simp]: "\<not> has_key [] k"
  by (simp add: has_key_def)

lemma has_key_Cons [simp]: "has_key ((k', v) # m) k \<longleftrightarrow> k = k' \<or> has_key m k"
  by (simp add: has_key_def)

lemma midx_simps [simp]: "midx None k = GNil" "midx (Some m) k = idx m k"
  by (simp_all add: midx_def)

lemma as_str_Some_iff [simp]: "as_str v = Some s \<longleftrightarrow> v = GStr s"
  by (cases v) auto

lemma as_map_Some_iff [simp]: "as_map v = Some m \<longleftrightarrow> v = GMap m"
  by (cases v) auto

lemma as_list_Some_iff [simp]: "as_list v = Some xs \<longleftrightarrow> v = GList xs"
  by (cases v) auto

lemma asString_as_str: "asString v = (case as_str v of None \<Rightarrow> [] | Some s \<Rightarrow> s)"
  by (cases v) auto

lemma asString_nonempty: "asString v \<noteq> [] \<longleftrightarrow> (\<exists>s. v = GStr s \<and> s \<noteq> [])"
  by (cases v) auto

lemma asString_eqD: "asString v = s \<Longrightarrow> s \<noteq> [] \<Longrightarrow> v = GStr s"
  by (cases v) auto

lemma map_of_put [simp]: "map_of (put k v m) = (map_of m)(k \<mapsto> v)"
  by (induction k v m rule: put.induct) auto

lemma idx_put: "idx (put k v m) k' = (if k' = k then v else idx m k')"
  by (simp add: idx_def)

lemma has_key_put: "has_key (put k v m) k' \<longleftrightarrow> k' = k \<or> has_key m k'"
  by (simp add: has_key_def)

lemma idx_put_if: "idx (put_if b k v m) k' = (if b \<and> k' = k then v else idx m k')"
  by (simp add: put_if_def idx_put)

lemma has_key_put_if: "has_key (put_if b k v m) k' \<longleftrightarrow> b \<and> k' = k \<or> has_key m k'"
  by (simp add: put_if_def has_key_put)

lemma keys_put: "fst ` set (put k v m) = insert k (fst ` set m)"
  by (induction k v m rule: put.induct) auto

lemma wf_put [simp]: "wf_obj m \<Longrightarrow> wf_obj (put k v m)"
  by (induction k v m rule: put.induct) (auto simp: wf_obj_def keys_put)

lemma wf_put_if [simp]: "wf_obj m \<Longrightarrow> wf_obj (put_if b k v m)"
  by (simp add: put_if_def)

lemma wf_obj_Nil [simp]: "wf_obj []"
  by (simp add: wf_obj_def)

lemma copy_into_Cons [simp]: "copy_into ((k, v) # src) dst = copy_into src (put k v dst)"
  by (simp add: copy_into_def)

lemma copy_into_Nil [simp]: "copy_into [] dst = dst"
  by (simp add: copy_into_def)

lemma wf_copy_into: "wf_obj dst \<Longrightarrow> wf_obj (copy_into src dst)"
  by (induction src arbitrary: dst) auto

lemma map_of_copy_into:
  "wf_obj src \<Longrightarrow> map_of (copy_into src dst) = map_of dst ++ map_of src"
proof (induction src arbitrary: dst)
  case (Cons p src)
  obtain k v where p: "p = (k, v)" by fastforce
  from Cons.prems p have wf: "wf_obj src" and new: "map_of src k = None"
    by (auto simp: wf_obj_def map_of_eq_None_iff)
  have "map_of (copy_into src (put k v dst)) = map_of (put k v dst) ++ map_of src"
    using Cons.IH wf by blast
  with p new show ?case by (auto simp: fun_eq_iff map_add_def split: option.splits)
qed simp

lemma idx_copy_into:
  "wf_obj src \<Longrightarrow> idx (copy_into src dst) k = (if has_key src k then idx src k else idx dst k)"
  by (auto simp: idx_def has_key_def map_of_copy_into map_add_def split: option.splits)

lemma copy_of_map: "wf_obj src \<Longrightarrow> map_of (copy_into src []) = map_of src"
  by (simp add: map_of_copy_into)

lemmas put_simps = idx_put has_key_put idx_put_if has_key_put_if

text \<open>Nested values are smaller than the map that holds them: the measure of every recursion
  over nested frames.\<close>

definition gsize :: "gobj \<Rightarrow> nat" where
  "gsize m = size (GMap m)"

lemma size_map_of: "map_of m k = Some v \<Longrightarrow> size v < gsize m"
  by (induction m) (auto simp: gsize_def split: if_splits)

lemma size_idx: "idx m k = v \<Longrightarrow> v \<noteq> GNil \<Longrightarrow> size v < gsize m"
  by (auto simp: idx_def size_map_of split: option.splits)

lemma gsize_nested: "idx m k = GMap m' \<Longrightarrow> gsize m' < gsize m"
  using size_idx [of m k "GMap m'"] by (simp add: gsize_def)

lemma gsize_nested2: "idx m k = GMap p \<Longrightarrow> idx p k' = GMap m' \<Longrightarrow> gsize m' < gsize m"
  using gsize_nested less_trans by blast

lemmas [go_value] = idx_def has_key_def midx_def put_simps

end
