(* ===== verification/Json.thy ===== *)
theory Json
  imports Go_Values
begin

text \<open>
  The part of Go's \<^verbatim>\<open>encoding/json\<close> the client relies on. A document is a syntax tree \<open>json\<close>
  that keeps number literals with a fraction or exponent apart from integer literals, because
  decoding into an \<^verbatim>\<open>int\<close> field accepts only the latter. \<open>parse_json\<close> reads a document from bytes,
  \<open>to_iface\<close> is \<^verbatim>\<open>Unmarshal\<close> into an \<^verbatim>\<open>interface{}\<close>, \<open>marshal\<close> is \<^verbatim>\<open>Marshal\<close>, and the
  \<open>dec_\<close> functions decode one struct field. Numbers are exact: the rounding of literals to
  \<^verbatim>\<open>float64\<close> precision is not modelled.
\<close>

datatype json =
    JNull
  | JBool bool
  | JInt int
  | JDec rat
  | JStr string
  | JArr "json list"
  | JObj "(string \<times> json) list"

section \<open>Values\<close>

fun to_iface :: "json \<Rightarrow> gval" where
  "to_iface JNull = GNil"
| "to_iface (JBool b) = GBool b"
| "to_iface (JInt n) = GFloat (of_int n)"
| "to_iface (JDec r) = GFloat r"
| "to_iface (JStr s) = GStr s"
| "to_iface (JArr xs) = GList (map to_iface xs)"
| "to_iface (JObj kvs) = GMap (copy_into (map (\<lambda>(k, v). (k, to_iface v)) kvs) [])"

definition num_json :: "rat \<Rightarrow> json" where
  "num_json r = (if r = of_int \<lfloor>r\<rfloor> \<and> \<bar>r\<bar> < 10 ^ 21 then JInt \<lfloor>r\<rfloor> else JDec r)"

fun marshal :: "gval \<Rightarrow> json" where
  "marshal GNil = JNull"
| "marshal (GBool b) = JBool b"
| "marshal (GInt n) = JInt n"
| "marshal (GInt64 n) = JInt n"
| "marshal (GFloat r) = num_json r"
| "marshal (GStr s) = JStr s"
| "marshal (GList xs) = JArr (map marshal xs)"
| "marshal (GStrs ss) = JArr (map JStr ss)"
| "marshal (GMaps ms) = JArr (map (\<lambda>m. JObj (map (\<lambda>(k, v). (k, marshal v)) m)) ms)"
| "marshal (GMap m) = JObj (map (\<lambda>(k, v). (k, marshal v)) m)"

text \<open>Values a decoder can produce: no Go-native containers, one entry per key.\<close>

fun wire_val :: "gval \<Rightarrow> bool" where
  "wire_val GNil = True"
| "wire_val (GBool b) = True"
| "wire_val (GInt n) = False"
| "wire_val (GInt64 n) = False"
| "wire_val (GFloat r) = True"
| "wire_val (GStr s) = True"
| "wire_val (GList xs) = (\<forall>x\<in>set xs. wire_val x)"
| "wire_val (GStrs ss) = False"
| "wire_val (GMaps ms) = False"
| "wire_val (GMap m) = (wf_obj m \<and> (\<forall>(k, v)\<in>set m. wire_val v))"

section \<open>Decoding struct fields\<close>

text \<open>The values of an object that a struct field with the given tag receives, in order: keys
  match case-insensitively.\<close>

definition field_vals :: "string \<Rightarrow> (string \<times> json) list \<Rightarrow> json list" where
  "field_vals tag kvs = map snd (filter (\<lambda>(k, _). EqualFold k tag) kvs)"

text \<open>Decoding into a field of a given type; \<open>None\<close> is an \<^verbatim>\<open>UnmarshalTypeError\<close>. A JSON null leaves
  strings and numbers untouched and clears maps, slices, pointers and interfaces.\<close>

fun dec_str :: "json list \<Rightarrow> string \<Rightarrow> string option" where
  "dec_str [] acc = Some acc"
| "dec_str (JNull # vs) acc = dec_str vs acc"
| "dec_str (JStr s # vs) acc = dec_str vs s"
| "dec_str (_ # vs) acc = None"

fun dec_int :: "json list \<Rightarrow> int \<Rightarrow> int option" where
  "dec_int [] acc = Some acc"
| "dec_int (JNull # vs) acc = dec_int vs acc"
| "dec_int (JInt n # vs) acc =
     (if int64_min \<le> n \<and> n \<le> int64_max then dec_int vs n else None)"
| "dec_int (_ # vs) acc = None"

fun dec_map :: "json list \<Rightarrow> gmap \<Rightarrow> gmap option" where
  "dec_map [] acc = Some acc"
| "dec_map (JNull # vs) acc = dec_map vs None"
| "dec_map (JObj kvs # vs) acc =
     dec_map vs (Some (copy_into (map (\<lambda>(k, v). (k, to_iface v)) kvs)
                         (case acc of None \<Rightarrow> [] | Some m \<Rightarrow> m)))"
| "dec_map (_ # vs) acc = None"

fun dec_iface :: "json list \<Rightarrow> gval \<Rightarrow> gval" where
  "dec_iface [] acc = acc"
| "dec_iface (v # vs) acc = dec_iface vs (to_iface v)"

fun dec_strs :: "json list \<Rightarrow> string list option \<Rightarrow> string list option option" where
  "dec_strs [] acc = Some acc"
| "dec_strs (JNull # vs) acc = dec_strs vs None"
| "dec_strs (JArr xs # vs) acc =
     (if list_all (\<lambda>x. case x of JNull \<Rightarrow> True | JStr _ \<Rightarrow> True | _ \<Rightarrow> False) xs
      then dec_strs vs (Some (map (\<lambda>x. case x of JStr s \<Rightarrow> s | _ \<Rightarrow> []) xs))
      else None)"
| "dec_strs (_ # vs) acc = None"

fun dec_ifaces :: "json list \<Rightarrow> gval list option \<Rightarrow> gval list option option" where
  "dec_ifaces [] acc = Some acc"
| "dec_ifaces (JNull # vs) acc = dec_ifaces vs None"
| "dec_ifaces (JArr xs # vs) acc = dec_ifaces vs (Some (map to_iface xs))"
| "dec_ifaces (_ # vs) acc = None"

section \<open>Text\<close>

definition json_ws :: "char \<Rightarrow> bool" where
  "json_ws c \<longleftrightarrow> c \<in> set [CHR 0x20, CHR 0x09, CHR 0x0A, CHR 0x0D]"

fun skip_ws :: "string \<Rightarrow> string" where
  "skip_ws [] = []"
| "skip_ws (c # s) = (if json_ws c then skip_ws s else c # s)"

definition hex_digit :: "char \<Rightarrow> nat option" where
  "hex_digit c =
     (let n = byte c
      in if 48 \<le> n \<and> n \<le> 57 then Some (n - 48)
         else if 65 \<le> n \<and> n \<le> 70 then Some (n - 55)
         else if 97 \<le> n \<and> n \<le> 102 then Some (n - 87) else None)"

definition hex4 :: "char \<Rightarrow> char \<Rightarrow> char \<Rightarrow> char \<Rightarrow> nat option" where
  "hex4 a b c d =
     (case (hex_digit a, hex_digit b, hex_digit c, hex_digit d) of
        (Some w, Some x, Some y, Some z) \<Rightarrow> Some (((w * 16 + x) * 16 + y) * 16 + z)
      | _ \<Rightarrow> None)"

text \<open>UTF-8 encoding of a code point; surrogate halves become U+FFFD.\<close>

definition utf8 :: "nat \<Rightarrow> string" where
  "utf8 n =
     (if n < 128 then [char_of n]
      else if n < 2048 then [char_of (192 + n div 64), char_of (128 + n mod 64)]
      else if 55296 \<le> n \<and> n < 57344 then rune_error
      else if n < 65536 then
        [char_of (224 + n div 4096), char_of (128 + n div 64 mod 64), char_of (128 + n mod 64)]
      else [char_of (240 + n div 262144), char_of (128 + n div 4096 mod 64),
            char_of (128 + n div 64 mod 64), char_of (128 + n mod 64)])"

definition simple_escape :: "char \<Rightarrow> char option" where
  "simple_escape c =
     map_of [(CHR 0x22, CHR 0x22), (CHR 0x5C, CHR 0x5C), (CHR ''/'', CHR ''/''),
             (CHR ''b'', CHR 0x08), (CHR ''f'', CHR 0x0C), (CHR ''n'', CHR 0x0A),
             (CHR ''r'', CHR 0x0D), (CHR ''t'', CHR 0x09)] c"

text \<open>The body of a string literal after the opening quote: the decoded text and the rest. A
  high surrogate followed by an escaped low surrogate is one code point.\<close>

function string_body :: "string \<Rightarrow> (string \<times> string) option" where
  "string_body s =
     (case s of
        [] \<Rightarrow> None
      | c # r \<Rightarrow>
          if c = CHR 0x22 then Some ([], r)
          else if c = CHR 0x5C then
            (case r of
               [] \<Rightarrow> None
             | e # r' \<Rightarrow>
                 if e = CHR ''u'' then
                   (case r' of
                      h1 # h2 # h3 # h4 # t \<Rightarrow>
                        (case hex4 h1 h2 h3 h4 of
                           None \<Rightarrow> None
                         | Some u \<Rightarrow>
                             (case (if 55296 \<le> u \<and> u < 56320 then
                                      (case t of
                                         b # v # l1 # l2 # l3 # l4 # t2 \<Rightarrow>
                                           if b = CHR 0x5C \<and> v = CHR ''u'' then
                                             (case hex4 l1 l2 l3 l4 of
                                                Some w \<Rightarrow>
                                                  if 56320 \<le> w \<and> w < 57344
                                                  then Some (w, t2) else None
                                              | None \<Rightarrow> None)
                                           else None
                                       | _ \<Rightarrow> None)
                                    else None) of
                                Some (w, t2) \<Rightarrow>
                                  (if length t2 < length s then
                                     map_option (\<lambda>(x, y).
                                       (utf8 (65536 + (u - 55296) * 1024 + (w - 56320)) @ x, y))
                                       (string_body t2)
                                   else None)
                              | None \<Rightarrow> map_option (\<lambda>(x, y). (utf8 u @ x, y)) (string_body t)))
                    | _ \<Rightarrow> None)
                 else (case simple_escape e of
                         None \<Rightarrow> None
                       | Some d \<Rightarrow> map_option (\<lambda>(x, y). (d # x, y)) (string_body r')))
          else if byte c < 32 then None
          else if rune_len s = 0 then
            map_option (\<lambda>(x, y). (rune_error @ x, y)) (string_body r)
          else map_option (\<lambda>(x, y). (take (rune_len s) s @ x, y))
                 (string_body (drop (rune_len s) s)))"
  by pat_completeness auto
termination
  by (relation "measure length") auto

declare string_body.simps [simp del]

definition is_digit :: "char \<Rightarrow> bool" where
  "is_digit c \<longleftrightarrow> char_digit c \<noteq> None"

definition digits_value :: "string \<Rightarrow> nat" where
  "digits_value s = (case dec_value 0 s of None \<Rightarrow> 0 | Some n \<Rightarrow> n)"

text \<open>A number literal: sign, integer part without leading zeros, fraction, exponent.\<close>

definition number_lit :: "string \<Rightarrow> (json \<times> string) option" where
  "number_lit s =
     (let neg = (s \<noteq> [] \<and> hd s = CHR ''-'');
          s1 = (if neg then tl s else s);
          ip = takeWhile is_digit s1;
          s2 = dropWhile is_digit s1;
          sign = (if neg then - 1 else 1 :: int)
      in if ip = [] \<or> (length ip > 1 \<and> hd ip = CHR ''0'') then None
         else
           (let frac = (s2 \<noteq> [] \<and> hd s2 = CHR ''.'');
                fp = (if frac then takeWhile is_digit (tl s2) else []);
                s3 = (if frac then dropWhile is_digit (tl s2) else s2);
                ex = (s3 \<noteq> [] \<and> (hd s3 = CHR ''e'' \<or> hd s3 = CHR ''E''));
                s4 = (if ex then tl s3 else s3);
                eneg = (ex \<and> s4 \<noteq> [] \<and> hd s4 = CHR ''-'');
                s5 = (if ex \<and> s4 \<noteq> [] \<and> (hd s4 = CHR ''-'' \<or> hd s4 = CHR ''+'') then tl s4 else s4);
                ep = (if ex then takeWhile is_digit s5 else []);
                s6 = (if ex then dropWhile is_digit s5 else s5)
            in if frac \<and> fp = [] then None
               else if ex \<and> ep = [] then None
               else if \<not> frac \<and> \<not> ex then Some (JInt (sign * int (digits_value ip)), s6)
               else
                 (let m = of_int (sign * int (digits_value (ip @ fp))) / 10 ^ length fp;
                      e = digits_value ep
                  in Some (JDec (if eneg then m / 10 ^ e else m * 10 ^ e), s6))))"

definition literal :: "string \<Rightarrow> json \<Rightarrow> string \<Rightarrow> (json \<times> string) option" where
  "literal w j s = (if prefix w s then Some (j, drop (length w) s) else None)"

text \<open>Values, array elements (after \<open>[\<close> or a comma) and object members. The length guards are
  always true: every reader consumes input; they let the termination proof see it.\<close>

function parse_value :: "string \<Rightarrow> (json \<times> string) option"
  and parse_elems :: "string \<Rightarrow> (json list \<times> string) option"
  and parse_members :: "string \<Rightarrow> ((string \<times> json) list \<times> string) option" where
  "parse_value s =
     (case skip_ws s of
        [] \<Rightarrow> None
      | c # r \<Rightarrow>
          if \<not> length r < length s then None
          else if c = CHR 0x22 then map_option (\<lambda>(x, t). (JStr x, t)) (string_body r)
          else if c = CHR ''['' then
            (case skip_ws r of
               x # r' \<Rightarrow>
                 if x = CHR '']'' then Some (JArr [], r')
                 else map_option (\<lambda>(xs, t). (JArr xs, t)) (parse_elems r)
             | [] \<Rightarrow> None)
          else if c = CHR ''{'' then
            (case skip_ws r of
               x # r' \<Rightarrow>
                 if x = CHR ''}'' then Some (JObj [], r')
                 else map_option (\<lambda>(kvs, t). (JObj kvs, t)) (parse_members r)
             | [] \<Rightarrow> None)
          else if c = CHR ''t'' then literal ''true'' (JBool True) (c # r)
          else if c = CHR ''f'' then literal ''false'' (JBool False) (c # r)
          else if c = CHR ''n'' then literal ''null'' JNull (c # r)
          else number_lit (c # r))"
| "parse_elems s =
     (case parse_value s of
        None \<Rightarrow> None
      | Some (v, r) \<Rightarrow>
          (case skip_ws r of
             c # r' \<Rightarrow>
               if \<not> length r' < length s then None
               else if c = CHR '']'' then Some ([v], r')
               else if c = CHR '','' then map_option (\<lambda>(vs, t). (v # vs, t)) (parse_elems r')
               else None
           | [] \<Rightarrow> None))"
| "parse_members s =
     (case skip_ws s of
        c # r \<Rightarrow>
          if c \<noteq> CHR 0x22 then None
          else (case string_body r of
                  None \<Rightarrow> None
                | Some (k, r1) \<Rightarrow>
                    (case skip_ws r1 of
                       d # r2 \<Rightarrow>
                         if d \<noteq> CHR '':'' \<or> \<not> length r2 < length s then None
                         else (case parse_value r2 of
                                 None \<Rightarrow> None
                               | Some (v, r3) \<Rightarrow>
                                   (case skip_ws r3 of
                                      x # r4 \<Rightarrow>
                                        if \<not> length r4 < length s then None
                                        else if x = CHR ''}'' then Some ([(k, v)], r4)
                                        else if x = CHR '','' then
                                          map_option (\<lambda>(kvs, t). ((k, v) # kvs, t)) (parse_members r4)
                                        else None
                                    | [] \<Rightarrow> None))
                     | [] \<Rightarrow> None))
      | [] \<Rightarrow> None)"
  by pat_completeness auto
termination
  by (relation "measure (\<lambda>x. case x of Inl s \<Rightarrow> 2 * length s
        | Inr y \<Rightarrow> (case y of Inl s \<Rightarrow> 2 * length s + 1 | Inr s \<Rightarrow> 2 * length s + 1))") auto

declare parse_value.simps [simp del] parse_elems.simps [simp del] parse_members.simps [simp del]

definition parse_json :: "string \<Rightarrow> json option" where
  "parse_json s =
     (case parse_value s of
        Some (v, r) \<Rightarrow> if skip_ws r = [] then Some v else None
      | None \<Rightarrow> None)"

section \<open>Lemmas\<close>

lemma copy_into_wf_id: "wf_obj (dst @ src) \<Longrightarrow> copy_into src dst = dst @ src"
proof (induction src arbitrary: dst)
  case (Cons p src)
  obtain k v where p: "p = (k, v)" by fastforce
  have "put k v dst = dst @ [(k, v)]"
    using Cons.prems p by (induction dst) (auto simp: wf_obj_def)
  with Cons.IH [of "dst @ [(k, v)]"] Cons.prems p show ?case by simp
qed simp

lemma copy_into_self: "wf_obj m \<Longrightarrow> copy_into m [] = m"
  using copy_into_wf_id [of "[]" m] by simp

lemma to_iface_num: "to_iface (num_json r) = GFloat r"
  by (simp add: num_json_def)

lemma to_iface_marshal: "wire_val v \<Longrightarrow> to_iface (marshal v) = v"
proof (induction v rule: wire_val.induct)
  case (7 xs)
  then show ?case by (simp add: map_idI)
next
  case (10 m)
  have "map ((\<lambda>(k, v). (k, to_iface v)) \<circ> (\<lambda>(k, v). (k, marshal v))) m = m"
    using 10 by (intro map_idI) fastforce
  with 10 show ?case by (simp add: copy_into_self)
qed (simp_all add: to_iface_num)

end
