(* ===== verification/Wire_Names.thy ===== *)
theory Wire_Names
  imports Go_Values
begin

text \<open>
  The event vocabulary of the wire protocol (events.go), its namespace parser, the verbosity
  tiers (verbosity.go) and the intent-hint phases (intent_hints.go). The hand-written splitting
  loop of \<^verbatim>\<open>splitNamespace\<close> is proved equal to \<^verbatim>\<open>strings.Split\<close>, and \<^verbatim>\<open>ParseNamespace\<close> is
  characterised by the shape of the namespaces it accepts.
\<close>

section \<open>Event constants\<close>

definition EventPlanCreated :: string where
  [wire_const]: "EventPlanCreated = ''soothe.cognition.plan.created''"

definition EventPlanBatchStarted :: string where
  [wire_const]: "EventPlanBatchStarted = ''soothe.cognition.plan.batch.started''"

definition EventPlanReflected :: string where
  [wire_const]: "EventPlanReflected = ''soothe.cognition.plan.reflected''"

definition EventGoalCreated :: string where
  [wire_const]: "EventGoalCreated = ''soothe.cognition.goal.created''"

definition EventGoalCompleted :: string where
  [wire_const]: "EventGoalCompleted = ''soothe.cognition.goal.completed''"

definition EventGoalFailed :: string where
  [wire_const]: "EventGoalFailed = ''soothe.cognition.goal.failed''"

definition EventGoalDeferred :: string where
  [wire_const]: "EventGoalDeferred = ''soothe.cognition.goal.deferred''"

definition EventGoalBatchStarted :: string where
  [wire_const]: "EventGoalBatchStarted = ''soothe.cognition.goal.batch.started''"

definition EventGoalReported :: string where
  [wire_const]: "EventGoalReported = ''soothe.cognition.goal.reported''"

definition EventGoalDirectivesApplied :: string where
  [wire_const]: "EventGoalDirectivesApplied = ''soothe.cognition.goal.directives.applied''"

definition EventDeepResearchStarted :: string where
  [wire_const]: "EventDeepResearchStarted = ''soothe.subagent.deep_research.started''"

definition EventDeepResearchProgress :: string where
  [wire_const]: "EventDeepResearchProgress = ''soothe.subagent.deep_research.progress''"

definition EventDeepResearchStepCompleted :: string where
  [wire_const]: "EventDeepResearchStepCompleted = ''soothe.subagent.deep_research.step.completed''"

definition EventDeepResearchGatherSummary :: string where
  [wire_const]: "EventDeepResearchGatherSummary = ''soothe.subagent.deep_research.gather.summary''"

definition EventDeepResearchCrawlSummary :: string where
  [wire_const]: "EventDeepResearchCrawlSummary = ''soothe.subagent.deep_research.crawl.summary''"

definition EventDeepResearchCompleted :: string where
  [wire_const]: "EventDeepResearchCompleted = ''soothe.subagent.deep_research.completed''"

definition EventReplayComplete :: string where
  [wire_const]: "EventReplayComplete = ''replay_complete''"

definition EventLoopReattachedWire :: string where
  [wire_const]: "EventLoopReattachedWire = ''loop_reattached''"

definition EventCardCreated :: string where
  [wire_const]: "EventCardCreated = ''soothe.card.created''"

definition EventCardUpdated :: string where
  [wire_const]: "EventCardUpdated = ''soothe.card.updated''"

definition EventCardFinalized :: string where
  [wire_const]: "EventCardFinalized = ''soothe.card.finalized''"

definition EventCardReplayBegin :: string where
  [wire_const]: "EventCardReplayBegin = ''soothe.card.replay.begin''"

definition EventCardReplayEnd :: string where
  [wire_const]: "EventCardReplayEnd = ''soothe.card.replay.end''"

definition EventToolStarted :: string where
  [wire_const]: "EventToolStarted = ''soothe.tool.execution.started''"

definition EventToolCompleted :: string where
  [wire_const]: "EventToolCompleted = ''soothe.tool.execution.completed''"

definition EventToolError :: string where
  [wire_const]: "EventToolError = ''soothe.tool.execution.error''"

definition EventStreamToolCallUpdate :: string where
  [wire_const]: "EventStreamToolCallUpdate = ''soothe.stream.tool_call.update''"

definition EventToolCallUpdatesBatch :: string where
  [wire_const]: "EventToolCallUpdatesBatch = ''tool_call_updates_batch''"

definition EventStrangeLoopStarted :: string where
  [wire_const]: "EventStrangeLoopStarted = ''soothe.cognition.strange_loop.started''"

definition EventStrangeLoopCompleted :: string where
  [wire_const]: "EventStrangeLoopCompleted = ''soothe.cognition.strange_loop.completed''"

definition EventStrangeLoopPlanDecision :: string where
  [wire_const]: "EventStrangeLoopPlanDecision = ''soothe.cognition.strange_loop.plan.decision''"

definition EventStrangeLoopReasoned :: string where
  [wire_const]: "EventStrangeLoopReasoned = ''soothe.cognition.strange_loop.reasoned''"

definition EventStrangeLoopStepStarted :: string where
  [wire_const]: "EventStrangeLoopStepStarted = ''soothe.cognition.strange_loop.step.started''"

definition EventStrangeLoopStepQueued :: string where
  [wire_const]: "EventStrangeLoopStepQueued = ''soothe.cognition.strange_loop.step.queued''"

definition EventStrangeLoopStepCompleted :: string where
  [wire_const]: "EventStrangeLoopStepCompleted = ''soothe.cognition.strange_loop.step.completed''"

definition EventStrangeLoopContextCompacted :: string where
  [wire_const]: "EventStrangeLoopContextCompacted = ''soothe.cognition.strange_loop.context.compacted''"

definition EventBranchCreated :: string where
  [wire_const]: "EventBranchCreated = ''soothe.cognition.branch.created''"

definition EventBranchRetryStarted :: string where
  [wire_const]: "EventBranchRetryStarted = ''soothe.cognition.branch.retry.started''"

definition EventMessageReceived :: string where
  [wire_const]: "EventMessageReceived = ''soothe.protocol.message.received''"

definition EventMessageSent :: string where
  [wire_const]: "EventMessageSent = ''soothe.protocol.message.sent''"

definition EventFinalReport :: string where
  [wire_const]: "EventFinalReport = ''soothe.output.autonomous.final_report.reported''"

definition EventAutopilotStatusChanged :: string where
  [wire_const]: "EventAutopilotStatusChanged = ''soothe.system.autopilot.status.changed''"

definition EventAutopilotGoalCreated :: string where
  [wire_const]: "EventAutopilotGoalCreated = ''soothe.system.autopilot.goal.created''"

definition EventAutopilotGoalProgress :: string where
  [wire_const]: "EventAutopilotGoalProgress = ''soothe.system.autopilot.goal.reported''"

definition EventAutopilotGoalCompleted :: string where
  [wire_const]: "EventAutopilotGoalCompleted = ''soothe.system.autopilot.goal.completed''"

definition EventAutopilotGoalSuspended :: string where
  [wire_const]: "EventAutopilotGoalSuspended = ''soothe.system.autopilot.goal.suspended''"

definition EventAutopilotGoalBlocked :: string where
  [wire_const]: "EventAutopilotGoalBlocked = ''soothe.system.autopilot.goal.blocked''"

definition EventAutopilotDreamingEntered :: string where
  [wire_const]: "EventAutopilotDreamingEntered = ''soothe.system.autopilot.dreaming.started''"

definition EventAutopilotDreamingExited :: string where
  [wire_const]: "EventAutopilotDreamingExited = ''soothe.system.autopilot.dreaming.completed''"

definition EventGeneralFailed :: string where
  [wire_const]: "EventGeneralFailed = ''soothe.error.general.failed''"

section \<open>Namespace parsing\<close>

definition slice :: "string \<Rightarrow> nat \<Rightarrow> nat \<Rightarrow> string" where
  "slice s a b = take (b - a) (drop a s)"

text \<open>The loop of \<^verbatim>\<open>splitNamespace\<close>: index \<open>i\<close>, start of the current segment, segments so far.\<close>

function splitNamespace_loop :: "string \<Rightarrow> nat \<Rightarrow> nat \<Rightarrow> string list \<Rightarrow> string list" where
  "splitNamespace_loop ns i start parts =
     (if i < length ns then
        (if ns ! i = CHR ''.'' then
           splitNamespace_loop ns (i + 1) (i + 1) (parts @ [slice ns start i])
         else splitNamespace_loop ns (i + 1) start parts)
      else parts @ [drop start ns])"
  by pat_completeness auto
termination
  by (relation "measure (\<lambda>(ns, i, start, parts). length ns - i)") auto

declare splitNamespace_loop.simps [simp del]

definition splitNamespace :: "string \<Rightarrow> string list" where
  "splitNamespace ns = splitNamespace_loop ns 0 0 []"

definition ParseNamespace :: "string \<Rightarrow> (string \<times> string \<times> string) option" where
  "ParseNamespace ns =
     (let parts = splitNamespace ns
      in if length parts < 4 \<or> parts ! 0 \<noteq> ''soothe'' then None
         else if parts ! 1 = ''internal'' then None
         else Some (parts ! 1, parts ! 2, parts ! 3))"

section \<open>Verbosity tiers\<close>

definition VerbosityQuiet :: string where "VerbosityQuiet = ''quiet''"
definition VerbosityNormal :: string where "VerbosityNormal = ''normal''"
definition VerbosityDebug :: string where "VerbosityDebug = ''debug''"

definition TierQuiet :: int where "TierQuiet = 0"
definition TierNormal :: int where "TierNormal = 1"
definition TierDetailed :: int where "TierDetailed = 2"
definition TierDebug :: int where "TierDebug = 3"
definition TierInternal :: int where "TierInternal = 99"

definition verbosityLevelValues :: "(string \<times> int) list" where
  "verbosityLevelValues = [(VerbosityQuiet, 0), (VerbosityNormal, 1), (VerbosityDebug, 3)]"

definition ShouldShow :: "int \<Rightarrow> string \<Rightarrow> bool" where
  "ShouldShow tier verbosity =
     (if tier = TierInternal then False
      else let level = (case map_of verbosityLevelValues verbosity of None \<Rightarrow> 1 | Some l \<Rightarrow> l)
           in tier \<le> level)"

definition IsValidVerbosityLevel :: "string \<Rightarrow> bool" where
  "IsValidVerbosityLevel s \<longleftrightarrow> map_of verbosityLevelValues s \<noteq> None"

section \<open>Phases\<close>

definition IntentHintTextCompletion :: string where
  "IntentHintTextCompletion = ''text_completion''"
definition IntentHintImageToText :: string where "IntentHintImageToText = ''image_to_text''"
definition IntentHintOCR :: string where "IntentHintOCR = ''ocr''"
definition IntentHintEmbed :: string where "IntentHintEmbed = ''embed''"

definition DefaultDeliverablePhases :: "string list" where
  "DefaultDeliverablePhases =
     [''quiz'', ''goal_completion'', ''text_completion'', ''image_to_text'', ''ocr'', ''embed'',
      ''chitchat'']"

definition isLoopAssistantPhase :: "string \<Rightarrow> bool" where
  "isLoopAssistantPhase phase \<longleftrightarrow>
     phase \<in> set [''goal_completion'', ''quiz'', ''autonomous_goal'', ''text_completion'',
       ''image_to_text'', ''ocr'', ''embed'', ''plan_direct'', ''chitchat'']"

section \<open>Lemmas\<close>

lemma slice_Suc: "start \<le> i \<Longrightarrow> i < length s \<Longrightarrow> slice s start (Suc i) = slice s start i @ [s ! i]"
  by (simp add: slice_def Suc_diff_le take_Suc_conv_app_nth)

lemma slice_drop: "start \<le> i \<Longrightarrow> i \<le> length s \<Longrightarrow> drop start s = slice s start i @ drop i s"
  unfolding slice_def by (metis append_take_drop_id drop_drop le_add_diff_inverse2)

lemma splitNamespace_loop_split:
  assumes "start \<le> i" "i \<le> length ns" "CHR ''.'' \<notin> set (slice ns start i)"
  shows "splitNamespace_loop ns i start parts = parts @ split_char CHR ''.'' (drop start ns)"
  using assms
proof (induction ns i start parts rule: splitNamespace_loop.induct)
  case (1 ns i start parts)
  show ?case
  proof (cases "i < length ns")
    case True
    show ?thesis
    proof (cases "ns ! i = CHR ''.''")
      case dot: True
      have "split_char CHR ''.'' (drop start ns)
            = [slice ns start i] @ split_char CHR ''.'' (drop (i + 1) ns)"
        using slice_drop [of start i ns] Cons_nth_drop_Suc [OF True] dot 1
        by (metis Suc_eq_plus1 split_char_append_sep split_char_none)
      moreover have "splitNamespace_loop ns (i + 1) (i + 1) (parts @ [slice ns start i])
            = (parts @ [slice ns start i]) @ split_char CHR ''.'' (drop (i + 1) ns)"
        using "1.IH"(1) [OF True dot] True by (simp add: slice_def)
      ultimately show ?thesis
        using True dot by (simp add: splitNamespace_loop.simps [of ns i])
    next
      case False
      then have "CHR ''.'' \<notin> set (slice ns start (i + 1))"
        using "1.prems" True by (simp add: slice_Suc)
      with "1.IH"(2) True False "1.prems" show ?thesis
        by (simp add: splitNamespace_loop.simps [of ns i])
    qed
  next
    case False
    with "1.prems" have "slice ns start i = drop start ns" by (simp add: slice_def)
    with False "1.prems" show ?thesis
      by (subst splitNamespace_loop.simps) (simp add: split_char_none)
  qed
qed

lemma splitNamespace_eq: "splitNamespace ns = split_char CHR ''.'' ns"
  by (simp add: splitNamespace_def splitNamespace_loop_split slice_def)

lemma deliverable_phase_is_assistant:
  "p \<in> set DefaultDeliverablePhases \<Longrightarrow> isLoopAssistantPhase p"
  by (auto simp: DefaultDeliverablePhases_def isLoopAssistantPhase_def)

section \<open>Properties\<close>

text \<open>The hand-written index loop \<^verbatim>\<open>splitNamespace\<close> cuts a namespace exactly as
  \<^verbatim>\<open>strings.Split\<close> at the dots does.\<close>

theorem splitNamespace_is_split: "splitNamespace ns = split_char CHR ''.'' ns"
  by (rule splitNamespace_eq)

text \<open>\<^verbatim>\<open>ParseNamespace\<close> returns the three segments after \<^verbatim>\<open>soothe\<close> of a namespace with at least
  four segments, whatever follows them, and rejects the server-only internal domain; on a
  four-segment or longer namespace built from dot-free segments it inverts the joining of them.\<close>

theorem ParseNamespace_joined:
  assumes "CHR ''.'' \<notin> set d" "CHR ''.'' \<notin> set c" "CHR ''.'' \<notin> set a"
    and "rest = [] \<or> hd rest = CHR ''.''"
  shows "ParseNamespace (''soothe.'' @ d @ ''.'' @ c @ ''.'' @ a @ rest)
         = (if d = ''internal'' then None else Some (d, c, a))"
proof -
  have s: "split_char CHR ''.'' (''soothe.'' @ d @ ''.'' @ c @ ''.'' @ t)
           = [''soothe'', d, c] @ split_char CHR ''.'' t" for t
    using split_char_append_sep [of "CHR ''.''" "''soothe''" "d @ ''.'' @ c @ ''.'' @ t"]
      split_char_append_sep [of "CHR ''.''" d "c @ ''.'' @ t"]
      split_char_append_sep [of "CHR ''.''" c t] assms by (simp add: split_char_none)
  from assms(4) obtain r where "split_char CHR ''.'' (a @ rest) = a # r"
  proof (cases rest)
    case Nil
    with assms(3) that show ?thesis by (simp add: split_char_none)
  next
    case (Cons x xs)
    with assms(3,4) that split_char_append_sep [of "CHR ''.''" a xs] show ?thesis
      by (simp add: split_char_none)
  qed
  with s [of "a @ rest"] show ?thesis by (simp add: ParseNamespace_def splitNamespace_eq Let_def)
qed

theorem ParseNamespace_joined_witness:
  "CHR ''.'' \<notin> set ''tool'' \<and> ParseNamespace ''soothe.tool.execution.started'' = Some (''tool'', ''execution'', ''started'')"
  using ParseNamespace_joined [of "''tool''" "''execution''" "''started''" "[]"] by simp

text \<open>Content visible at one verbosity level stays visible at every higher one, and content of
  the internal tier is visible at none.\<close>

theorem ShouldShow_monotone:
  "\<not> ShouldShow TierInternal v
   \<and> (ShouldShow t VerbosityQuiet \<longrightarrow> ShouldShow t VerbosityNormal)
   \<and> (ShouldShow t VerbosityNormal \<longrightarrow> ShouldShow t VerbosityDebug)
   \<and> (\<not> IsValidVerbosityLevel v \<longrightarrow> ShouldShow t v = ShouldShow t VerbosityNormal)"
  by (auto simp: ShouldShow_def verbosityLevelValues_def IsValidVerbosityLevel_def
      VerbosityQuiet_def VerbosityNormal_def VerbosityDebug_def Let_def)

theorem ShouldShow_monotone_witness:
  "\<not> ShouldShow TierInternal VerbosityDebug \<and> ShouldShow TierQuiet VerbosityNormal
   \<and> ShouldShow TierNormal VerbosityDebug"
proof -
  have "ShouldShow TierQuiet VerbosityQuiet" "ShouldShow TierNormal VerbosityNormal"
    by (simp_all add: ShouldShow_def verbosityLevelValues_def TierQuiet_def TierNormal_def
        TierInternal_def VerbosityQuiet_def VerbosityNormal_def)
  then show ?thesis
    using ShouldShow_monotone [of VerbosityDebug TierQuiet]
      ShouldShow_monotone [of VerbosityDebug TierNormal] by blast
qed

end
