(* ===== verification/Stream_Terminal.thy ===== *)
theory Stream_Terminal
  imports Wire_Names
begin

text \<open>
  Turn-scoped terminals on the stream (stream_terminal.go): which custom payloads end a turn,
  which chunks prove progress, which pending frames are leftovers that may be peeled before a
  turn, which inbound frames are acknowledged and for which loop. The lemmas relate the four
  classifications: a terminal is never progress, peeling never removes a progress chunk and
  only removes event frames that are acknowledged, and wrapping a frame in a \<^verbatim>\<open>next\<close> envelope
  changes none of the answers.
\<close>

section \<open>Definitions\<close>

definition STREAM_END :: string where
  [wire_const]: "STREAM_END = ''soothe.stream.end''"

definition turnEndCustomTypes :: "string list" where
  "turnEndCustomTypes = [STREAM_END, EventStrangeLoopCompleted]"

definition turnProgressCustomTypes :: "string list" where
  "turnProgressCustomTypes =
     [EventPlanCreated, EventStrangeLoopStepStarted, EventStrangeLoopStepQueued,
      EventStrangeLoopStepCompleted, EventCardCreated, EventCardUpdated, EventCardFinalized]"

definition staleTurnPendingTypes :: "string list" where
  "staleTurnPendingTypes =
     [''connection_ack'', EventCardReplayBegin, EventCardReplayEnd, EventCardCreated, ''complete'']"

definition IsTurnEndCustomData :: "gval \<Rightarrow> bool" where
  "IsTurnEndCustomData data =
     (case as_map data of
        None \<Rightarrow> False
      | Some m \<Rightarrow>
          (let customType = TrimSpace (asString (idx m ''type''))
           in if customType \<notin> set turnEndCustomTypes then False
              else if customType = STREAM_END then
                (let scope = ToLower (TrimSpace (asString (idx m ''scope'')));
                     scope' = (if scope = [] then ''turn'' else scope)
                 in scope' = ''turn'')
              else True))"

definition IsTurnProgressChunk :: "string \<Rightarrow> gval \<Rightarrow> bool" where
  "IsTurnProgressChunk mode data =
     (if mode = ''messages'' \<or> mode = ''updates'' then True
      else if mode \<noteq> ''custom'' then False
      else if IsTurnEndCustomData data then False
      else case as_map data of
        None \<Rightarrow> False
      | Some m \<Rightarrow>
          (let customType = TrimSpace (asString (idx m ''type''))
           in if customType \<in> set turnProgressCustomTypes then True
              else HasPrefix customType ''soothe.cognition.strange_loop.step''))"

function StalePendingFrameLabel :: "gmap \<Rightarrow> string" where
  "StalePendingFrameLabel None = []"
| "StalePendingFrameLabel (Some event) =
     (let eventType = asString (idx event ''type'')
      in if eventType \<in> set staleTurnPendingTypes then eventType
         else if eventType = ''next'' then
           (case as_map (idx event ''payload'') of
              None \<Rightarrow> []
            | Some payload \<Rightarrow>
                (let staleMode = asString (idx payload ''mode'')
                 in if staleMode \<in> set staleTurnPendingTypes then staleMode
                    else case as_map (idx payload ''data'') of
                      Some inner \<Rightarrow> StalePendingFrameLabel (Some inner)
                    | None \<Rightarrow> []))
         else if eventType = ''event'' then
           (let mode = asString (idx event ''mode'')
            in if mode = ''custom'' \<and> IsTurnEndCustomData (idx event ''data'') then
                 (case as_map (idx event ''data'') of
                    Some m \<Rightarrow> TrimSpace (asString (idx m ''type''))
                  | None \<Rightarrow> [])
               else [])
         else [])"
  by pat_completeness auto
termination
  by (relation "measure (\<lambda>om. case om of None \<Rightarrow> 0 | Some m \<Rightarrow> gsize m)")
     (auto dest: gsize_nested2)

declare StalePendingFrameLabel.simps(2) [simp del]

definition inboundNeedsAckFromEventShape :: "gobj \<Rightarrow> bool" where
  "inboundNeedsAckFromEventShape event =
     (let mode = asString (idx event ''mode''); data = idx event ''data''
      in if mode = ''custom'' \<and> IsTurnEndCustomData data then True
         else if mode = ''messages'' then
           (case as_list data of
              None \<Rightarrow> False
            | Some [] \<Rightarrow> False
            | Some (x # _) \<Rightarrow>
                (case as_map x of
                   None \<Rightarrow> False
                 | Some body \<Rightarrow>
                     (let t = asString (idx body ''type'')
                      in t = STREAM_END \<or> Contains t ''stream.end'')))
         else False)"

definition InboundNeedsDeliveryAck :: "gmap \<Rightarrow> bool" where
  "InboundNeedsDeliveryAck oevent =
     (case oevent of
        None \<Rightarrow> False
      | Some event \<Rightarrow>
          (let ty = asString (idx event ''type'')
           in if ty = ''complete'' then True
              else if ty = ''next'' then
                (case as_map (idx event ''payload'') of
                   None \<Rightarrow> False
                 | Some payload \<Rightarrow>
                     (case as_map (idx payload ''data'') of
                        None \<Rightarrow> False
                      | Some inner \<Rightarrow>
                          (let mode = asString (idx payload ''mode'')
                           in if mode = ''event'' then inboundNeedsAckFromEventShape inner
                              else False)))
              else if ty = ''event'' then inboundNeedsAckFromEventShape event
              else False))"

definition ExtractLoopIDFromInbound :: "gmap \<Rightarrow> string" where
  "ExtractLoopIDFromInbound oevent =
     (case oevent of
        None \<Rightarrow> []
      | Some event \<Rightarrow>
          (let id = TrimSpace (asString (idx event ''loop_id''))
           in if id \<noteq> [] then id
              else if asString (idx event ''type'') = ''next'' then
                (case as_map (idx event ''payload'') of
                   None \<Rightarrow> []
                 | Some payload \<Rightarrow>
                     (let pid = TrimSpace (asString (idx payload ''loop_id''))
                      in if pid \<noteq> [] then pid
                         else case as_map (idx payload ''data'') of
                           Some inner \<Rightarrow> TrimSpace (asString (idx inner ''loop_id''))
                         | None \<Rightarrow> []))
              else []))"

section \<open>Lemmas\<close>

lemmas terminal_types =
  turnEndCustomTypes_def turnProgressCustomTypes_def staleTurnPendingTypes_def

lemma stale_types_not_event:
  "''event'' \<notin> set staleTurnPendingTypes" "''next'' \<notin> set staleTurnPendingTypes"
  "[] \<notin> set staleTurnPendingTypes"
  by (simp_all add: terminal_types wire_const)

lemma IsTurnEndCustomDataD:
  "IsTurnEndCustomData d \<Longrightarrow>
     \<exists>m. d = GMap m \<and> TrimSpace (asString (idx m ''type'')) \<in> set turnEndCustomTypes"
  by (cases d) (auto simp: IsTurnEndCustomData_def Let_def split: if_splits)

lemma turn_end_type_nonempty: "t \<in> set turnEndCustomTypes \<Longrightarrow> t \<noteq> []"
  by (auto simp: terminal_types wire_const)

lemma terminal_not_progress: "IsTurnEndCustomData d \<Longrightarrow> \<not> IsTurnProgressChunk ''custom'' d"
  by (simp add: IsTurnProgressChunk_def)

lemma stale_label_event:
  assumes "asString (idx m ''type'') = ''event''"
  shows "StalePendingFrameLabel (Some m) \<noteq> []
    \<longleftrightarrow> asString (idx m ''mode'') = ''custom'' \<and> IsTurnEndCustomData (idx m ''data'')"
  using assms
  by (auto simp: StalePendingFrameLabel.simps(2) stale_types_not_event Let_def
      dest!: IsTurnEndCustomDataD dest: turn_end_type_nonempty)

lemma needs_ack_event:
  "asString (idx m ''type'') = ''event'' \<Longrightarrow>
   InboundNeedsDeliveryAck (Some m) = inboundNeedsAckFromEventShape m"
  by (simp add: InboundNeedsDeliveryAck_def)

lemma ack_shape_terminal:
  "asString (idx m ''mode'') = ''custom'' \<Longrightarrow> IsTurnEndCustomData (idx m ''data'') \<Longrightarrow>
   inboundNeedsAckFromEventShape m"
  by (simp add: inboundNeedsAckFromEventShape_def Let_def)

text \<open>The envelope the daemon puts around a streamed frame.\<close>

definition wrap_next :: "gobj \<Rightarrow> gobj" where
  "wrap_next inner =
     [(''proto'', GStr ''1''), (''type'', GStr ''next''),
      (''payload'', GMap [(''mode'', GStr ''event''), (''data'', GMap inner)])]"

lemma stale_label_wrap: "StalePendingFrameLabel (Some (wrap_next inner)) = StalePendingFrameLabel (Some inner)"
  by (subst StalePendingFrameLabel.simps)
     (simp add: wrap_next_def stale_types_not_event Let_def)

lemma needs_ack_wrap: "InboundNeedsDeliveryAck (Some (wrap_next inner)) = inboundNeedsAckFromEventShape inner"
  by (simp add: InboundNeedsDeliveryAck_def wrap_next_def Let_def)

lemma loop_id_wrap:
  "ExtractLoopIDFromInbound (Some (wrap_next inner)) = TrimSpace (asString (idx inner ''loop_id''))"
  by (simp add: ExtractLoopIDFromInbound_def wrap_next_def Let_def)

lemma loop_id_event:
  "asString (idx m ''type'') = ''event'' \<Longrightarrow>
   ExtractLoopIDFromInbound (Some m) = TrimSpace (asString (idx m ''loop_id''))"
  by (simp add: ExtractLoopIDFromInbound_def Let_def)

section \<open>Properties\<close>

text \<open>Peeling before a new turn is safe: an event frame is labelled stale exactly when it is a
  turn terminal, so a chunk that proves progress is never peeled and every peeled event frame is
  one the client acknowledges.\<close>

theorem peel_only_acked_terminals:
  assumes "asString (idx m ''type'') = ''event''"
  shows "(StalePendingFrameLabel (Some m) \<noteq> []
            \<longrightarrow> InboundNeedsDeliveryAck (Some m)
                \<and> \<not> IsTurnProgressChunk (asString (idx m ''mode'')) (idx m ''data''))
       \<and> (IsTurnProgressChunk (asString (idx m ''mode'')) (idx m ''data'')
            \<longrightarrow> StalePendingFrameLabel (Some m) = [])"
  using stale_label_event [OF assms] needs_ack_event [OF assms] ack_shape_terminal [of m]
    terminal_not_progress [of "idx m ''data''"]
  by metis

definition stream_end_frame :: gobj where
  "stream_end_frame =
     [(''type'', GStr ''event''), (''mode'', GStr ''custom''), (''loop_id'', GStr ''L1''),
      (''data'', GMap [(''type'', GStr ''soothe.stream.end''), (''turn_id'', GStr ''L1:1'')])]"

lemma stream_end_frame_terminal: "IsTurnEndCustomData (idx stream_end_frame ''data'')"
  by (simp add: stream_end_frame_def IsTurnEndCustomData_def terminal_types wire_const
      TrimSpace_plain_ends plain_byteI ToLower_def)

theorem peel_only_acked_terminals_witness:
  "StalePendingFrameLabel (Some stream_end_frame) \<noteq> []
   \<and> InboundNeedsDeliveryAck (Some stream_end_frame)"
proof -
  have ev: "asString (idx stream_end_frame ''type'') = ''event''"
    by (simp add: stream_end_frame_def)
  have "StalePendingFrameLabel (Some stream_end_frame) \<noteq> []"
    using stale_label_event [OF ev] stream_end_frame_terminal by (simp add: stream_end_frame_def)
  with peel_only_acked_terminals [OF ev] show ?thesis by blast
qed

text \<open>The \<^verbatim>\<open>next\<close> envelope is transparent: the peel label of a wrapped frame is the label of
  the frame inside, a wrapped event frame needs an acknowledgement exactly when the bare one
  does, and the loop it is acknowledged for is the inner frame's.\<close>

theorem next_wrapping_transparent:
  "StalePendingFrameLabel (Some (wrap_next f)) = StalePendingFrameLabel (Some f)
   \<and> (asString (idx f ''type'') = ''event'' \<longrightarrow>
        InboundNeedsDeliveryAck (Some (wrap_next f)) = InboundNeedsDeliveryAck (Some f)
        \<and> ExtractLoopIDFromInbound (Some (wrap_next f)) = ExtractLoopIDFromInbound (Some f))"
  by (simp add: stale_label_wrap needs_ack_wrap needs_ack_event loop_id_wrap loop_id_event)

theorem next_wrapping_transparent_witness:
  "InboundNeedsDeliveryAck (Some (wrap_next stream_end_frame))
     = InboundNeedsDeliveryAck (Some stream_end_frame)"
proof -
  have "asString (idx stream_end_frame ''type'') = ''event''" by (simp add: stream_end_frame_def)
  with next_wrapping_transparent [of stream_end_frame] show ?thesis by blast
qed

end
