(* ===== verification/Protocol.thy ===== *)
theory Protocol
  imports Json Stream_Terminal
begin

text \<open>
  The protocol-1 envelope and the typed wire messages (protocol.go): envelope constructors, the
  encoding of messages as JSON objects, \<^verbatim>\<open>DecodeMessage\<close> with its projection of \<^verbatim>\<open>next\<close>
  envelopes to events, batch expansion, NDJSON splitting and the readers of loop ids, namespaces
  and assistant text. The request ids that \<^verbatim>\<open>google/uuid\<close> generates are arguments.
\<close>

section \<open>Messages\<close>

definition ProtoVersion :: string where [wire_const]: "ProtoVersion = ''1''"
definition ClientVersion :: string where [wire_const]: "ClientVersion = ''0.4.17''"

definition DefaultClientCapabilities :: "string list" where
  "DefaultClientCapabilities = [''streaming'', ''batch'', ''heartbeat'', ''receipts'']"

record ErrorObject =
  eo_Code :: int
  eo_Message :: string
  eo_Data :: gmap

record Envelope =
  env_Proto :: string
  env_Type :: string
  env_Method :: string
  env_Params :: gmap
  env_ID :: string
  env_Result :: gmap
  env_Error :: "ErrorObject option"
  env_Payload :: gmap
  env_Receipt :: string

definition zero_envelope :: Envelope where
  "zero_envelope = \<lparr>env_Proto = [], env_Type = [], env_Method = [], env_Params = None, env_ID = [],
     env_Result = None, env_Error = None, env_Payload = None, env_Receipt = []\<rparr>"

record EventMessage =
  ev_RequestID :: string
  ev_Type :: string
  ev_LoopID :: string
  ev_TurnID :: string
  ev_Seq :: int
  ev_Namespace :: gval
  ev_Mode :: string
  ev_Data :: gval
  ev_Timestamp :: string

definition zero_time :: string where "zero_time = ''0001-01-01T00:00:00Z''"

definition zero_event :: EventMessage where
  "zero_event = \<lparr>ev_RequestID = [], ev_Type = [], ev_LoopID = [], ev_TurnID = [], ev_Seq = 0,
     ev_Namespace = GNil, ev_Mode = [], ev_Data = GNil, ev_Timestamp = zero_time\<rparr>"

record StatusResponse =
  st_RequestID :: string
  st_Type :: string
  st_State :: string
  st_LoopID :: string
  st_TurnID :: string
  st_Seq :: int
  st_Workspace :: string
  st_InputHistory :: "string list option"
  st_ConversationHistory :: "gval list option"

record ErrorResponse =
  er_RequestID :: string
  er_Type :: string
  er_Code :: string
  er_Message :: string
  er_Details :: gmap

record LoopAIMessage =
  lm_Type :: string
  lm_Content :: gval
  lm_Phase :: string

text \<open>The dynamic type of a decoded message; the nil interface is \<open>None\<close> of an option, and a
  decoded JSON null is a nil map inside a non-nil interface.\<close>

datatype msg =
    MEnvelope Envelope
  | MEvent EventMessage
  | MStatus StatusResponse
  | MErrorResponse ErrorResponse
  | MMap gmap

section \<open>Envelope constructors\<close>

definition NewRequestEnvelope :: "string \<Rightarrow> string \<Rightarrow> gmap \<Rightarrow> Envelope" where
  "NewRequestEnvelope uuid mth params =
     zero_envelope\<lparr>env_Proto := ProtoVersion, env_Type := ''request'', env_Method := mth,
       env_Params := params, env_ID := uuid\<rparr>"

definition NewRequestEnvelopeWithID :: "string \<Rightarrow> string \<Rightarrow> gmap \<Rightarrow> string \<Rightarrow> Envelope" where
  "NewRequestEnvelopeWithID uuid mth params rid =
     (let id' = (if rid = [] then uuid else rid)
      in zero_envelope\<lparr>env_Proto := ProtoVersion, env_Type := ''request'', env_Method := mth,
           env_Params := params, env_ID := id'\<rparr>)"

definition NewNotificationEnvelope :: "string \<Rightarrow> gmap \<Rightarrow> Envelope" where
  "NewNotificationEnvelope mth params =
     zero_envelope\<lparr>env_Proto := ProtoVersion, env_Type := ''notification'', env_Method := mth,
       env_Params := params\<rparr>"

definition NewSubscribeEnvelope :: "string \<Rightarrow> string \<Rightarrow> gmap \<Rightarrow> Envelope" where
  "NewSubscribeEnvelope uuid mth params =
     zero_envelope\<lparr>env_Proto := ProtoVersion, env_Type := ''subscribe'', env_Method := mth,
       env_Params := params, env_ID := uuid\<rparr>"

definition NewUnsubscribeEnvelope :: "string \<Rightarrow> Envelope" where
  "NewUnsubscribeEnvelope rid =
     zero_envelope\<lparr>env_Proto := ProtoVersion, env_Type := ''unsubscribe'', env_ID := rid\<rparr>"

definition NewConnectionInitEnvelope :: Envelope where
  "NewConnectionInitEnvelope =
     zero_envelope\<lparr>env_Proto := ProtoVersion, env_Type := ''connection_init'',
       env_Params := Some
         [(''client_version'', GStr ClientVersion), (''client_name'', GStr ''soothe-client-go''),
          (''accept_proto'', GStrs [ProtoVersion]),
          (''capabilities'', GStrs DefaultClientCapabilities)]\<rparr>"

definition NewPingEnvelope :: Envelope where
  "NewPingEnvelope = zero_envelope\<lparr>env_Proto := ProtoVersion, env_Type := ''ping''\<rparr>"

definition NewPongEnvelope :: Envelope where
  "NewPongEnvelope = zero_envelope\<lparr>env_Proto := ProtoVersion, env_Type := ''pong''\<rparr>"

definition NewDisconnectEnvelope :: Envelope where
  "NewDisconnectEnvelope = zero_envelope\<lparr>env_Proto := ProtoVersion, env_Type := ''disconnect''\<rparr>"

section \<open>Encoding\<close>

text \<open>Struct tags with \<^verbatim>\<open>omitempty\<close>: empty strings, zero numbers, nil or empty maps, nil
  interfaces and nil pointers are left out.\<close>

definition opt_str :: "string \<Rightarrow> string \<Rightarrow> gobj" where
  "opt_str k s = (if s = [] then [] else [(k, GStr s)])"

definition opt_int :: "string \<Rightarrow> int \<Rightarrow> gobj" where
  "opt_int k n = (if n = 0 then [] else [(k, GInt n)])"

definition opt_map :: "string \<Rightarrow> gmap \<Rightarrow> gobj" where
  "opt_map k om = (case om of None \<Rightarrow> [] | Some m \<Rightarrow> if m = [] then [] else [(k, GMap m)])"

definition opt_val :: "string \<Rightarrow> gval \<Rightarrow> gobj" where
  "opt_val k v = (if v = GNil then [] else [(k, v)])"

definition error_obj :: "ErrorObject \<Rightarrow> gobj" where
  "error_obj e =
     [(''code'', GInt (eo_Code e)), (''message'', GStr (eo_Message e))] @ opt_map ''data'' (eo_Data e)"

definition envelope_obj :: "Envelope \<Rightarrow> gobj" where
  "envelope_obj e =
     [(''proto'', GStr (env_Proto e)), (''type'', GStr (env_Type e))]
     @ opt_str ''method'' (env_Method e) @ opt_map ''params'' (env_Params e)
     @ opt_str ''id'' (env_ID e) @ opt_map ''result'' (env_Result e)
     @ (case env_Error e of None \<Rightarrow> [] | Some eo \<Rightarrow> [(''error'', GMap (error_obj eo))])
     @ opt_map ''payload'' (env_Payload e) @ opt_str ''receipt'' (env_Receipt e)"

definition event_obj :: "EventMessage \<Rightarrow> gobj" where
  "event_obj e =
     opt_str ''request_id'' (ev_RequestID e) @ [(''type'', GStr (ev_Type e))]
     @ opt_str ''loop_id'' (ev_LoopID e) @ opt_str ''turn_id'' (ev_TurnID e)
     @ opt_int ''seq'' (ev_Seq e) @ opt_val ''namespace'' (ev_Namespace e)
     @ opt_str ''mode'' (ev_Mode e) @ [(''data'', ev_Data e)]
     @ [(''timestamp'', GStr (ev_Timestamp e))]"

definition status_obj :: "StatusResponse \<Rightarrow> gobj" where
  "status_obj s =
     opt_str ''request_id'' (st_RequestID s) @ [(''type'', GStr (st_Type s))]
     @ [(''state'', GStr (st_State s))] @ opt_str ''loop_id'' (st_LoopID s)
     @ opt_str ''turn_id'' (st_TurnID s) @ opt_int ''seq'' (st_Seq s)
     @ [(''workspace'', GStr (st_Workspace s))]
     @ (case st_InputHistory s of
          None \<Rightarrow> [] | Some xs \<Rightarrow> if xs = [] then [] else [(''input_history'', GStrs xs)])
     @ (case st_ConversationHistory s of
          None \<Rightarrow> [] | Some xs \<Rightarrow> if xs = [] then [] else [(''conversation_history'', GList xs)])"

definition error_response_obj :: "ErrorResponse \<Rightarrow> gobj" where
  "error_response_obj e =
     opt_str ''request_id'' (er_RequestID e) @ [(''type'', GStr (er_Type e))]
     @ [(''code'', GStr (er_Code e)), (''message'', GStr (er_Message e))]
     @ opt_map ''details'' (er_Details e)"

text \<open>\<^verbatim>\<open>json.Marshal\<close> followed by \<^verbatim>\<open>json.Unmarshal\<close> into a map: how the readers turn a typed message
  into the map that is routed and returned.\<close>

definition msg_map :: "msg \<Rightarrow> gmap" where
  "msg_map m =
     (case m of
        MEnvelope e \<Rightarrow> as_map (to_iface (marshal (GMap (envelope_obj e))))
      | MEvent e \<Rightarrow> as_map (to_iface (marshal (GMap (event_obj e))))
      | MStatus s \<Rightarrow> as_map (to_iface (marshal (GMap (status_obj s))))
      | MErrorResponse e \<Rightarrow> as_map (to_iface (marshal (GMap (error_response_obj e))))
      | MMap None \<Rightarrow> None
      | MMap (Some o') \<Rightarrow> as_map (to_iface (marshal (GMap o'))))"

section \<open>Decoding\<close>

text \<open>The object a struct is decoded from: a JSON null leaves the struct as it is.\<close>

fun struct_fields :: "json \<Rightarrow> (string \<times> json) list option" where
  "struct_fields JNull = Some []"
| "struct_fields (JObj kvs) = Some kvs"
| "struct_fields _ = None"

text \<open>\<^verbatim>\<open>time.Time\<close> from JSON: a null is ignored, a string must be a strict RFC 3339 date and time.\<close>

definition two_digits :: "char \<Rightarrow> char \<Rightarrow> nat option" where
  "two_digits a b =
     (case (char_digit a, char_digit b) of (Some x, Some y) \<Rightarrow> Some (10 * x + y) | _ \<Rightarrow> None)"

definition days_in :: "nat \<Rightarrow> nat \<Rightarrow> nat" where
  "days_in y m =
     (if m = 2 then (if y mod 4 = 0 \<and> (y mod 100 \<noteq> 0 \<or> y mod 400 = 0) then 29 else 28)
      else if m \<in> {4, 6, 9, 11} then 30 else 31)"

definition zone_ok :: "string \<Rightarrow> bool" where
  "zone_ok z =
     (if z = ''Z'' then True
      else case z of
        [s, a, b, c, d, e] \<Rightarrow>
          (s = CHR ''+'' \<or> s = CHR ''-'') \<and> c = CHR '':''
          \<and> (case (two_digits a b, two_digits d e) of
               (Some h, Some mi) \<Rightarrow> h < 24 \<and> mi < 60 | _ \<Rightarrow> False)
      | _ \<Rightarrow> False)"

definition rfc3339 :: "string \<Rightarrow> bool" where
  "rfc3339 s =
     (case s of
        y1 # y2 # y3 # y4 # d1 # m1 # m2 # d2 # a1 # a2 # t # h1 # h2 # c1 # n1 # n2 # c2 # s1 # s2 # r \<Rightarrow>
          d1 = CHR ''-'' \<and> d2 = CHR ''-'' \<and> t = CHR ''T'' \<and> c1 = CHR '':'' \<and> c2 = CHR '':''
          \<and> (case (two_digits y1 y2, two_digits y3 y4, two_digits m1 m2, two_digits a1 a2,
                   two_digits h1 h2, two_digits n1 n2, two_digits s1 s2) of
               (Some ya, Some yb, Some mo, Some da, Some ho, Some mi, Some se) \<Rightarrow>
                 1 \<le> mo \<and> mo \<le> 12 \<and> 1 \<le> da \<and> da \<le> days_in (100 * ya + yb) mo
                 \<and> ho < 24 \<and> mi < 60 \<and> se < 60
             | _ \<Rightarrow> False)
          \<and> (if r \<noteq> [] \<and> hd r = CHR ''.'' then
               takeWhile is_digit (tl r) \<noteq> [] \<and> zone_ok (dropWhile is_digit (tl r))
             else zone_ok r)
      | _ \<Rightarrow> False)"

fun dec_time :: "json list \<Rightarrow> string \<Rightarrow> string option" where
  "dec_time [] acc = Some acc"
| "dec_time (JNull # vs) acc = dec_time vs acc"
| "dec_time (JStr s # vs) acc = (if rfc3339 s then dec_time vs s else None)"
| "dec_time (_ # vs) acc = None"

fun dec_error :: "json list \<Rightarrow> ErrorObject option \<Rightarrow> ErrorObject option option" where
  "dec_error [] acc = Some acc"
| "dec_error (JNull # vs) acc = dec_error vs None"
| "dec_error (JObj kvs # vs) acc =
     (let old = (case acc of Some e \<Rightarrow> e | None \<Rightarrow> \<lparr>eo_Code = 0, eo_Message = [], eo_Data = None\<rparr>)
      in case (dec_int (field_vals ''code'' kvs) (eo_Code old),
               dec_str (field_vals ''message'' kvs) (eo_Message old),
               dec_map (field_vals ''data'' kvs) (eo_Data old)) of
           (Some c, Some m, Some d) \<Rightarrow>
             dec_error vs (Some \<lparr>eo_Code = c, eo_Message = m, eo_Data = d\<rparr>)
         | _ \<Rightarrow> None)"
| "dec_error (_ # vs) acc = None"

definition dec_envelope :: "(string \<times> json) list \<Rightarrow> Envelope option" where
  "dec_envelope kvs =
     (case (dec_str (field_vals ''proto'' kvs) [], dec_str (field_vals ''type'' kvs) [],
            dec_str (field_vals ''method'' kvs) [], dec_map (field_vals ''params'' kvs) None,
            dec_str (field_vals ''id'' kvs) [], dec_map (field_vals ''result'' kvs) None,
            dec_error (field_vals ''error'' kvs) None, dec_map (field_vals ''payload'' kvs) None,
            dec_str (field_vals ''receipt'' kvs) []) of
        (Some p, Some t, Some me, Some pa, Some i, Some r, Some e, Some pl, Some rc) \<Rightarrow>
          Some \<lparr>env_Proto = p, env_Type = t, env_Method = me, env_Params = pa, env_ID = i,
                env_Result = r, env_Error = e, env_Payload = pl, env_Receipt = rc\<rparr>
      | _ \<Rightarrow> None)"

definition dec_event :: "(string \<times> json) list \<Rightarrow> EventMessage option" where
  "dec_event kvs =
     (case (dec_str (field_vals ''request_id'' kvs) [], dec_str (field_vals ''type'' kvs) [],
            dec_str (field_vals ''loop_id'' kvs) [], dec_str (field_vals ''turn_id'' kvs) [],
            dec_int (field_vals ''seq'' kvs) 0, dec_str (field_vals ''mode'' kvs) [],
            dec_time (field_vals ''timestamp'' kvs) zero_time) of
        (Some rq, Some t, Some l, Some tu, Some sq, Some mo, Some ts) \<Rightarrow>
          Some \<lparr>ev_RequestID = rq, ev_Type = t, ev_LoopID = l, ev_TurnID = tu, ev_Seq = sq,
                ev_Namespace = dec_iface (field_vals ''namespace'' kvs) GNil, ev_Mode = mo,
                ev_Data = dec_iface (field_vals ''data'' kvs) GNil, ev_Timestamp = ts\<rparr>
      | _ \<Rightarrow> None)"

definition dec_status :: "(string \<times> json) list \<Rightarrow> StatusResponse option" where
  "dec_status kvs =
     (case (dec_str (field_vals ''request_id'' kvs) [], dec_str (field_vals ''type'' kvs) [],
            dec_str (field_vals ''state'' kvs) [], dec_str (field_vals ''loop_id'' kvs) [],
            dec_str (field_vals ''turn_id'' kvs) [], dec_int (field_vals ''seq'' kvs) 0,
            dec_str (field_vals ''workspace'' kvs) [], dec_strs (field_vals ''input_history'' kvs) None,
            dec_ifaces (field_vals ''conversation_history'' kvs) None) of
        (Some rq, Some t, Some s, Some l, Some tu, Some sq, Some w, Some ih, Some ch) \<Rightarrow>
          Some \<lparr>st_RequestID = rq, st_Type = t, st_State = s, st_LoopID = l, st_TurnID = tu,
                st_Seq = sq, st_Workspace = w, st_InputHistory = ih, st_ConversationHistory = ch\<rparr>
      | _ \<Rightarrow> None)"

definition nextToEventMessage :: "Envelope \<Rightarrow> EventMessage option" where
  "nextToEventMessage env =
     (case env_Payload env of
        None \<Rightarrow> None
      | Some payload \<Rightarrow>
          (case (case as_map (idx payload ''data'') of
                   None \<Rightarrow> None
                 | Some inner \<Rightarrow>
                     (let innerType = asString (idx inner ''type'')
                      in if (innerType = ''event'' \<or> innerType = []) \<and> has_key inner ''mode'' then
                           Some (zero_event\<lparr>ev_Type := ''event'',
                             ev_Mode := asString (idx inner ''mode''),
                             ev_Namespace := idx inner ''namespace'',
                             ev_Data := idx inner ''data'',
                             ev_LoopID := asString (idx inner ''loop_id'')\<rparr>)
                         else None)) of
             Some em \<Rightarrow> Some em
           | None \<Rightarrow>
               (let omode = as_str (idx payload ''mode'')
                in if omode \<noteq> None \<or> has_key payload ''data'' then
                     Some (zero_event\<lparr>ev_Type := ''event'',
                       ev_Mode := (case omode of None \<Rightarrow> [] | Some m \<Rightarrow> m),
                       ev_Namespace := idx payload ''namespace'',
                       ev_Data := idx payload ''data'',
                       ev_LoopID := asString (idx payload ''loop_id'')\<rparr>)
                   else None)))"

definition envelope_types :: "string list" where
  "envelope_types =
     [''connection_init'', ''connection_ack'', ''request'', ''response'', ''notification'',
      ''subscribe'', ''error'', ''complete'', ''unsubscribe'', ''ping'', ''pong'',
      ''receipt_response'', ''disconnect'']"

text \<open>\<^verbatim>\<open>DecodeMessage\<close> on a parsed document; \<open>None\<close> is a decoding error.\<close>

definition decode_doc :: "json \<Rightarrow> msg option" where
  "decode_doc j =
     (case struct_fields j of
        None \<Rightarrow> None
      | Some kvs \<Rightarrow>
          (case (dec_str (field_vals ''proto'' kvs) [], dec_str (field_vals ''type'' kvs) []) of
             (Some _, Some ty) \<Rightarrow>
               if ty \<in> set envelope_types then map_option MEnvelope (dec_envelope kvs)
               else if ty = ''next'' then
                 (case dec_envelope kvs of
                    None \<Rightarrow> None
                  | Some env \<Rightarrow>
                      (case nextToEventMessage env of
                         Some em \<Rightarrow> Some (MEvent em)
                       | None \<Rightarrow> Some (MEnvelope env)))
               else if ty = ''event'' then map_option MEvent (dec_event kvs)
               else if ty = ''status'' then
                 (case dec_status kvs of
                    None \<Rightarrow> None
                  | Some st \<Rightarrow>
                      Some (MStatus
                        (if st_LoopID st = [] then
                           (case dec_str (field_vals ''loopId'' kvs) [] of
                              Some l \<Rightarrow> if l \<noteq> [] then st\<lparr>st_LoopID := l\<rparr> else st
                            | None \<Rightarrow> st)
                         else st)))
               else Some (MMap (as_map (to_iface j)))
           | _ \<Rightarrow> None))"

text \<open>On bytes: an empty frame is the nil message, a syntax error or a decoding error is \<open>Inl ()\<close>.\<close>

definition DecodeMessage :: "string \<Rightarrow> unit + msg option" where
  "DecodeMessage data =
     (if data = [] then Inr None
      else case parse_json data of
        None \<Rightarrow> Inl ()
      | Some j \<Rightarrow> (case decode_doc j of None \<Rightarrow> Inl () | Some m \<Rightarrow> Inr (Some m)))"

definition ExpandWireMessages :: "msg option \<Rightarrow> msg list" where
  "ExpandWireMessages om =
     (case om of
        None \<Rightarrow> []
      | Some (MMap m) \<Rightarrow>
          if asString (midx m ''type'') \<noteq> ''event_batch'' then [MMap m]
          else (case as_list (midx m ''events'') of
                  None \<Rightarrow> []
                | Some rawEvents \<Rightarrow>
                    List.map_filter
                      (\<lambda>sub. case as_map sub of
                         None \<Rightarrow> None
                       | Some subMap \<Rightarrow> decode_doc (marshal (GMap subMap))) rawEvents)
      | Some other \<Rightarrow> [other])"

definition SplitSootheWirePayload :: "string \<Rightarrow> string list" where
  "SplitSootheWirePayload data =
     (let s = TrimSpace data
      in if s = [] then []
         else (let out = filter (\<lambda>l. l \<noteq> []) (map TrimSpace (split_char CHR 0x0A s))
               in if out = [] then [data] else out))"

section \<open>Readers\<close>

definition nonempty_str :: "gval \<Rightarrow> string option" where
  "nonempty_str v = (case as_str v of Some s \<Rightarrow> if s \<noteq> [] then Some s else None | None \<Rightarrow> None)"

definition or_else :: "'a option \<Rightarrow> 'a option \<Rightarrow> 'a option" where
  "or_else a b = (case a of Some x \<Rightarrow> Some x | None \<Rightarrow> b)"

definition loop_id_of_obj :: "gobj \<Rightarrow> string option" where
  "loop_id_of_obj m = or_else (nonempty_str (idx m ''loop_id'')) (nonempty_str (idx m ''loopId''))"

definition loop_id_of_data :: "gval \<Rightarrow> string option" where
  "loop_id_of_data v = (case as_map v of Some m \<Rightarrow> loop_id_of_obj m | None \<Rightarrow> None)"

definition ExtractSootheLoopID :: "msg option \<Rightarrow> string option" where
  "ExtractSootheLoopID om =
     (case om of
        None \<Rightarrow> None
      | Some (MEnvelope m) \<Rightarrow>
          if env_Type m = ''next'' then
            or_else (loop_id_of_data (midx (env_Payload m) ''data''))
              (nonempty_str (midx (env_Payload m) ''loop_id''))
          else if env_Type m = ''status'' then nonempty_str (midx (env_Params m) ''loop_id'')
          else None
      | Some (MStatus s) \<Rightarrow> if st_LoopID s \<noteq> [] then Some (st_LoopID s) else None
      | Some (MEvent e) \<Rightarrow>
          if ev_LoopID e \<noteq> [] then Some (ev_LoopID e) else loop_id_of_data (ev_Data e)
      | Some (MMap None) \<Rightarrow> None
      | Some (MMap (Some m)) \<Rightarrow>
          if asString (idx m ''type'') = ''next'' then
            (case as_map (idx m ''payload'') of
               None \<Rightarrow> None
             | Some payload \<Rightarrow>
                 or_else (loop_id_of_data (idx payload ''data''))
                   (nonempty_str (idx payload ''loop_id'')))
          else loop_id_of_obj m
      | Some (MErrorResponse _) \<Rightarrow> None)"

definition EventType :: "EventMessage \<Rightarrow> string" where
  "EventType e =
     (case (case as_map (ev_Data e) of None \<Rightarrow> None | Some m \<Rightarrow> nonempty_str (idx m ''type'')) of
        Some t \<Rightarrow> t
      | None \<Rightarrow> asString (ev_Namespace e))"

definition NamespaceParts :: "EventMessage \<Rightarrow> string list" where
  "NamespaceParts e =
     (case ev_Namespace e of
        GStrs ns \<Rightarrow> ns
      | GList ns \<Rightarrow> List.map_filter as_str ns
      | GStr ns \<Rightarrow> if ns = [] then [] else split_char CHR ''.'' ns
      | _ \<Rightarrow> [])"

definition LoopAIMessage_of :: "EventMessage \<Rightarrow> LoopAIMessage option" where
  "LoopAIMessage_of e =
     (if ev_Mode e \<noteq> ''messages'' then None
      else case as_list (ev_Data e) of
        None \<Rightarrow> None
      | Some [] \<Rightarrow> None
      | Some (x # _) \<Rightarrow>
          (case as_map x of
             None \<Rightarrow> None
           | Some msgMap \<Rightarrow>
               (let t = asString (idx msgMap ''type''); phase = asString (idx msgMap ''phase'')
                in if phase = [] then None
                   else if \<not> isLoopAssistantPhase phase then None
                   else Some \<lparr>lm_Type = (if t = [] then ''ai'' else t),
                              lm_Content = idx msgMap ''content'', lm_Phase = phase\<rparr>)))"

text \<open>One content block of a message: a string, or the \<^verbatim>\<open>text\<close> of an object.\<close>

definition block_text :: "gval \<Rightarrow> string" where
  "block_text item =
     (case item of
        GStr s \<Rightarrow> s
      | GMap blk \<Rightarrow> asString (idx blk ''text'')
      | _ \<Rightarrow> [])"

definition LoopAIText :: "LoopAIMessage \<Rightarrow> string" where
  "LoopAIText m =
     (case lm_Content m of
        GStr s \<Rightarrow> s
      | GList items \<Rightarrow> concat (map block_text items)
      | GMap blk \<Rightarrow> asString (idx blk ''text'')
      | _ \<Rightarrow> [])"


section \<open>Lemmas\<close>

lemma EqualFold_lower [simp]: "EqualFold k tag \<longleftrightarrow> fold_case k = fold_case tag"
  by (simp add: EqualFold_def)

lemma field_vals_Cons:
  "field_vals tag ((k, v) # kvs) =
     (if fold_case k = fold_case tag then [v] else []) @ field_vals tag kvs"
  by (simp add: field_vals_def)

lemma field_vals_Nil [simp]: "field_vals tag [] = []"
  by (simp add: field_vals_def)

lemma newline_no_tail: "no_tail_byte CHR 0x0A"
  by (simp add: no_tail_byte_def ws_runes_def)

text \<open>Lines joined by newlines, as the daemon sends NDJSON.\<close>

fun join_lines :: "string list \<Rightarrow> string" where
  "join_lines [] = []"
| "join_lines [l] = l"
| "join_lines (l # ls) = l @ CHR 0x0A # join_lines ls"

definition clean_line :: "string \<Rightarrow> bool" where
  "clean_line l \<longleftrightarrow> l \<noteq> [] \<and> CHR 0x0A \<notin> set l \<and> TrimSpace l = l"

lemma clean_line_ws: "clean_line l \<Longrightarrow> lead_ws l = 0 \<and> trail_ws l = 0"
  unfolding clean_line_def using TrimSpace_clean [of l] by simp

lemma join_lines_clean:
  "ls \<noteq> [] \<Longrightarrow> \<forall>l\<in>set ls. clean_line l \<Longrightarrow>
   join_lines ls \<noteq> [] \<and> lead_ws (join_lines ls) = 0 \<and> trail_ws (join_lines ls) = 0
   \<and> split_char CHR 0x0A (join_lines ls) = ls"
proof (induction ls rule: join_lines.induct)
  case (2 l)
  then show ?case using clean_line_ws [of l] by (simp add: clean_line_def split_char_none)
next
  case (3 l l2 ls)
  then have IH: "join_lines (l2 # ls) \<noteq> []" "trail_ws (join_lines (l2 # ls)) = 0"
      "split_char CHR 0x0A (join_lines (l2 # ls)) = l2 # ls"
    and l: "clean_line l" by auto
  from l have "l \<noteq> []" "CHR 0x0A \<notin> set l" by (simp_all add: clean_line_def)
  with l IH show ?case
    using clean_line_ws [OF l] newline_no_tail lead_ws_append_no_tail [of l]
      trail_ws_append_no_tail [of "join_lines (l2 # ls)"]
    by (simp add: split_char_append_sep split_char_none)
qed simp

lemma fold_marshal_fields:
  "map (\<lambda>(k, v). (k, to_iface v)) (map (\<lambda>(k, v). (k, marshal v)) m)
   = map (\<lambda>(k, v). (k, to_iface (marshal v))) m"
  by auto

lemma wire_fields:
  "wire_val (GMap m) \<Longrightarrow>
   copy_into (map (\<lambda>(k, v). (k, to_iface v)) (map (\<lambda>(k, v). (k, marshal v)) m)) [] = m"
  using to_iface_marshal [of "GMap m"] by simp

lemma msg_map_wire: "wire_val (GMap m) \<Longrightarrow> msg_map (MMap (Some m)) = Some m"
  by (simp add: msg_map_def to_iface_marshal del: marshal.simps to_iface.simps)

definition reread :: "gobj \<Rightarrow> gobj" where
  "reread m = map (\<lambda>(k, v). (k, to_iface (marshal v))) m"

lemma marshal_fields_wf:
  assumes "wf_obj m"
  shows "copy_into (map (\<lambda>(k, v). (k, to_iface v)) (map (\<lambda>(k, v). (k, marshal v)) m)) [] = reread m"
proof -
  have "map fst (reread m) = map fst m" by (simp add: reread_def case_prod_unfold)
  with assms have "wf_obj (reread m)" by (simp add: wf_obj_def)
  then show ?thesis unfolding fold_marshal_fields reread_def [symmetric] by (rule copy_into_self)
qed

lemma idx_reread [simp]: "idx (reread m) k = to_iface (marshal (idx m k))"
  by (induction m) (auto simp: reread_def idx_def)

lemma has_key_reread [simp]: "has_key (reread m) k = has_key m k"
  by (induction m) (auto simp: reread_def has_key_def)

lemma asString_reread [simp]: "asString (to_iface (marshal v)) = asString v"
  by (cases v) (simp_all add: to_iface_num)

lemma decode_wrapped_event:
  assumes w: "wf_obj f"
    and ty: "asString (idx f ''type'') = ''event''" and mo: "has_key f ''mode''"
  shows "decode_doc (marshal (GMap (wrap_next f))) =
     Some (MEvent (zero_event\<lparr>ev_Type := ''event'', ev_Mode := asString (idx f ''mode''),
        ev_Namespace := to_iface (marshal (idx f ''namespace'')),
        ev_Data := to_iface (marshal (idx f ''data'')),
        ev_LoopID := asString (idx f ''loop_id'')\<rparr>))"
proof -
  have d: "dec_envelope (map (\<lambda>(k, v). (k, marshal v)) (wrap_next f)) =
     Some (zero_envelope\<lparr>env_Proto := ''1'', env_Type := ''next'',
        env_Payload := Some [(''mode'', GStr ''event''), (''data'', GMap (reread f))]\<rparr>)"
    using marshal_fields_wf [OF w]
    by (simp add: dec_envelope_def wrap_next_def field_vals_Cons ascii_lower_def zero_envelope_def)
  have t: "dec_str (field_vals ''type'' (map (\<lambda>(k, v). (k, marshal v)) (wrap_next f))) [] = Some ''next''"
    "dec_str (field_vals ''proto'' (map (\<lambda>(k, v). (k, marshal v)) (wrap_next f))) [] = Some ''1''"
    by (simp_all add: wrap_next_def field_vals_Cons ascii_lower_def)
  show ?thesis
    using ty mo by (simp add: decode_doc_def d t envelope_types_def nextToEventMessage_def zero_envelope_def)
qed

lemma field_vals_append: "field_vals tag (xs @ ys) = field_vals tag xs @ field_vals tag ys"
  by (simp add: field_vals_def)

text \<open>What the fields of an encoded struct contribute to a tag.\<close>

lemma field_vals_opt:
  "field_vals tag (map (\<lambda>(k, v). (k, marshal v)) (opt_str k s)) =
     (if s \<noteq> [] \<and> fold_case k = fold_case tag then [JStr s] else [])"
  "field_vals tag (map (\<lambda>(k, v). (k, marshal v)) (opt_int k n)) =
     (if n \<noteq> 0 \<and> fold_case k = fold_case tag then [JInt n] else [])"
  "field_vals tag (map (\<lambda>(k, v). (k, marshal v)) (opt_val k v)) =
     (if v \<noteq> GNil \<and> fold_case k = fold_case tag then [marshal v] else [])"
  by (simp_all add: opt_str_def opt_int_def opt_val_def field_vals_Cons)

definition wire_event :: "EventMessage \<Rightarrow> bool" where
  "wire_event e \<longleftrightarrow>
     ev_Type e = ''event'' \<and> ev_Mode e \<noteq> [] \<and> wire_val (ev_Namespace e) \<and> wire_val (ev_Data e)
     \<and> int64_min \<le> ev_Seq e \<and> ev_Seq e \<le> int64_max \<and> rfc3339 (ev_Timestamp e)"

section \<open>Properties\<close>

text \<open>NDJSON frames are recovered exactly: joining non-empty lines that hold no newline and no
  surrounding white space with newlines and splitting the payload gives back the same lines, in
  order, whatever Unicode the lines contain.\<close>

theorem SplitSootheWirePayload_join:
  assumes "\<forall>l\<in>set ls. clean_line l"
  shows "SplitSootheWirePayload (join_lines ls) = ls"
proof (cases "ls = []")
  case True
  then show ?thesis by (simp add: SplitSootheWirePayload_def)
next
  case False
  note j = join_lines_clean [OF False assms]
  then have t: "TrimSpace (join_lines ls) = join_lines ls" by (simp add: TrimSpace_id)
  have m: "map TrimSpace ls = ls" using assms by (auto simp: clean_line_def intro: map_idI)
  have f: "filter (\<lambda>l. l \<noteq> []) ls = ls" using assms by (auto simp: clean_line_def)
  show ?thesis using j False by (simp add: SplitSootheWirePayload_def t m f Let_def)
qed

theorem SplitSootheWirePayload_join_witness:
  "SplitSootheWirePayload (join_lines [''ab'', ''c d'']) = [''ab'', ''c d'']"
  by (rule SplitSootheWirePayload_join)
     (simp add: clean_line_def TrimSpace_plain_ends plain_byteI)

text \<open>A batch frame is transparent: decoding and expanding an \<^verbatim>\<open>event_batch\<close> gives, in order, what
  decoding each of its frames alone gives, and frames that do not decode are left out.\<close>

theorem event_batch_expands:
  assumes "\<forall>f\<in>set fs. wire_val (GMap f)"
  shows "ExpandWireMessages
           (decode_doc (marshal (GMap [(''type'', GStr ''event_batch''), (''events'', GList (map GMap fs))])))
         = List.map_filter (\<lambda>f. decode_doc (marshal (GMap f))) fs"
proof -
  let ?b = "[(''type'', GStr ''event_batch''), (''events'', GList (map GMap fs))]"
  have w: "wire_val (GMap ?b)" using assms by (auto simp: wf_obj_def)
  have d: "decode_doc (marshal (GMap ?b)) = Some (MMap (Some ?b))"
    using to_iface_marshal [OF w]
    by (simp add: decode_doc_def field_vals_Cons ascii_lower_def envelope_types_def)
  show ?thesis
    unfolding d by (simp add: ExpandWireMessages_def map_filter_def comp_def filter_map)
qed

theorem event_batch_expands_witness:
  "ExpandWireMessages
     (decode_doc (marshal (GMap [(''type'', GStr ''event_batch''),
        (''events'', GList (map GMap [[(''type'', GStr ''ping'')], [(''type'', GBool True)]]))])))
   = [MEnvelope (zero_envelope\<lparr>env_Type := ''ping''\<rparr>)]"
  by (subst event_batch_expands)
     (simp_all add: wf_obj_def map_filter_def decode_doc_def dec_envelope_def field_vals_Cons ascii_lower_def
       envelope_types_def zero_envelope_def)

text \<open>C25: An event survives the wire unchanged when it is sent bare, but an event wrapped in a
  \<^verbatim>\<open>next\<close> envelope loses its turn id, its sequence number, its request id and its timestamp: the
  projection copies only mode, namespace, data and loop id.\<close>

theorem event_wire_roundtrip:
  assumes "wire_event e"
  shows "decode_doc (marshal (GMap (event_obj e))) = Some (MEvent e)
    \<and> decode_doc (marshal (GMap (wrap_next (event_obj e)))) =
        Some (MEvent (e\<lparr>ev_RequestID := [], ev_TurnID := [], ev_Seq := 0, ev_Timestamp := zero_time\<rparr>))"
proof
  let ?kvs = "map (\<lambda>(k, v). (k, marshal v)) (event_obj e)"
  have w: "wire_val (ev_Namespace e)" "wire_val (ev_Data e)" "ev_Type e = ''event''"
    "rfc3339 (ev_Timestamp e)" "int64_min \<le> ev_Seq e" "ev_Seq e \<le> int64_max"
    using assms by (simp_all add: wire_event_def)
  have ev: "dec_event ?kvs = Some e"
    using w by (simp add: dec_event_def event_obj_def field_vals_append field_vals_Cons field_vals_opt
        ascii_lower_def to_iface_marshal)
  have ty: "dec_str (field_vals ''type'' ?kvs) [] = Some ''event''"
    "dec_str (field_vals ''proto'' ?kvs) [] = Some []"
    using w by (simp_all add: event_obj_def field_vals_append field_vals_Cons field_vals_opt ascii_lower_def)
  show "decode_doc (marshal (GMap (event_obj e))) = Some (MEvent e)"
    by (simp add: decode_doc_def ty ev envelope_types_def)
next
  have wf: "wf_obj (event_obj e)"
    by (simp add: event_obj_def wf_obj_def opt_str_def opt_int_def opt_val_def)
  have i: "idx (event_obj e) ''type'' = GStr ''event''" "has_key (event_obj e) ''mode''"
    "asString (idx (event_obj e) ''mode'') = ev_Mode e"
    "asString (idx (event_obj e) ''loop_id'') = ev_LoopID e"
    "to_iface (marshal (idx (event_obj e) ''namespace'')) = ev_Namespace e"
    "to_iface (marshal (idx (event_obj e) ''data'')) = ev_Data e"
    using assms unfolding wire_event_def
    by (simp_all add: event_obj_def idx_def has_key_def opt_str_def opt_int_def opt_val_def
        to_iface_marshal)
  show "decode_doc (marshal (GMap (wrap_next (event_obj e)))) =
     Some (MEvent (e\<lparr>ev_RequestID := [], ev_TurnID := [], ev_Seq := 0, ev_Timestamp := zero_time\<rparr>))"
    using decode_wrapped_event [OF wf] i assms by (simp add: wire_event_def zero_event_def)
qed

theorem event_wire_roundtrip_witness:
  "decode_doc (marshal (GMap (wrap_next (event_obj
      (zero_event\<lparr>ev_Type := ''event'', ev_Mode := ''custom'', ev_TurnID := ''7'', ev_Data := GStr ''x''\<rparr>)))))
   = Some (MEvent (zero_event\<lparr>ev_Type := ''event'', ev_Mode := ''custom'', ev_Data := GStr ''x''\<rparr>))"
  using event_wire_roundtrip
    [of "zero_event\<lparr>ev_Type := ''event'', ev_Mode := ''custom'', ev_TurnID := ''7'', ev_Data := GStr ''x''\<rparr>"]
  by (simp add: wire_event_def zero_event_def zero_time_def rfc3339_def two_digits_def char_digit_def
      days_in_def zone_ok_def int64_min_def int64_max_def is_digit_def)

end
