(* ===== verification/Chunk_Filter.thy ===== *)
theory Chunk_Filter
  imports Protocol
begin

text \<open>
  Reading and filtering of raw stream frames in the application kit: \<^verbatim>\<open>UnwrapNext\<close> and
  \<^verbatim>\<open>asNamespace\<close> (appkit/events.go) and the early drop of chunks without content
  (appkit/chunk_filter.go), with its own space trimming over byte indices.
\<close>

section \<open>Frames\<close>

definition UnwrapNext :: "gmap \<Rightarrow> gmap" where
  "UnwrapNext event =
     (case event of
        None \<Rightarrow> None
      | Some e \<Rightarrow>
          if asString (idx e ''type'') \<noteq> ''next'' then event
          else case as_map (idx e ''payload'') of
            None \<Rightarrow> event
          | Some payload \<Rightarrow> (case as_map (idx payload ''data'') of Some data \<Rightarrow> Some data | None \<Rightarrow> event))"

definition asNamespace :: "gval \<Rightarrow> gval list option" where
  "asNamespace v = (case v of GList t \<Rightarrow> Some t | GStrs t \<Rightarrow> Some (map GStr t) | _ \<Rightarrow> None)"

section \<open>The early drop\<close>

definition is_space :: "char \<Rightarrow> bool" where
  "is_space c \<longleftrightarrow> c \<in> set [CHR '' '', CHR 0x09, CHR 0x0A, CHR 0x0D]"

function trim_start :: "string \<Rightarrow> nat \<Rightarrow> nat \<Rightarrow> nat" where
  "trim_start s start fin = (if start < fin \<and> is_space (s ! start) then trim_start s (start + 1) fin else start)"
  by pat_completeness auto
termination by (relation "measure (\<lambda>(s, start, fin). fin - start)") auto

function trim_end :: "string \<Rightarrow> nat \<Rightarrow> nat \<Rightarrow> nat" where
  "trim_end s start fin = (if fin > start \<and> is_space (s ! (fin - 1)) then trim_end s start (fin - 1) else fin)"
  by pat_completeness auto
termination by (relation "measure (\<lambda>(s, start, fin). fin)") auto

declare trim_start.simps [simp del] trim_end.simps [simp del]

definition trimSpace :: "string \<Rightarrow> string" where
  "trimSpace s =
     (let start = trim_start s 0 (length s); fin = trim_end s start (length s)
      in take (fin - start) (drop start s))"

definition hasSuffix :: "string \<Rightarrow> string \<Rightarrow> bool" where
  "hasSuffix s sfx \<longleftrightarrow> length s \<ge> length sfx \<and> drop (length s - length sfx) s = sfx"

definition wireBody :: "gobj \<Rightarrow> gobj" where
  "wireBody msg =
     (case as_map (idx msg ''kwargs'') of
        Some nested \<Rightarrow> nested
      | None \<Rightarrow> (case as_map (idx msg ''data'') of Some nested \<Rightarrow> nested | None \<Rightarrow> msg))"

definition is_tool_block :: "gval \<Rightarrow> bool" where
  "is_tool_block item =
     (case as_map item of
        None \<Rightarrow> False
      | Some m \<Rightarrow> asString (idx m ''type'') \<in> {''tool_call'', ''tool_call_chunk'', ''tool_use''})"

definition dictHasToolInvocation :: "gobj \<Rightarrow> bool" where
  "dictHasToolInvocation msg =
     (let body = wireBody msg
      in if idx body ''tool_calls'' \<noteq> GNil \<or> idx body ''tool_call_chunks'' \<noteq> GNil then True
         else list_ex (\<lambda>key. case as_list (idx body key) of None \<Rightarrow> False | Some raw \<Rightarrow> list_ex is_tool_block raw)
                [''content'', ''content_blocks''])"

definition plainText :: "gobj \<Rightarrow> string" where
  "plainText msg =
     (let body = wireBody msg;
          content = (if idx body ''content'' = GNil then idx msg ''content'' else idx body ''content'')
      in case content of
           GStr t \<Rightarrow> trimSpace t
         | GList t \<Rightarrow> trimSpace (concat (map block_text t))
         | _ \<Rightarrow> [])"

definition updatesChunkIsNoop :: "gval \<Rightarrow> bool" where
  "updatesChunkIsNoop data = (case as_map data of None \<Rightarrow> True | Some m \<Rightarrow> \<not> has_key m ''__interrupt__'')"

definition messageChunkIsNonActionable :: "gval \<Rightarrow> bool" where
  "messageChunkIsNonActionable data =
     (case data of
        GList [x, y] \<Rightarrow>
          if x = GNil then True
          else (case as_map x of
             None \<Rightarrow> False
           | Some msg \<Rightarrow>
               (let body = wireBody msg;
                    raw = (if asString (idx body ''type'') = [] then asString (idx msg ''type'') else asString (idx body ''type''))
                in if raw = ''tool'' \<or> raw = ''ToolMessage'' \<or> hasSuffix raw ''ToolMessage'' then False
                   else if dictHasToolInvocation msg then False
                   else if idx body ''phase'' \<noteq> GNil \<or> idx msg ''phase'' \<noteq> GNil then False
                   else plainText msg = []))
      | _ \<Rightarrow> False)"

definition ShouldDropStreamChunkEarly :: "gval list option \<Rightarrow> string \<Rightarrow> gval \<Rightarrow> bool" where
  "ShouldDropStreamChunkEarly namespace mode data =
     (if mode = ''updates'' then updatesChunkIsNoop data
      else if mode = ''messages'' then messageChunkIsNonActionable data
      else False)"

section \<open>Lemmas\<close>

text \<open>The index loops compute what dropping spaces at both ends gives.\<close>

lemma trim_start_le: "start \<le> fin \<Longrightarrow> start \<le> trim_start s start fin \<and> trim_start s start fin \<le> fin"
proof (induction s start fin rule: trim_start.induct)
  case (1 s start fin)
  then show ?case by (subst (1 2) trim_start.simps) auto
qed

lemma drop_trim_start: "start \<le> length s \<Longrightarrow> drop (trim_start s start (length s)) s = dropWhile is_space (drop start s)"
proof (induction "length s - start" arbitrary: start)
  case 0
  then show ?case by (simp add: trim_start.simps)
next
  case (Suc n)
  then have lt: "start < length s" by simp
  then have d: "drop start s = s ! start # drop (Suc start) s" by (simp add: Cons_nth_drop_Suc)
  show ?case
  proof (cases "is_space (s ! start)")
    case True
    then have "trim_start s start (length s) = trim_start s (Suc start) (length s)"
      using lt by (subst trim_start.simps) simp
    then show ?thesis using Suc d True by simp
  next
    case False
    then have "trim_start s start (length s) = start" by (subst trim_start.simps) simp
    then show ?thesis using d False by simp
  qed
qed

lemma take_window:
  "start \<le> fin \<Longrightarrow> fin < length s \<Longrightarrow>
   take (Suc fin - start) (drop start s) = take (fin - start) (drop start s) @ [s ! fin]"
  by (simp add: Suc_diff_le take_Suc_conv_app_nth)

lemma trim_end_take:
  "start \<le> fin \<Longrightarrow> fin \<le> length s \<Longrightarrow>
   take (trim_end s start fin - start) (drop start s)
   = rev (dropWhile is_space (rev (take (fin - start) (drop start s))))"
proof (induction fin)
  case 0
  then show ?case by (simp add: trim_end.simps)
next
  case (Suc fin)
  show ?case
  proof (cases "Suc fin > start \<and> is_space (s ! fin)")
    case True
    then have e: "trim_end s start (Suc fin) = trim_end s start fin" by (subst trim_end.simps) simp
    have t: "take (Suc fin - start) (drop start s) = take (fin - start) (drop start s) @ [s ! fin]"
      by (rule take_window) (use True Suc.prems in auto)
    show ?thesis unfolding e t using True Suc by simp
  next
    case False
    then have e: "trim_end s start (Suc fin) = Suc fin" by (subst trim_end.simps) auto
    show ?thesis
    proof (cases "Suc fin = start")
      case True
      then show ?thesis using e by simp
    next
      case False
      then have t: "take (Suc fin - start) (drop start s) = take (fin - start) (drop start s) @ [s ! fin]" "\<not> is_space (s ! fin)"
        using \<open>\<not> (Suc fin > start \<and> is_space (s ! fin))\<close> Suc.prems take_window [of start fin s] by auto
      show ?thesis unfolding e t(1) using t(2) by simp
    qed
  qed
qed

lemma trimSpace_eq: "trimSpace s = rev (dropWhile is_space (rev (dropWhile is_space s)))"
proof -
  let ?i = "trim_start s 0 (length s)"
  have i: "?i \<le> length s" using trim_start_le [of 0 "length s" s] by simp
  have "take (length s - ?i) (drop ?i s) = drop ?i s" by simp
  then show ?thesis using trim_end_take [OF i order_refl] drop_trim_start [of 0 s]
    by (simp add: trimSpace_def Let_def)
qed

lemma trimSpace_empty: "trimSpace s = [] \<longleftrightarrow> (\<forall>c\<in>set s. is_space c)"
proof -
  have "trimSpace s = [] \<longleftrightarrow> (\<forall>x\<in>set (dropWhile is_space s). is_space x)"
    by (simp add: trimSpace_eq dropWhile_eq_Nil_conv)
  also have "\<dots> \<longleftrightarrow> (\<forall>c\<in>set s. is_space c)"
    by (induction s) auto
  finally show ?thesis .
qed

end
