(* ===== verification/Thinking_Step.thy ===== *)
theory Thinking_Step
  imports Protocol
begin

text \<open>
  Progress lines (appkit/thinking_step.go): an allowlisted progress event becomes one trimmed line
  of at most 280 runes, with an ellipsis when it was cut. Maps of flags are association lists;
  indexing one with an absent key gives false.
\<close>

section \<open>Lines\<close>

type_synonym flags = "(string \<times> bool) list"

definition flag :: "flags \<Rightarrow> string \<Rightarrow> bool" where
  "flag m k = (map_of m k = Some True)"

definition eventLoopHistoryReplayed :: string where
  "eventLoopHistoryReplayed = ''soothe.lifecycle.loop.history.replayed''"

definition maxThinkingStepRunes :: nat where "maxThinkingStepRunes = 280"

definition ellipsis :: string where "ellipsis = [CHR 0xE2, CHR 0x80, CHR 0xA6]"

definition defaultThinkingStepEvents :: flags where
  "defaultThinkingStepEvents =
     [(''soothe.cognition.plan.step.started'', True), (''soothe.cognition.plan.step.completed'', True),
      (''soothe.cognition.plan.step.failed'', True), (''soothe.lifecycle.iteration.started'', True),
      (''soothe.agent.loop.step.started'', True), (''soothe.agent.loop.started'', True),
      (EventPlanBatchStarted, True), (EventPlanCreated, True), (EventGoalCreated, True), (EventToolStarted, True)]"

fun strField :: "gobj \<Rightarrow> string list \<Rightarrow> string" where
  "strField data [] = []"
| "strField data (key # keys) =
     (case as_str (idx data key) of
        Some v \<Rightarrow> if TrimSpace v \<noteq> [] then TrimSpace v else strField data keys
      | None \<Rightarrow> strField data keys)"

definition formatPlanStepLine :: "gobj \<Rightarrow> string \<Rightarrow> string" where
  "formatPlanStepLine data sfx =
     (let stepID = strField data [''step_id'']; desc = strField data [''description'']
      in if stepID \<noteq> [] \<and> sfx \<noteq> [] then ''Step '' @ stepID @ '': '' @ sfx
         else if stepID \<noteq> [] \<and> desc \<noteq> [] then ''Step '' @ stepID @ '': '' @ desc
         else if stepID \<noteq> [] then ''Step '' @ stepID
         else if desc \<noteq> [] \<and> sfx \<noteq> [] then ''Step: '' @ sfx
         else if desc \<noteq> [] then ''Step: '' @ desc
         else if sfx \<noteq> [] then ''Step: '' @ sfx
         else [])"

definition formatAgentStepLine :: "gobj \<Rightarrow> string \<Rightarrow> string" where
  "formatAgentStepLine data sfx =
     (let stepID = strField data [''step_id'']; desc = strField data [''description'']
      in if stepID \<noteq> [] \<and> desc \<noteq> [] then ''Step '' @ stepID @ '': '' @ desc
         else if desc \<noteq> [] then (if sfx \<noteq> [] then ''Step: '' @ sfx else ''Step: '' @ desc)
         else if stepID \<noteq> [] then ''Step '' @ stepID
         else [])"

text \<open>The line of an event type, before trimming; \<open>None\<close> for a type the switch does not list.\<close>

definition failed_step_line :: "gobj \<Rightarrow> string" where
  "failed_step_line data =
     (let stepID = strField data [''step_id'']; errMsg = strField data [''error'']
      in if stepID \<noteq> [] \<and> errMsg \<noteq> [] then ''Step '' @ stepID @ '' failed: '' @ errMsg
         else if stepID \<noteq> [] then ''Step '' @ stepID @ '' failed''
         else if errMsg \<noteq> [] then ''Step failed: '' @ errMsg
         else [])"

definition prefixed :: "string \<Rightarrow> string \<Rightarrow> string" where
  "prefixed p g = (if g \<noteq> [] then p @ g else [])"

definition step_line :: "string \<Rightarrow> gobj \<Rightarrow> string option" where
  "step_line eventType data =
     (if eventType = ''soothe.cognition.plan.step.started'' then Some (formatPlanStepLine data [])
      else if eventType = ''soothe.cognition.plan.step.completed'' then Some (formatPlanStepLine data ''done'')
      else if eventType = ''soothe.cognition.plan.step.failed'' then Some (failed_step_line data)
      else if eventType = ''soothe.agent.loop.step.started'' then Some (formatAgentStepLine data [])
      else if eventType = EventPlanBatchStarted then
        Some (case as_float (idx data ''parallel_count'') of
                Some n \<Rightarrow> if n > 0 then ''Running '' @ Itoa (int_of_float n) @ '' steps in parallel'' else []
              | None \<Rightarrow> [])
      else if eventType = EventPlanCreated \<or> eventType = ''soothe.agent.loop.started'' then
        Some (prefixed ''Goal: '' (strField data [''goal'']))
      else if eventType = EventGoalCreated then
        Some (prefixed ''Goal: '' (strField data [''friendly_message'', ''description'']))
      else if eventType = ''soothe.lifecycle.iteration.started'' then
        Some (prefixed ''Iteration: '' (strField data [''goal_description'']))
      else if eventType = EventToolStarted then Some (prefixed ''Tool: '' (strField data [''tool_name'', ''name'']))
      else None)"

definition clip_line :: "string \<Rightarrow> string" where
  "clip_line line =
     (if length (runes line) > maxThinkingStepRunes
      then concat (take maxThinkingStepRunes (runes line)) @ ellipsis else line)"

definition extractThinkingStep :: "flags option \<Rightarrow> string \<Rightarrow> gmap \<Rightarrow> string option" where
  "extractThinkingStep allowCfg eventType0 data =
     (case data of
        None \<Rightarrow> None
      | Some d \<Rightarrow>
          if eventType0 = [] then None
          else
            (let eventType = TrimSpace eventType0;
                 allow = (case allowCfg of None \<Rightarrow> defaultThinkingStepEvents | Some a \<Rightarrow> a)
             in if \<not> flag allow eventType then None
                else case step_line eventType d of
                  None \<Rightarrow> None
                | Some line0 \<Rightarrow>
                    (let line = TrimSpace line0 in if line = [] then None else Some (clip_line line))))"

section \<open>Lemmas\<close>

lemma rune_len_le: "rune_len s \<le> length s"
  by (auto simp: rune_len_def split: list.split)

lemma list4_cases:
  obtains "s = []" | a where "s = [a]" | a b where "s = [a, b]" | a b c where "s = [a, b, c]"
  | a b c d r where "s = a # b # c # d # r"
  by (metis neq_Nil_conv)

text \<open>The four shapes of a valid encoding.\<close>

definition enc3 :: "char \<Rightarrow> char \<Rightarrow> char \<Rightarrow> bool" where
  "enc3 a b c \<longleftrightarrow> 224 \<le> byte a \<and> byte a \<le> 239 \<and> cont_byte b \<and> cont_byte c \<and> (byte a = 224 \<longrightarrow> 160 \<le> byte b)
     \<and> (byte a = 237 \<longrightarrow> byte b \<le> 159)"

definition enc4 :: "char \<Rightarrow> char \<Rightarrow> char \<Rightarrow> char \<Rightarrow> bool" where
  "enc4 a b c d \<longleftrightarrow> 240 \<le> byte a \<and> byte a \<le> 244 \<and> cont_byte b \<and> cont_byte c \<and> cont_byte d
     \<and> (byte a = 240 \<longrightarrow> 144 \<le> byte b) \<and> (byte a = 244 \<longrightarrow> byte b \<le> 143)"

lemma rune_len_shapes:
  "byte a < 128 \<Longrightarrow> rune_len (a # r) = 1"
  "194 \<le> byte a \<Longrightarrow> byte a \<le> 223 \<Longrightarrow> cont_byte b \<Longrightarrow> rune_len (a # b # r) = 2"
  "enc3 a b c \<Longrightarrow> rune_len (a # b # c # r) = 3"
  "enc4 a b c d \<Longrightarrow> rune_len (a # b # c # d # r) = 4"
  by (simp_all add: rune_len_def enc3_def enc4_def)

lemma rune_shape:
  assumes "rune_len s \<noteq> 0"
  obtains a r where "s = a # r" "byte a < 128"
  | a b r where "s = a # b # r" "194 \<le> byte a" "byte a \<le> 223" "cont_byte b"
  | a b c r where "s = a # b # c # r" "enc3 a b c"
  | a b c d r where "s = a # b # c # d # r" "enc4 a b c d"
proof (cases s rule: list4_cases)
  case 1
  then show ?thesis using assms by (simp add: rune_len_def)
next
  case (2 a)
  then show ?thesis using assms that(1) by (simp add: rune_len_def split: if_splits)
next
  case (3 a b)
  then show ?thesis using assms that(1,2) by (simp add: rune_len_def split: if_splits)
next
  case (4 a b c)
  then show ?thesis using assms that(1,2,3) by (simp add: rune_len_def enc3_def split: if_splits)
next
  case (5 a b c d r)
  then show ?thesis using assms that by (simp add: rune_len_def enc3_def enc4_def split: if_splits)
qed

text \<open>The head of a string decides its first rune: what follows does not matter.\<close>

lemma rune_len_take: "rune_len s \<noteq> 0 \<Longrightarrow> rune_len (take (rune_len s) s @ t) = rune_len s"
  by (erule rune_shape) (simp_all add: rune_len_shapes)

lemma rune_len_error: "rune_len (rune_error @ t) = 3" "length rune_error = 3"
  by (simp_all add: rune_error_def rune_len_def cont_byte_def byte_def)

definition is_rune :: "string \<Rightarrow> bool" where
  "is_rune r \<longleftrightarrow> r \<noteq> [] \<and> (\<forall>t. rune_len (r @ t) = length r)"

lemma is_rune_error: "is_rune rune_error"
  by (simp add: is_rune_def rune_len_error) (simp add: rune_error_def)

lemma is_rune_take: "rune_len s \<noteq> 0 \<Longrightarrow> is_rune (take (rune_len s) s)"
  using rune_len_take [of s] rune_len_le [of s] by (auto simp: is_rune_def)

lemma runes_are_runes: "r \<in> set (runes s) \<Longrightarrow> is_rune r"
proof (induction s rule: runes.induct)
  case (1 s)
  then show ?case
    by (cases "s = []"; cases "rune_len s = 0") (auto simp: runes.simps [of s] is_rune_error is_rune_take)
qed

lemma runes_rune: "is_rune r \<Longrightarrow> runes (r @ t) = r # runes t"
  by (simp add: is_rune_def runes.simps [of "r @ t"])

lemma runes_concat: "\<forall>r\<in>set rs. is_rune r \<Longrightarrow> runes (concat rs @ t) = rs @ runes t"
  by (induction rs) (simp_all add: runes_rune)

lemma runes_ellipsis: "runes ellipsis = [ellipsis]"
  by (simp add: ellipsis_def runes.simps rune_len_def cont_byte_def byte_def)

lemma clip_line_runes:
  "length (runes (clip_line line)) \<le> maxThinkingStepRunes + 1
   \<and> (length (runes line) \<le> maxThinkingStepRunes \<longrightarrow> clip_line line = line)
   \<and> (length (runes line) > maxThinkingStepRunes \<longrightarrow>
       runes (clip_line line) = take maxThinkingStepRunes (runes line) @ [ellipsis])"
proof (cases "length (runes line) > maxThinkingStepRunes")
  case True
  have "\<forall>r\<in>set (take maxThinkingStepRunes (runes line)). is_rune r"
    using runes_are_runes set_take_subset by fast
  from runes_concat [OF this, of ellipsis] True show ?thesis by (simp add: clip_line_def runes_ellipsis)
next
  case False
  then show ?thesis by (simp add: clip_line_def)
qed

section \<open>Properties\<close>

text \<open>A thinking step comes only from an allowlisted event and is never blank; it has at most 281
  runes, is cut only when the line is longer than 280, between runes, and then ends in the
  ellipsis.\<close>

theorem thinking_step_bounded:
  assumes "extractThinkingStep allow et data = Some line"
  shows "\<exists>d l. data = Some d \<and> flag (case allow of None \<Rightarrow> defaultThinkingStepEvents | Some a \<Rightarrow> a) (TrimSpace et)
    \<and> step_line (TrimSpace et) d = Some l \<and> TrimSpace l \<noteq> []
    \<and> length (runes line) \<le> 281
    \<and> (length (runes (TrimSpace l)) \<le> 280 \<longrightarrow> line = TrimSpace l)
    \<and> (length (runes (TrimSpace l)) > 280 \<longrightarrow> runes line = take 280 (runes (TrimSpace l)) @ [ellipsis])"
proof -
  obtain d l where d: "data = Some d" "flag (case allow of None \<Rightarrow> defaultThinkingStepEvents | Some a \<Rightarrow> a) (TrimSpace et)"
    "step_line (TrimSpace et) d = Some l" "TrimSpace l \<noteq> []" "line = clip_line (TrimSpace l)"
    using assms by (auto simp: extractThinkingStep_def Let_def split: option.splits if_splits)
  with clip_line_runes [of "TrimSpace l"] show ?thesis by (simp add: maxThinkingStepRunes_def)
qed

theorem thinking_step_bounded_witness:
  "extractThinkingStep None ''soothe.agent.loop.started'' (Some [(''goal'', GStr '' tidy up '')]) = Some ''Goal: tidy up''
   \<and> length (runes ''Goal: tidy up'') \<le> 281"
proof -
  have e: "extractThinkingStep None ''soothe.agent.loop.started'' (Some [(''goal'', GStr '' tidy up '')]) = Some ''Goal: tidy up''"
    by code_simp
  from thinking_step_bounded [OF e] e show ?thesis by blast
qed

end
