(* ===== verification/Turn_Id.thy ===== *)
theory Turn_Id
  imports Wire_Names
begin

text \<open>
  Turn identities (turn_boundary.go of the root package): formatting and parsing of the wire
  \<^verbatim>\<open>turn_id\<close>, reading it from frames, and the two gates that decide whether a terminal frame may
  end the active turn.
\<close>

section \<open>Definitions\<close>

definition FormatTurnID :: "string \<Rightarrow> int \<Rightarrow> string" where
  "FormatTurnID loopID generation =
     (let lid = TrimSpace loopID
      in if lid = [] \<or> generation \<le> 0 then [] else lid @ '':'' @ Itoa generation)"

definition ParseTurnGeneration :: "string \<Rightarrow> int" where
  "ParseTurnGeneration turnID =
     (let raw = TrimSpace turnID
      in if raw = [] \<or> \<not> Contains raw '':'' then -1
         else (let parts = split_char CHR '':'' raw; suf = last parts
               in case Atoi suf of
                    None \<Rightarrow> -1
                  | Some gen \<Rightarrow> if gen \<le> 0 then -1 else gen))"

definition FrameTurnID :: "gmap \<Rightarrow> string" where
  "FrameTurnID oframe =
     (case oframe of
        None \<Rightarrow> []
      | Some frame \<Rightarrow>
          (let t = TrimSpace (asString (idx frame ''turn_id''))
           in if t \<noteq> [] then t
              else case as_map (idx frame ''data'') of
                None \<Rightarrow> []
              | Some data \<Rightarrow> TrimSpace (asString (idx data ''turn_id''))))"

definition FrameSeq :: "gmap \<Rightarrow> int" where
  "FrameSeq oframe =
     (case oframe of
        None \<Rightarrow> -1
      | Some frame \<Rightarrow>
          (case idx frame ''seq'' of
             GInt v \<Rightarrow> if v \<ge> 0 then v else -1
           | GInt64 v \<Rightarrow> if v \<ge> 0 then v else -1
           | GFloat v \<Rightarrow> if v \<ge> 0 \<and> v = of_int (int_of_float v) then int_of_float v else -1
           | _ \<Rightarrow> -1))"

definition TurnIDsMatch :: "string \<Rightarrow> string \<Rightarrow> bool" where
  "TurnIDsMatch expected candidate =
     (let e = TrimSpace expected; c = TrimSpace candidate
      in e \<noteq> [] \<and> c \<noteq> [] \<and> e = c)"

definition IsTurnTerminalAllowed :: "string \<Rightarrow> string \<Rightarrow> bool \<Rightarrow> bool \<Rightarrow> bool" where
  "IsTurnTerminalAllowed expectedTurnID frameTurnID queryStarted turnProgressSeen =
     (if \<not> queryStarted \<or> \<not> turnProgressSeen then False
      else TurnIDsMatch expectedTurnID frameTurnID)"

definition IsIdleTerminalAllowed ::
    "string \<Rightarrow> string \<Rightarrow> bool \<Rightarrow> bool \<Rightarrow> bool \<Rightarrow> bool" where
  "IsIdleTerminalAllowed expectedTurnID frameTurnID queryStarted turnProgressSeen cancellationSeen =
     (if \<not> queryStarted \<or> TrimSpace expectedTurnID = [] then False
      else let cand = TrimSpace frameTurnID
           in if cand \<noteq> [] then
                (if \<not> TurnIDsMatch expectedTurnID cand then False
                 else turnProgressSeen \<or> cancellationSeen)
              else cancellationSeen)"

section \<open>Lemmas\<close>

lemma TurnIDsMatch_iff: "TurnIDsMatch e c \<longleftrightarrow> TrimSpace e \<noteq> [] \<and> TrimSpace e = TrimSpace c"
  by (auto simp: TurnIDsMatch_def Let_def)

lemma TurnIDsMatch_nonempty: "TurnIDsMatch e c \<Longrightarrow> e \<noteq> [] \<and> c \<noteq> []"
  by (auto simp: TurnIDsMatch_iff)

lemma IsTurnTerminalAllowed_iff:
  "IsTurnTerminalAllowed e c q p \<longleftrightarrow> q \<and> p \<and> TurnIDsMatch e c"
  by (auto simp: IsTurnTerminalAllowed_def)

lemma IsIdleTerminalAllowed_iff:
  "IsIdleTerminalAllowed e c q p x \<longleftrightarrow>
     q \<and> TrimSpace e \<noteq> []
       \<and> (if TrimSpace c = [] then x else TrimSpace e = TrimSpace c \<and> (p \<or> x))"
  by (auto simp: IsIdleTerminalAllowed_def TurnIDsMatch_iff Let_def)

lemma FrameTurnID_trimmed: "TrimSpace (FrameTurnID f) = FrameTurnID f"
  by (auto simp: FrameTurnID_def Let_def split: option.splits)

lemma Contains_char: "c \<in> set s \<Longrightarrow> Contains s [c]"
  unfolding Contains_def by (metis append.assoc append_Cons append_Nil in_set_conv_decomp sublist_appendI)

lemma FormatTurnID_shape:
  assumes "TrimSpace lid \<noteq> []" "0 < g"
  shows "TrimSpace (FormatTurnID lid g) = TrimSpace lid @ '':'' @ Itoa g"
proof -
  let ?t = "TrimSpace lid @ '':'' @ Itoa g"
  obtain d where d: "d < 10" "last (nat_dec (nat g)) = digit_char d" using nat_dec_last by blast
  then have l: "Itoa g = butlast (nat_dec (nat g)) @ [digit_char d]"
    using assms(2) by (simp add: Itoa_def flip: d(2))
  have "lead_ws ?t = 0"
    using lead_ws_append_plain [OF TrimSpace_clean(1) assms(1), of "CHR '':''" "Itoa g"]
    by (simp add: plain_byteI)
  moreover have "trail_ws ?t = 0"
    using trail_ws_snoc_plain [OF digit_char_plain [OF d(1)],
        of "TrimSpace lid @ '':'' @ butlast (nat_dec (nat g))"] by (simp add: l)
  ultimately show ?thesis using assms by (simp add: FormatTurnID_def TrimSpace_id)
qed

lemma ParseTurnGeneration_ge: "ParseTurnGeneration t = -1 \<or> 0 < ParseTurnGeneration t"
  by (auto simp: ParseTurnGeneration_def Let_def split: option.splits)

lemma ParseTurnGeneration_Nil [simp]: "ParseTurnGeneration [] = -1"
  by (simp add: ParseTurnGeneration_def)

section \<open>Properties\<close>

text \<open>Round trip of the turn id: for a loop id that is not blank, colons included, and any
  positive generation an \<^verbatim>\<open>int\<close> holds, parsing the formatted id gives the generation back.\<close>

theorem turn_id_roundtrip:
  assumes "TrimSpace lid \<noteq> []" "0 < g" "g \<le> int64_max"
  shows "ParseTurnGeneration (FormatTurnID lid g) = g"
proof -
  have "CHR '':'' \<notin> set (Itoa g)"
    using assms(2) digit_char_not_sign by (auto simp: Itoa_def dest!: nat_dec_digits) metis
  then have "last (split_char CHR '':'' (TrimSpace lid @ '':'' @ Itoa g)) = Itoa g"
    using last_split_char [of "CHR '':''" "Itoa g" "TrimSpace lid"] by simp
  moreover have "Atoi (Itoa g) = Some g"
    using assms by (intro Atoi_Itoa) (simp_all add: int64_min_def)
  ultimately show ?thesis
    using assms FormatTurnID_shape [OF assms(1,2)] Contains_char [of "CHR '':''" "TrimSpace lid @ '':'' @ Itoa g"]
    by (simp add: ParseTurnGeneration_def Let_def)
qed

theorem turn_id_roundtrip_witness:
  "FormatTurnID ''a:b'' 42 = ''a:b:42'' \<and> ParseTurnGeneration (FormatTurnID ''a:b'' 42) = 42"
proof -
  have t: "TrimSpace ''a:b'' = ''a:b''" by (simp add: TrimSpace_plain_ends plain_byteI)
  have "FormatTurnID ''a:b'' 42 = ''a:b:42''"
    by code_simp
  with turn_id_roundtrip [of "''a:b''" 42] t show ?thesis by (simp add: int64_max_def)
qed

text \<open>The terminal gates: a turn terminal is accepted only after the query has started, progress
  was seen and the frame carries the bound turn id; an idle status is accepted only after the query
  has started with a bound turn id, and then by a matching id with progress or cancellation, or
  without an id by cancellation alone. Whatever a turn terminal is allowed to end, idle is too.\<close>

theorem terminal_gates:
  "(IsTurnTerminalAllowed e c q p \<longleftrightarrow> q \<and> p \<and> TrimSpace e \<noteq> [] \<and> TrimSpace e = TrimSpace c)
   \<and> (IsIdleTerminalAllowed e c q p x \<longleftrightarrow>
        q \<and> TrimSpace e \<noteq> []
        \<and> (if TrimSpace c = [] then x else TrimSpace e = TrimSpace c \<and> (p \<or> x)))
   \<and> (IsTurnTerminalAllowed e c q p \<longrightarrow> IsIdleTerminalAllowed e c q p x)"
  by (auto simp: IsTurnTerminalAllowed_iff IsIdleTerminalAllowed_iff TurnIDsMatch_iff)

theorem terminal_gates_witness:
  "IsIdleTerminalAllowed ''L:1'' ''L:1'' True True False"
proof -
  have "TrimSpace ''L:1'' = ''L:1''" by (simp add: TrimSpace_plain_ends plain_byteI)
  then have "IsTurnTerminalAllowed ''L:1'' ''L:1'' True True"
    by (simp add: IsTurnTerminalAllowed_def TurnIDsMatch_def)
  with terminal_gates [of "''L:1''" "''L:1''" True True False] show ?thesis by blast
qed

end
