(* ===== verification/Turn_Gate.thy ===== *)
theory Turn_Gate
  imports Turn_Id Protocol
begin

text \<open>
  Turn lifecycle in the application kit: \<^verbatim>\<open>TurnLifecycleGate\<close> (appkit/turn_lifecycle_gate.go), which
  observes messages and binds the turn id, and \<^verbatim>\<open>TurnBoundary\<close> (appkit/turn_boundary.go), which
  decides when the daemon's turn has ended. Messages are the decoded dynamic types. Receivers are
  never nil here: every caller uses the address of a struct.
\<close>

section \<open>The lifecycle gate\<close>

record TurnLifecycleGate =
  g_SawRunning :: bool
  g_SawTurnProgress :: bool
  g_ExpectedTurnID :: string
  g_CancellationSeen :: bool

definition zero_gate :: TurnLifecycleGate where
  "zero_gate = \<lparr>g_SawRunning = False, g_SawTurnProgress = False, g_ExpectedTurnID = [], g_CancellationSeen = False\<rparr>"

text \<open>A running status with a turn id: bound when none is bound yet, or when its generation is
  not older; a change of turn forgets the progress seen.\<close>

definition bind_turn :: "string \<Rightarrow> TurnLifecycleGate \<Rightarrow> TurnLifecycleGate" where
  "bind_turn tid g =
     (if tid = [] then g
      else
        (let newGen = ParseTurnGeneration tid; oldGen = ParseTurnGeneration (g_ExpectedTurnID g)
         in if g_ExpectedTurnID g = [] \<or> (newGen > 0 \<and> (oldGen < 0 \<or> newGen \<ge> oldGen)) then
              (let g1 = (if g_ExpectedTurnID g \<noteq> [] \<and> tid \<noteq> g_ExpectedTurnID g
                         then g\<lparr>g_SawTurnProgress := False\<rparr> else g)
               in g1\<lparr>g_ExpectedTurnID := tid\<rparr>)
            else g))"

definition Observe :: "msg \<Rightarrow> TurnLifecycleGate \<Rightarrow> TurnLifecycleGate" where
  "Observe m g =
     (case m of
        MStatus st \<Rightarrow>
          if EqualFold (TrimSpace (st_State st)) ''running'' then
            bind_turn (TrimSpace (st_TurnID st)) (g\<lparr>g_SawRunning := True\<rparr>)
          else g
      | MEvent e \<Rightarrow> if IsTurnProgressChunk (ev_Mode e) (ev_Data e) then g\<lparr>g_SawTurnProgress := True\<rparr> else g
      | MMap f \<Rightarrow>
          (let typ = asString (midx f ''type'');
               g1 = (if typ = ''status'' \<and> asString (midx f ''state'') = ''running''
                     then bind_turn (FrameTurnID f) (g\<lparr>g_SawRunning := True\<rparr>) else g)
           in if typ = ''event'' \<or> asString (midx f ''mode'') \<noteq> [] then
                (if IsTurnProgressChunk (asString (midx f ''mode'')) (midx f ''data'')
                 then g1\<lparr>g_SawTurnProgress := True\<rparr> else g1)
              else g1)
      | _ \<Rightarrow> g)"

definition AllowStreamEnd :: "string \<Rightarrow> TurnLifecycleGate \<Rightarrow> bool" where
  "AllowStreamEnd frameTurnID g =
     IsTurnTerminalAllowed (g_ExpectedTurnID g) frameTurnID (g_SawRunning g) (g_SawTurnProgress g)"

definition AllowIdleComplete :: "string \<Rightarrow> TurnLifecycleGate \<Rightarrow> bool" where
  "AllowIdleComplete frameTurnID g =
     IsIdleTerminalAllowed (g_ExpectedTurnID g) frameTurnID (g_SawRunning g) (g_SawTurnProgress g)
       (g_CancellationSeen g)"

section \<open>The turn boundary\<close>

definition TurnEndStreamEnd :: string where "TurnEndStreamEnd = STREAM_END"
definition TurnEndIdle :: string where "TurnEndIdle = ''status.idle''"
definition TurnEndStopped :: string where "TurnEndStopped = ''status.stopped''"

record TurnBoundary =
  b_Gate :: TurnLifecycleGate
  b_Ended :: bool
  b_Reason :: string

definition zero_boundary :: TurnBoundary where
  "zero_boundary = \<lparr>b_Gate = zero_gate, b_Ended = False, b_Reason = []\<rparr>"

definition mark :: "string \<Rightarrow> TurnBoundary \<Rightarrow> (bool \<times> string) \<times> TurnBoundary" where
  "mark reason b = ((True, reason), b\<lparr>b_Ended := True, b_Reason := reason\<rparr>)"

text \<open>The turn id of an event: its own, or one found in its data.\<close>

definition event_turn :: "string \<Rightarrow> gval \<Rightarrow> string" where
  "event_turn own data =
     (case as_map data of
        Some dm \<Rightarrow> if FrameTurnID (Some dm) \<noteq> [] then FrameTurnID (Some dm) else own
      | None \<Rightarrow> own)"

text \<open>The reason for which a message ends the turn, given the gate after observing it. In the map
  branch a stopped status of another turn returns at once, without the event test below it.\<close>

definition end_reason :: "msg \<Rightarrow> TurnLifecycleGate \<Rightarrow> string option" where
  "end_reason m g =
     (case m of
        MStatus st \<Rightarrow>
          (let state = TrimSpace (st_State st); frameTurn = TrimSpace (st_TurnID st)
           in if EqualFold state ''stopped'' \<and> g_SawRunning g then
                (if g_ExpectedTurnID g \<noteq> [] \<and> \<not> TurnIDsMatch (g_ExpectedTurnID g) frameTurn then None
                 else Some TurnEndStopped)
              else if EqualFold state ''idle'' \<and> AllowIdleComplete frameTurn g then Some TurnEndIdle
              else None)
      | MEvent e \<Rightarrow>
          if ev_Mode e = ''custom'' \<and> IsTurnEndCustomData (ev_Data e)
             \<and> AllowStreamEnd (event_turn (TrimSpace (ev_TurnID e)) (ev_Data e)) g
          then Some TurnEndStreamEnd else None
      | MMap f \<Rightarrow>
          (let typ = asString (midx f ''type''); state = asString (midx f ''state'');
               ev = (if (typ = ''event'' \<or> asString (midx f ''mode'') \<noteq> [])
                        \<and> asString (midx f ''mode'') = ''custom'' \<and> IsTurnEndCustomData (midx f ''data'')
                        \<and> AllowStreamEnd (event_turn (FrameTurnID f) (midx f ''data'')) g
                     then Some TurnEndStreamEnd else None)
           in if typ = ''status'' \<and> state = ''stopped'' \<and> g_SawRunning g then
                (if g_ExpectedTurnID g \<noteq> [] \<and> \<not> TurnIDsMatch (g_ExpectedTurnID g) (FrameTurnID f) then None
                 else Some TurnEndStopped)
              else if typ = ''status'' \<and> state = ''idle'' \<and> AllowIdleComplete (FrameTurnID f) g then
                Some TurnEndIdle
              else ev)
      | _ \<Rightarrow> None)"

definition Feed :: "msg \<Rightarrow> TurnBoundary \<Rightarrow> (bool \<times> string) \<times> TurnBoundary" where
  "Feed m b =
     (if b_Ended b then ((True, b_Reason b), b)
      else
        (let b1 = b\<lparr>b_Gate := Observe m (b_Gate b)\<rparr>
         in case end_reason m (b_Gate b1) of
              Some reason \<Rightarrow> mark reason b1
            | None \<Rightarrow> ((False, []), b1)))"

definition IsDaemonTurnEndEvent :: "string \<Rightarrow> bool" where
  "IsDaemonTurnEndEvent completionEvent \<longleftrightarrow>
     TrimSpace completionEvent \<in> {TurnEndStreamEnd, TurnEndIdle, TurnEndStopped}"

section \<open>The contract of a turn boundary\<close>

text \<open>What a turn loop relies on: each message gives the boundary's verdict, a boundary that ended
  stays ended for the same reason, and the verdict is the recorded state.\<close>

locale turn_end =
  fixes feed :: "'m \<Rightarrow> 'b \<Rightarrow> (bool \<times> string) \<times> 'b"
    and ended :: "'b \<Rightarrow> bool"
    and reason :: "'b \<Rightarrow> string"
  assumes verdict: "feed m b = ((e, r), b') \<Longrightarrow> e = ended b'"
    and verdict_reason: "feed m b = ((True, r), b') \<Longrightarrow> reason b' = r"
    and sticky: "ended b \<Longrightarrow> feed m b = ((True, reason b), b)"
begin

definition feeds :: "'m list \<Rightarrow> 'b \<Rightarrow> 'b" where
  "feeds ms b = fold (\<lambda>m b. snd (feed m b)) ms b"

lemma feeds_ended: "ended b \<Longrightarrow> feeds ms b = b"
  by (induction ms) (simp_all add: feeds_def sticky)

lemma feeds_append: "feeds (xs @ ys) b = feeds ys (feeds xs b)"
  by (simp add: feeds_def)

text \<open>The first message that ends the turn decides: what follows changes nothing.\<close>

lemma first_end_decides:
  assumes "ended (feeds xs b)"
  shows "feeds (xs @ ys) b = feeds xs b"
  using assms by (simp add: feeds_append feeds_ended)

lemma end_has_cause:
  "ended (feeds ms b) \<Longrightarrow> \<not> ended b \<Longrightarrow>
   \<exists>xs m ys. ms = xs @ m # ys \<and> \<not> ended (feeds xs b) \<and> fst (feed m (feeds xs b)) = (True, reason (feeds ms b))"
proof (induction ms rule: rev_induct)
  case (snoc m ms)
  show ?case
  proof (cases "ended (feeds ms b)")
    case True
    then obtain xs m' ys where "ms = xs @ m' # ys" "\<not> ended (feeds xs b)"
        "fst (feed m' (feeds xs b)) = (True, reason (feeds ms b))"
      using snoc by blast
    then show ?thesis using first_end_decides [OF True, of "[m]"]
      by (intro exI [of _ xs] exI [of _ m'] exI [of _ "ys @ [m]"]) simp
  next
    case False
    obtain e r b' where f: "feed m (feeds ms b) = ((e, r), b')" by (metis prod.exhaust)
    then have "feeds (ms @ [m]) b = b'" by (simp add: feeds_def)
    with f snoc.prems(1) verdict [OF f] have "e" "feeds (ms @ [m]) b = b'" by auto
    then show ?thesis using f verdict_reason [of m "feeds ms b" r b'] False
      by (intro exI [of _ ms] exI [of _ m] exI [of _ "[]"]) simp
  qed
qed (simp add: feeds_def)

end

interpretation boundary: turn_end Feed b_Ended b_Reason
  by unfold_locales (auto simp: Feed_def mark_def Let_def split: if_splits option.splits)

definition feed_all :: "msg list \<Rightarrow> TurnBoundary \<Rightarrow> TurnBoundary" where
  "feed_all ms b = fold (\<lambda>m b. snd (Feed m b)) ms b"

lemma feed_all_feeds: "boundary.feeds = feed_all"
  by (intro ext) (simp add: boundary.feeds_def feed_all_def)

section \<open>Lemmas\<close>

text \<open>Which messages report running, which are progress, and the turn id a message carries.\<close>

definition is_running :: "msg \<Rightarrow> bool" where
  "is_running m =
     (case m of
        MStatus st \<Rightarrow> EqualFold (TrimSpace (st_State st)) ''running''
      | MMap f \<Rightarrow> asString (midx f ''type'') = ''status'' \<and> asString (midx f ''state'') = ''running''
      | _ \<Rightarrow> False)"

definition is_progress :: "msg \<Rightarrow> bool" where
  "is_progress m =
     (case m of
        MEvent e \<Rightarrow> IsTurnProgressChunk (ev_Mode e) (ev_Data e)
      | MMap f \<Rightarrow> IsTurnProgressChunk (asString (midx f ''mode'')) (midx f ''data'')
      | _ \<Rightarrow> False)"

definition frame_turns :: "msg \<Rightarrow> string list" where
  "frame_turns m =
     (case m of
        MStatus st \<Rightarrow> [TrimSpace (st_TurnID st)]
      | MEvent e \<Rightarrow> [event_turn (TrimSpace (ev_TurnID e)) (ev_Data e)]
      | MMap f \<Rightarrow> [FrameTurnID f, event_turn (FrameTurnID f) (midx f ''data'')]
      | _ \<Rightarrow> [])"

definition carries :: "string \<Rightarrow> msg \<Rightarrow> bool" where
  "carries tid m \<longleftrightarrow> list_ex (TurnIDsMatch tid) (frame_turns m)"

lemma bind_turn_flags [simp]:
  "g_SawRunning (bind_turn tid g) = g_SawRunning g"
  "g_CancellationSeen (bind_turn tid g) = g_CancellationSeen g"
  by (auto simp: bind_turn_def Let_def)

lemma bind_turn_progress: "g_SawTurnProgress (bind_turn tid g) \<Longrightarrow> g_SawTurnProgress g"
  by (auto simp: bind_turn_def Let_def split: if_splits)

lemma Observe_running: "g_SawRunning (Observe m g) \<Longrightarrow> g_SawRunning g \<or> is_running m"
  by (cases m) (auto simp: Observe_def is_running_def Let_def split: if_splits)

lemma Observe_progress: "g_SawTurnProgress (Observe m g) \<Longrightarrow> g_SawTurnProgress g \<or> is_progress m"
proof (cases m)
  case (MMap f)
  assume p: "g_SawTurnProgress (Observe m g)"
  have "g_SawTurnProgress (bind_turn t (g\<lparr>g_SawRunning := True\<rparr>)) \<Longrightarrow> g_SawTurnProgress g" for t
    using bind_turn_progress [of t "g\<lparr>g_SawRunning := True\<rparr>"] by simp
  with p MMap show ?thesis by (simp add: Observe_def is_progress_def Let_def split: if_splits)
next
  case (MStatus st)
  assume p: "g_SawTurnProgress (Observe m g)"
  show ?thesis
    using p MStatus bind_turn_progress [of _ "g\<lparr>g_SawRunning := True\<rparr>"]
    by (auto simp: Observe_def split: if_splits)
qed (auto simp: Observe_def is_progress_def split: if_splits)

lemma Observe_cancel [simp]: "g_CancellationSeen (Observe m g) = g_CancellationSeen g"
  by (cases m) (auto simp: Observe_def Let_def)

lemma Feed_gate: "\<not> b_Ended b \<Longrightarrow> b_Gate (snd (Feed m b)) = Observe m (b_Gate b)"
  by (simp add: Feed_def mark_def Let_def split: option.split)

lemma Feed_fst: "\<not> b_Ended b \<Longrightarrow>
   fst (Feed m b) = (case end_reason m (Observe m (b_Gate b)) of Some r \<Rightarrow> (True, r) | None \<Rightarrow> (False, []))"
  by (simp add: Feed_def mark_def Let_def split: option.split)

lemma feed_all_snoc: "feed_all (ms @ [m]) b = snd (Feed m (feed_all ms b))"
  by (simp add: feed_all_def)

lemma feed_all_gate:
  "\<not> b_Ended (feed_all ms zero_boundary) \<Longrightarrow>
   (let g = b_Gate (feed_all ms zero_boundary)
    in (g_SawRunning g \<longrightarrow> (\<exists>r\<in>set ms. is_running r)) \<and> (g_SawTurnProgress g \<longrightarrow> (\<exists>p\<in>set ms. is_progress p))
       \<and> \<not> g_CancellationSeen g)"
proof (induction ms rule: rev_induct)
  case Nil
  then show ?case by (simp add: feed_all_def zero_boundary_def zero_gate_def)
next
  case (snoc m ms)
  have ne: "\<not> b_Ended (feed_all ms zero_boundary)"
    using snoc.prems boundary.first_end_decides [of ms zero_boundary "[m]"] unfolding feed_all_feeds by auto
  let ?g = "b_Gate (feed_all ms zero_boundary)"
  have IH: "g_SawRunning ?g \<longrightarrow> (\<exists>r\<in>set ms. is_running r)" "g_SawTurnProgress ?g \<longrightarrow> (\<exists>p\<in>set ms. is_progress p)"
    "\<not> g_CancellationSeen ?g" using snoc.IH [OF ne] by (simp_all add: Let_def)
  have "b_Gate (feed_all (ms @ [m]) zero_boundary) = Observe m ?g" by (simp add: feed_all_snoc Feed_gate [OF ne])
  with IH Observe_running [of m ?g] Observe_progress [of m ?g] show ?case by (auto simp: Let_def)
qed

text \<open>What each reason requires of the gate.\<close>

lemma end_reason_sound:
  assumes "end_reason m g = Some r" "\<not> g_CancellationSeen g"
  shows "g_SawRunning g \<and> r \<in> {TurnEndStreamEnd, TurnEndIdle, TurnEndStopped}
    \<and> (r \<noteq> TurnEndStopped \<longrightarrow> g_SawTurnProgress g \<and> carries (g_ExpectedTurnID g) m)
    \<and> (g_ExpectedTurnID g \<noteq> [] \<longrightarrow> carries (g_ExpectedTurnID g) m)"
proof -
  have neq: "TurnEndStreamEnd \<noteq> TurnEndStopped" "TurnEndIdle \<noteq> TurnEndStopped"
    by (simp_all add: TurnEndStreamEnd_def TurnEndStopped_def TurnEndIdle_def STREAM_END_def)
  have se: "AllowStreamEnd t g \<Longrightarrow> g_SawRunning g \<and> g_SawTurnProgress g \<and> TurnIDsMatch (g_ExpectedTurnID g) t" for t
    by (simp add: AllowStreamEnd_def IsTurnTerminalAllowed_iff)
  have ie: "AllowIdleComplete t g \<Longrightarrow> g_SawRunning g \<and> g_SawTurnProgress g \<and> TurnIDsMatch (g_ExpectedTurnID g) t" for t
    using assms(2) by (auto simp: AllowIdleComplete_def IsIdleTerminalAllowed_iff TurnIDsMatch_iff split: if_splits)
  show ?thesis
    using assms(1) neq se ie
    by (cases m) (auto simp: end_reason_def carries_def frame_turns_def Let_def split: if_splits)
qed

lemma bind_turn_generation:
  "g_ExpectedTurnID g \<noteq> [] \<Longrightarrow>
   g_ExpectedTurnID (bind_turn tid g) \<noteq> []
   \<and> ParseTurnGeneration (g_ExpectedTurnID g) \<le> ParseTurnGeneration (g_ExpectedTurnID (bind_turn tid g))"
  by (auto simp: bind_turn_def Let_def)

lemma Observe_generation:
  assumes "g_ExpectedTurnID g \<noteq> []"
  shows "g_ExpectedTurnID (Observe m g) \<noteq> []
    \<and> ParseTurnGeneration (g_ExpectedTurnID g) \<le> ParseTurnGeneration (g_ExpectedTurnID (Observe m g))"
  using assms bind_turn_generation [of "g\<lparr>g_SawRunning := True\<rparr>"]
  by (cases m) (auto simp: Observe_def Let_def)

section \<open>Properties\<close>

text \<open>C4: A turn ends only for good cause: whatever messages a fresh boundary is fed, if the turn has
  ended then some message ended it, after a running status; for a stream end or an idle status
  also after turn progress, and with a turn id that equals the bound one; for a stopped status
  with the bound turn id, if one is bound. No message after it changes the verdict.\<close>

theorem turn_end_sound:
  assumes "b_Ended (feed_all ms zero_boundary)"
  shows "\<exists>xs m ys. ms = xs @ m # ys \<and> \<not> b_Ended (feed_all xs zero_boundary)
    \<and> feed_all ms zero_boundary = feed_all (xs @ [m]) zero_boundary
    \<and> (\<exists>r\<in>set (xs @ [m]). is_running r)
    \<and> b_Reason (feed_all ms zero_boundary) \<in> {TurnEndStreamEnd, TurnEndIdle, TurnEndStopped}
    \<and> (let expected = g_ExpectedTurnID (b_Gate (feed_all ms zero_boundary))
       in (b_Reason (feed_all ms zero_boundary) \<noteq> TurnEndStopped \<longrightarrow>
             (\<exists>p\<in>set (xs @ [m]). is_progress p) \<and> carries expected m)
        \<and> (expected \<noteq> [] \<longrightarrow> carries expected m))"
proof -
  have "\<not> b_Ended zero_boundary" by (simp add: zero_boundary_def)
  from boundary.end_has_cause [of ms zero_boundary, unfolded feed_all_feeds, OF assms this]
  obtain xs m ys where ms: "ms = xs @ m # ys" and ne: "\<not> b_Ended (feed_all xs zero_boundary)"
    and v: "fst (Feed m (feed_all xs zero_boundary)) = (True, b_Reason (feed_all ms zero_boundary))" by blast
  let ?b = "feed_all xs zero_boundary"
  let ?g = "Observe m (b_Gate ?b)"
  have er: "end_reason m ?g = Some (b_Reason (feed_all ms zero_boundary))"
    using v unfolding Feed_fst [OF ne] by (auto split: option.splits)
  have "b_Ended (feed_all (xs @ [m]) zero_boundary)"
    using er ne by (simp add: feed_all_snoc Feed_def mark_def Let_def)
  from boundary.first_end_decides [of "xs @ [m]" zero_boundary ys, unfolded feed_all_feeds, OF this]
  have same: "feed_all ms zero_boundary = feed_all (xs @ [m]) zero_boundary" by (simp add: ms)
  have g: "b_Gate (feed_all ms zero_boundary) = ?g" unfolding same by (simp add: feed_all_snoc Feed_gate [OF ne])
  have fg: "g_SawRunning (b_Gate ?b) \<longrightarrow> (\<exists>r\<in>set xs. is_running r)"
    "g_SawTurnProgress (b_Gate ?b) \<longrightarrow> (\<exists>p\<in>set xs. is_progress p)" "\<not> g_CancellationSeen ?g"
    using feed_all_gate [OF ne] by (simp_all add: Let_def)
  note es = end_reason_sound [OF er fg(3)]
  have "\<exists>r\<in>set (xs @ [m]). is_running r" using es fg(1) Observe_running [of m "b_Gate ?b"] by auto
  moreover have "g_SawTurnProgress ?g \<Longrightarrow> \<exists>p\<in>set (xs @ [m]). is_progress p"
    using fg(2) Observe_progress [of m "b_Gate ?b"] by auto
  ultimately show ?thesis
    using ms ne same es unfolding g Let_def by blast
qed

theorem turn_end_sound_witness:
  "b_Reason (feed_all [MStatus \<lparr>st_RequestID = [], st_Type = ''status'', st_State = ''running'', st_LoopID = [],
      st_TurnID = ''l:1'', st_Seq = 0, st_Workspace = [], st_InputHistory = None, st_ConversationHistory = None\<rparr>,
      MStatus \<lparr>st_RequestID = [], st_Type = ''status'', st_State = ''stopped'', st_LoopID = [],
      st_TurnID = ''l:1'', st_Seq = 0, st_Workspace = [], st_InputHistory = None, st_ConversationHistory = None\<rparr>]
      zero_boundary) \<in> {TurnEndStreamEnd, TurnEndIdle, TurnEndStopped}"
proof -
  let ?ms = "[MStatus \<lparr>st_RequestID = [], st_Type = ''status'', st_State = ''running'', st_LoopID = [],
      st_TurnID = ''l:1'', st_Seq = 0, st_Workspace = [], st_InputHistory = None, st_ConversationHistory = None\<rparr>,
      MStatus \<lparr>st_RequestID = [], st_Type = ''status'', st_State = ''stopped'', st_LoopID = [],
      st_TurnID = ''l:1'', st_Seq = 0, st_Workspace = [], st_InputHistory = None, st_ConversationHistory = None\<rparr>]"
  have "b_Ended (feed_all ?ms zero_boundary)" by code_simp
  from turn_end_sound [OF this] show ?thesis by blast
qed

text \<open>The bound turn only moves forward: once a turn id is bound, no sequence of messages unbinds
  it or binds one of a smaller generation.\<close>

theorem turn_binding_monotone:
  assumes "g_ExpectedTurnID g \<noteq> []"
  shows "g_ExpectedTurnID (fold Observe ms g) \<noteq> []
    \<and> ParseTurnGeneration (g_ExpectedTurnID g) \<le> ParseTurnGeneration (g_ExpectedTurnID (fold Observe ms g))"
  using assms
proof (induction ms arbitrary: g)
  case (Cons m ms)
  from Cons.IH [of "Observe m g"] Observe_generation [OF Cons.prems, of m] show ?case by auto
qed simp

theorem turn_binding_monotone_witness:
  "1 \<le> ParseTurnGeneration (g_ExpectedTurnID (fold Observe
      [MMap (Some [(''type'', GStr ''status''), (''state'', GStr ''running''), (''turn_id'', GStr ''l:3'')])]
      (zero_gate\<lparr>g_ExpectedTurnID := ''l:1''\<rparr>)))"
proof -
  have "ParseTurnGeneration ''l:1'' = 1" by code_simp
  then show ?thesis
    using turn_binding_monotone [of "zero_gate\<lparr>g_ExpectedTurnID := ''l:1''\<rparr>"
        "[MMap (Some [(''type'', GStr ''status''), (''state'', GStr ''running''), (''turn_id'', GStr ''l:3'')])]"]
    by simp
qed

text \<open>The gate while events of a turn arrive.\<close>

lemma feed_events:
  "\<not> b_Ended b \<or> b_Reason b = TurnEndStreamEnd \<Longrightarrow> g_SawRunning (b_Gate b) \<Longrightarrow> g_ExpectedTurnID (b_Gate b) = tid \<Longrightarrow>
   (let b' = feed_all (map MEvent es) b
    in (b_Ended b' \<and> b_Reason b' = TurnEndStreamEnd)
     \<or> (\<not> b_Ended b' \<and> g_SawRunning (b_Gate b') \<and> g_ExpectedTurnID (b_Gate b') = tid
        \<and> (g_SawTurnProgress (b_Gate b) \<or> list_ex (\<lambda>e. IsTurnProgressChunk (ev_Mode e) (ev_Data e)) es
             \<longrightarrow> g_SawTurnProgress (b_Gate b'))))"
proof (induction es arbitrary: b)
  case Nil
  then show ?case by (auto simp: feed_all_def Let_def)
next
  case (Cons e es)
  show ?case
  proof (cases "b_Ended b")
    case True
    then show ?thesis
      using Cons.prems boundary.feeds_ended [of b "map MEvent (e # es)", unfolded feed_all_feeds]
      by (simp add: Let_def)
  next
    case False
    let ?b1 = "snd (Feed (MEvent e) b)"
    have g1: "b_Gate ?b1 = Observe (MEvent e) (b_Gate b)" by (rule Feed_gate [OF False])
    have "\<not> b_Ended ?b1 \<or> b_Reason ?b1 = TurnEndStreamEnd"
      by (auto simp: Feed_def end_reason_def mark_def Let_def False)
    moreover have "g_SawRunning (b_Gate ?b1)" "g_ExpectedTurnID (b_Gate ?b1) = tid"
      "g_SawTurnProgress (b_Gate b) \<or> IsTurnProgressChunk (ev_Mode e) (ev_Data e) \<longrightarrow> g_SawTurnProgress (b_Gate ?b1)"
      using Cons.prems unfolding g1 by (auto simp: Observe_def)
    moreover have "feed_all (map MEvent (e # es)) b = feed_all (map MEvent es) ?b1" by (simp add: feed_all_def)
    ultimately show ?thesis using Cons.IH [of ?b1] by (auto simp: Let_def)
  qed
qed

text \<open>C28: A turn that runs its course ends: after a running status that carries the turn id, events
  among which one is progress, and a custom turn-end event with the same turn id, the boundary
  has ended, by stream end.\<close>

theorem turn_completes:
  assumes "EqualFold (TrimSpace (st_State st)) ''running''" "TrimSpace (st_TurnID st) = tid" "tid \<noteq> []"
    "list_ex (\<lambda>e. IsTurnProgressChunk (ev_Mode e) (ev_Data e)) es"
    "ev_Mode fin = ''custom''" "IsTurnEndCustomData (ev_Data fin)"
    "event_turn (TrimSpace (ev_TurnID fin)) (ev_Data fin) = tid"
  shows "b_Ended (feed_all (MStatus st # map MEvent es @ [MEvent fin]) zero_boundary)
    \<and> b_Reason (feed_all (MStatus st # map MEvent es @ [MEvent fin]) zero_boundary) = TurnEndStreamEnd"
proof -
  let ?b = "snd (Feed (MStatus st) zero_boundary)"
  have run: "\<not> EqualFold (TrimSpace (st_State st)) ''stopped''" "\<not> EqualFold (TrimSpace (st_State st)) ''idle''"
    using assms(1) by (auto simp: ascii_lower_def)
  have b: "\<not> b_Ended ?b" "g_SawRunning (b_Gate ?b)" "g_ExpectedTurnID (b_Gate ?b) = tid"
    using assms(1-3) run
    by (simp_all add: Feed_def zero_boundary_def zero_gate_def Observe_def bind_turn_def end_reason_def Let_def
        del: EqualFold_lower)
  let ?b2 = "feed_all (map MEvent es) ?b"
  have split: "feed_all (MStatus st # map MEvent es @ [MEvent fin]) zero_boundary = snd (Feed (MEvent fin) ?b2)"
    by (simp add: feed_all_def)
  have idem: "TrimSpace tid = tid" using assms(2) TrimSpace_idem by blast
  from feed_events [of ?b tid es] b assms(4) consider
    "b_Ended ?b2" "b_Reason ?b2 = TurnEndStreamEnd"
    | "\<not> b_Ended ?b2" "g_SawRunning (b_Gate ?b2)" "g_ExpectedTurnID (b_Gate ?b2) = tid" "g_SawTurnProgress (b_Gate ?b2)"
    by (auto simp: Let_def)
  then show ?thesis
  proof cases
    case 1
    then show ?thesis unfolding split by (simp add: Feed_def)
  next
    case 2
    then show ?thesis unfolding split using assms(3,5,6,7) idem
      by (simp add: Feed_def end_reason_def Observe_def AllowStreamEnd_def IsTurnTerminalAllowed_iff TurnIDsMatch_iff
          mark_def Let_def)
  qed
qed

theorem turn_completes_witness:
  "b_Reason (feed_all (MStatus \<lparr>st_RequestID = [], st_Type = ''status'', st_State = ''running'', st_LoopID = [],
      st_TurnID = ''l:1'', st_Seq = 0, st_Workspace = [], st_InputHistory = None, st_ConversationHistory = None\<rparr>
     # map MEvent [zero_event\<lparr>ev_Mode := ''messages'', ev_Data := GList [GMap [(''type'', GStr ''ai'')]]\<rparr>]
     @ [MEvent (zero_event\<lparr>ev_Mode := ''custom'', ev_TurnID := ''l:1'',
          ev_Data := GMap [(''type'', GStr ''soothe.stream.end''), (''scope'', GStr ''turn'')]\<rparr>)]) zero_boundary)
   = TurnEndStreamEnd"
proof -
  let ?st = "\<lparr>st_RequestID = [], st_Type = ''status'', st_State = ''running'', st_LoopID = [],
      st_TurnID = ''l:1'', st_Seq = 0, st_Workspace = [], st_InputHistory = None, st_ConversationHistory = None\<rparr>"
  let ?p = "zero_event\<lparr>ev_Mode := ''messages'', ev_Data := GList [GMap [(''type'', GStr ''ai'')]]\<rparr>"
  let ?f = "zero_event\<lparr>ev_Mode := ''custom'', ev_TurnID := ''l:1'',
          ev_Data := GMap [(''type'', GStr ''soothe.stream.end''), (''scope'', GStr ''turn'')]\<rparr>"
  have 1: "EqualFold (TrimSpace (st_State ?st)) ''running''" "TrimSpace (st_TurnID ?st) = ''l:1''" "''l:1'' \<noteq> []"
    by code_simp+
  have 2: "list_ex (\<lambda>e. IsTurnProgressChunk (ev_Mode e) (ev_Data e)) [?p]" by code_simp
  have 3: "ev_Mode ?f = ''custom''" "IsTurnEndCustomData (ev_Data ?f)"
    "event_turn (TrimSpace (ev_TurnID ?f)) (ev_Data ?f) = ''l:1''" by code_simp+
  from turn_completes [OF 1 2 3] show ?thesis by blast
qed

text \<open>The same turn end is not recognised when the daemon wraps it in a \<^verbatim>\<open>next\<close> envelope: an event
  whose data names no turn is decoded without its turn id, so no boundary that has not ended is
  ended by it, although the same event sent bare may end it.\<close>

theorem wrapped_turn_end_ignored:
  assumes "wire_event e" "event_turn [] (ev_Data e) = []" "\<not> b_Ended b"
    "decode_doc (marshal (GMap (wrap_next (event_obj e)))) = Some m"
  shows "\<not> b_Ended (snd (Feed m b))"
proof -
  have ty: "idx (event_obj e) ''type'' = GStr ''event''" "has_key (event_obj e) ''mode''" "wf_obj (event_obj e)"
    using assms(1) by (simp_all add: wire_event_def event_obj_def opt_str_def opt_int_def opt_val_def wf_obj_def)
  have dat: "to_iface (marshal (idx (event_obj e) ''data'')) = ev_Data e"
    using assms(1) by (simp add: wire_event_def event_obj_def opt_str_def opt_int_def opt_val_def to_iface_marshal)
  have "\<exists>em. m = MEvent em \<and> ev_TurnID em = [] \<and> ev_Data em = ev_Data e"
    using decode_wrapped_event [OF ty(3) _ ty(2)] ty(1) dat assms(4) by (auto simp: zero_event_def)
  then obtain em where em: "m = MEvent em" "ev_TurnID em = []" "ev_Data em = ev_Data e" by blast
  then have "event_turn (TrimSpace (ev_TurnID em)) (ev_Data em) = []" using assms(2) by simp
  then show ?thesis
    using assms(3) em
    by (simp add: Feed_def end_reason_def AllowStreamEnd_def IsTurnTerminalAllowed_iff TurnIDsMatch_iff Let_def)
qed

theorem wrapped_turn_end_ignored_witness:
  "\<not> b_Ended (snd (Feed (MEvent (zero_event\<lparr>ev_Type := ''event'', ev_Mode := ''custom'',
        ev_Data := GMap [(''type'', GStr ''soothe.stream.end''), (''scope'', GStr ''turn'')]\<rparr>))
      \<lparr>b_Gate = \<lparr>g_SawRunning = True, g_SawTurnProgress = True, g_ExpectedTurnID = ''l:1'', g_CancellationSeen = False\<rparr>,
       b_Ended = False, b_Reason = []\<rparr>))"
proof -
  let ?e = "zero_event\<lparr>ev_Type := ''event'', ev_Mode := ''custom'', ev_TurnID := ''l:1'',
        ev_Data := GMap [(''type'', GStr ''soothe.stream.end''), (''scope'', GStr ''turn'')]\<rparr>"
  let ?m = "MEvent (?e\<lparr>ev_TurnID := []\<rparr>)"
  have w: "wire_event ?e"
    by (simp add: wire_event_def zero_event_def zero_time_def rfc3339_def two_digits_def char_digit_def
        days_in_def zone_ok_def int64_min_def int64_max_def is_digit_def wf_obj_def)
  have ev: "event_turn [] (ev_Data ?e) = []" by code_simp
  have wf: "wf_obj (event_obj ?e)" by (simp add: event_obj_def wf_obj_def opt_str_def opt_int_def opt_val_def)
  have "decode_doc (marshal (GMap (wrap_next (event_obj ?e)))) = Some ?m"
    using decode_wrapped_event [OF wf] w
    by (simp add: wire_event_def event_obj_def opt_str_def opt_int_def opt_val_def zero_event_def copy_into_def)
  from wrapped_turn_end_ignored [OF w ev _ this] show ?thesis by (simp add: zero_event_def)
qed

end
