(* ===== verification/Errors.thy ===== *)
theory Errors
  imports Protocol
begin

text \<open>
  Go errors (errors.go) and runs of Go code. An error value is an \<open>goerr\<close>: a text made by
  \<^verbatim>\<open>fmt.Errorf\<close>, a wrapping of another error, a context error, an error of the network layer, or
  one of the exported struct types of errors.go. A run of a stateful operation ends in a value
  with the state after it, blocks forever, or panics.
\<close>

section \<open>Error values\<close>

datatype DisconnectCause = DisconnectUnclean | DisconnectClean

definition DisconnectCause_String :: "DisconnectCause \<Rightarrow> string" where
  "DisconnectCause_String d = (case d of DisconnectClean \<Rightarrow> ''clean'' | _ \<Rightarrow> ''unclean'')"

datatype goerr =
    ErrText string
  | ErrWrap string goerr
  | ErrCtx string
  | ErrNet string bool
  | ConnectionError string int goerr
  | DaemonError int string gmap
  | TimeoutError string string
  | ReconnectError string int goerr
  | StaleLoopError string "goerr option"

definition NewConnectionError :: "string \<Rightarrow> int \<Rightarrow> goerr \<Rightarrow> goerr" where
  "NewConnectionError url attempt e = ConnectionError url attempt e"

definition NewDaemonError :: "int \<Rightarrow> string \<Rightarrow> goerr" where
  "NewDaemonError code message = DaemonError code message None"

definition NewTimeoutError :: "string \<Rightarrow> string \<Rightarrow> goerr" where
  "NewTimeoutError operation duration = TimeoutError operation duration"

definition NewReconnectError :: "string \<Rightarrow> int \<Rightarrow> goerr \<Rightarrow> goerr" where
  "NewReconnectError url attempts e = ReconnectError url attempts e"

definition NewStaleLoopError :: "string \<Rightarrow> goerr \<Rightarrow> goerr" where
  "NewStaleLoopError loopID e = StaleLoopError loopID (Some e)"

text \<open>\<^verbatim>\<open>%d\<close> of an integer; the format of a map under \<^verbatim>\<open>%v\<close> is a parameter.\<close>

fun Error :: "(gobj \<Rightarrow> string) \<Rightarrow> goerr \<Rightarrow> string" where
  "Error fm (ErrText t) = t"
| "Error fm (ErrWrap p e) = p @ '': '' @ Error fm e"
| "Error fm (ErrCtx t) = t"
| "Error fm (ErrNet t _) = t"
| "Error fm (ConnectionError url n e) =
     ''connection error to '' @ url @ '' (attempt '' @ Itoa n @ ''): '' @ Error fm e"
| "Error fm (DaemonError c m d) =
     (case d of
        None \<Rightarrow> ''daemon error ['' @ Itoa c @ '']: '' @ m
      | Some o' \<Rightarrow>
          if length o' > 0 then ''daemon error ['' @ Itoa c @ '']: '' @ m @ '' ('' @ fm o' @ '')''
          else ''daemon error ['' @ Itoa c @ '']: '' @ m)"
| "Error fm (TimeoutError op d) = ''timeout after '' @ d @ '' waiting for '' @ op"
| "Error fm (ReconnectError url n e) =
     ''reconnect to '' @ url @ '' failed after '' @ Itoa n @ '' attempts: '' @ Error fm e"
| "Error fm (StaleLoopError l oe) =
     (case oe of
        Some e \<Rightarrow>
          ''stale loop '' @ l @ '': reattach accepted but liveness probe failed: '' @ Error fm e
      | None \<Rightarrow> ''stale loop '' @ l @ '': reattach accepted but liveness probe failed'')"

fun Unwrap :: "goerr \<Rightarrow> goerr option" where
  "Unwrap (ErrWrap _ e) = Some e"
| "Unwrap (ConnectionError _ _ e) = Some e"
| "Unwrap (ReconnectError _ _ e) = Some e"
| "Unwrap (StaleLoopError _ oe) = oe"
| "Unwrap _ = None"

text \<open>\<^verbatim>\<open>errors.As\<close>: the first error of the chain that satisfies a test.\<close>

lemma Unwrap_size: "Unwrap e = Some e' \<Longrightarrow> size e' < size e"
  by (cases e) auto

function errors_as :: "(goerr \<Rightarrow> bool) \<Rightarrow> goerr \<Rightarrow> goerr option" where
  "errors_as P e =
     (if P e then Some e
      else case Unwrap e of None \<Rightarrow> None | Some e' \<Rightarrow> errors_as P e')"
  by pat_completeness auto
termination
  by (relation "measure (\<lambda>(_, e). size e)") (auto dest: Unwrap_size)

declare errors_as.simps [simp del]

definition is_daemon_error :: "goerr \<Rightarrow> bool" where
  "is_daemon_error e = (case e of DaemonError _ _ _ \<Rightarrow> True | _ \<Rightarrow> False)"

definition is_net_timeout :: "goerr \<Rightarrow> bool" where
  "is_net_timeout e =
     (case errors_as (\<lambda>x. case x of ErrNet _ _ \<Rightarrow> True | _ \<Rightarrow> False) e of
        Some (ErrNet _ t) \<Rightarrow> t | _ \<Rightarrow> False)"

section \<open>Reading the error object of an error frame\<close>

definition frame_error_code :: "gobj \<Rightarrow> int" where
  "frame_error_code frame =
     (case as_float (midx (as_map (idx frame ''error'')) ''code'') of
        Some ic \<Rightarrow> int_of_float ic | None \<Rightarrow> - 32603)"

definition frame_error_message :: "gobj \<Rightarrow> string" where
  "frame_error_message frame = asString (midx (as_map (idx frame ''error'')) ''message'')"

definition frame_daemon_error :: "gobj \<Rightarrow> goerr" where
  "frame_daemon_error frame =
     DaemonError (frame_error_code frame) (frame_error_message frame)
       (as_map (midx (as_map (idx frame ''error'')) ''data''))"

text \<open>The result a response frame delivers: its result object, or the whole frame.\<close>

definition frame_result :: "gobj \<Rightarrow> gobj" where
  "frame_result frame =
     (case as_map (idx frame ''result'') of Some r \<Rightarrow> r | None \<Rightarrow> frame)"

section \<open>Runs\<close>

datatype ('s, 'a) run = Ret 'a 's | Hang 's | Crash 's

definition andThen :: "('s, 'a) run \<Rightarrow> ('a \<Rightarrow> 's \<Rightarrow> ('s, 'b) run) \<Rightarrow> ('s, 'b) run" where
  "andThen m f = (case m of Ret x s \<Rightarrow> f x s | Hang s \<Rightarrow> Hang s | Crash s \<Rightarrow> Crash s)"

lemma andThen_simps [simp]:
  "andThen (Ret x s) f = f x s"
  "andThen (Hang s) f = Hang s"
  "andThen (Crash s) f = Crash s"
  by (simp_all add: andThen_def)

lemma andThen_Ret_iff:
  "andThen m f = Ret y s' \<longleftrightarrow> (\<exists>x s. m = Ret x s \<and> f x s = Ret y s')"
  by (cases m) auto

lemma andThen_assoc: "andThen (andThen m f) g = andThen m (\<lambda>x s. andThen (f x s) g)"
  by (cases m) auto

lemma run_cases_final:
  obtains x s where "m = Ret x s" | s where "m = Hang s" | s where "m = Crash s"
  by (cases m) auto

lemma errors_as_wrap [simp]: "\<not> P (ErrWrap p e) \<Longrightarrow> errors_as P (ErrWrap p e) = errors_as P e"
  by (subst errors_as.simps) simp

lemma errors_as_hit [simp]: "P e \<Longrightarrow> errors_as P e = Some e"
  by (subst errors_as.simps) simp

lemma is_net_timeout_simps [simp]:
  "is_net_timeout (ErrWrap p e) = is_net_timeout e"
  "is_net_timeout (ErrNet t b) = b"
  by (simp_all add: is_net_timeout_def)

end
