(* ===== verification/Classifier.thy ===== *)
theory Classifier
  imports Chunk_Filter Thinking_Step Turn_Gate Errors
begin

text \<open>
  The event classifier (appkit/classifier.go): from one decoded message and the text accumulated so
  far to an outcome. The branches of \<^verbatim>\<open>processChatEvent\<close> that fall through to the next test when
  they do not apply are functions to an option, tried in the order of the code. Logging is left
  out. A \<^verbatim>\<open>json.RawMessage\<close> never occurs in a decoded message, so its branch of
  \<^verbatim>\<open>normalizeEventData\<close> is not modelled.
\<close>

section \<open>Configuration and results\<close>

datatype ChatEventTerminal = ChatEventContinue | ChatEventDeliverableComplete | ChatEventFailedComplete

record ChatEventResult =
  cr_Content :: string
  cr_ThinkingStep :: string
  cr_Terminal :: ChatEventTerminal
  cr_CompletionEvent :: string
  cr_Err :: "goerr option"

record ClassifierConfig =
  cc_DeliverablePhases :: "flags option"
  cc_MinDeliverableRunes :: int
  cc_ThinkingStepEvents :: "flags option"
  cc_TreatStatusIdleAsComplete :: bool
  cc_TreatStreamEndAsComplete :: bool
  cc_GateTurnEndSignals :: bool

text \<open>A classifier is its configuration; \<open>None\<close> is the panic on missing phases.\<close>

definition NewEventClassifier :: "ClassifierConfig \<Rightarrow> ClassifierConfig option" where
  "NewEventClassifier cfg =
     (if cc_DeliverablePhases cfg = None then None
      else Some (if cc_MinDeliverableRunes cfg \<le> 0 then cfg\<lparr>cc_MinDeliverableRunes := 8\<rparr> else cfg))"

definition emptyResult :: ChatEventResult where
  "emptyResult = \<lparr>cr_Content = [], cr_ThinkingStep = [], cr_Terminal = ChatEventContinue, cr_CompletionEvent = [], cr_Err = None\<rparr>"

definition deliverableResult :: "string \<Rightarrow> string \<Rightarrow> ChatEventResult" where
  "deliverableResult content completionEvent =
     emptyResult\<lparr>cr_Content := content, cr_Terminal := ChatEventDeliverableComplete, cr_CompletionEvent := completionEvent\<rparr>"

definition continueResult :: "string \<Rightarrow> ChatEventResult" where
  "continueResult content = emptyResult\<lparr>cr_Content := content\<rparr>"

definition failedResult :: "goerr \<Rightarrow> ChatEventResult" where
  "failedResult e = emptyResult\<lparr>cr_Terminal := ChatEventFailedComplete, cr_Err := Some e\<rparr>"

definition thinkingStepResult :: "string \<Rightarrow> ChatEventResult" where
  "thinkingStepResult step = emptyResult\<lparr>cr_ThinkingStep := TrimSpace step\<rparr>"

definition phases :: "ClassifierConfig \<Rightarrow> flags" where
  "phases cl = (case cc_DeliverablePhases cl of None \<Rightarrow> [] | Some m \<Rightarrow> m)"

definition isDeliverableLoopPhase :: "ClassifierConfig \<Rightarrow> string \<Rightarrow> bool" where
  "isDeliverableLoopPhase cl phase = flag (phases cl) phase"

definition IsDeliverableCompletionEvent :: "ClassifierConfig \<Rightarrow> string \<Rightarrow> bool" where
  "IsDeliverableCompletionEvent cl eventType =
     (if eventType = [] then False
      else if eventType \<in> {''status.idle'', ''status.stopped'', STREAM_END, ''idle_timeout'', ''query_timeout'', ''stream_closed''}
      then True
      else if eventType = EventFinalReport then True
      else if HasPrefix eventType ''soothe.protocol.message.'' then
        isDeliverableLoopPhase cl (TrimPrefix eventType ''soothe.protocol.message.'')
      else Contains eventType ''soothe.output'' \<and> Contains eventType ''responded'')"

definition IsSubstantiveAssistantReply :: "ClassifierConfig \<Rightarrow> string \<Rightarrow> bool" where
  "IsSubstantiveAssistantReply cl content \<longleftrightarrow> int (length (runes (TrimSpace content))) \<ge> cc_MinDeliverableRunes cl"

definition ResolveDeliverableFinalContent :: "ClassifierConfig \<Rightarrow> ChatEventResult \<Rightarrow> string \<Rightarrow> string option" where
  "ResolveDeliverableFinalContent cl r accumulated =
     (if cr_Terminal r \<noteq> ChatEventDeliverableComplete then None
      else if \<not> IsDeliverableCompletionEvent cl (cr_CompletionEvent r) then None
      else if TrimSpace (cr_Content r) \<noteq> [] then Some (TrimSpace (cr_Content r))
      else if TrimSpace accumulated \<noteq> [] \<and> IsSubstantiveAssistantReply cl (TrimSpace accumulated)
      then Some (TrimSpace accumulated)
      else None)"

section \<open>Content\<close>

definition isStreamingMessageType :: "string \<Rightarrow> bool" where
  "isStreamingMessageType t \<longleftrightarrow> t \<in> {''AIMessageChunk'', ''ai_chunk'', ''message_chunk''}"

definition isTerminalMessageType :: "string \<Rightarrow> bool" where
  "isTerminalMessageType t \<longleftrightarrow> t \<in> {''AIMessage'', ''ai'', ''assistant''}"

definition map_block_text :: "gval \<Rightarrow> string" where
  "map_block_text blk = asString (midx (as_map blk) ''text'')"

definition extractContentFromMessage :: "gobj \<Rightarrow> string" where
  "extractContentFromMessage msgMap =
     (case nonempty_str (idx msgMap ''content'') of
        Some c \<Rightarrow> c
      | None \<Rightarrow>
          (case as_list (idx msgMap ''content'') of
             Some (x # xs) \<Rightarrow> concat (map block_text (x # xs))
           | _ \<Rightarrow>
               (case as_list (idx msgMap ''content_blocks'') of
                  Some (x # xs) \<Rightarrow> concat (map map_block_text (x # xs))
                | _ \<Rightarrow> [])))"

text \<open>The first item of a messages payload, when it is an object.\<close>

definition first_map :: "gval \<Rightarrow> gmap" where
  "first_map data = (case as_list data of Some (x # _) \<Rightarrow> as_map x | _ \<Rightarrow> None)"

definition firstMessagePayload :: "gval \<Rightarrow> (string \<times> string \<times> string) option" where
  "firstMessagePayload data =
     (case first_map data of
        None \<Rightarrow> None
      | Some msgMap \<Rightarrow>
          Some (asString (idx msgMap ''type''), extractContentFromMessage msgMap, asString (idx msgMap ''phase'')))"

definition messagesModeAssistantContent :: "EventMessage \<Rightarrow> string option" where
  "messagesModeAssistantContent m =
     (if ev_Mode m \<noteq> ''messages'' then None
      else case first_map (ev_Data m) of
        None \<Rightarrow> None
      | Some msgMap \<Rightarrow>
          if TrimSpace (asString (idx msgMap ''phase'')) \<noteq> [] then None
          else
            (let msgType = asString (idx msgMap ''type'')
             in if msgType \<noteq> [] \<and> \<not> isTerminalMessageType msgType then None
                else
                  (let content = TrimSpace (extractContentFromMessage msgMap)
                   in if content = [] then None else Some content)))"

definition isSubscriptionMetadataMap :: "gmap \<Rightarrow> bool" where
  "isSubscriptionMetadataMap data =
     (case data of
        None \<Rightarrow> False
      | Some d \<Rightarrow>
          has_key d ''loop_id'' \<and> has_key d ''latest_seq''
          \<and> \<not> list_ex (\<lambda>key. TrimSpace (asString (idx d key)) \<noteq> [])
               [''content'', ''text'', ''response'', ''output'', ''message'', ''report'', ''answer''])"

definition content_keys :: "string list" where
  "content_keys = [''final_stdout_message'', ''completion_summary'', ''content'', ''text'', ''response'', ''output'',
     ''message'', ''report'']"

fun first_text :: "gmap \<Rightarrow> string list \<Rightarrow> string option" where
  "first_text d [] = None"
| "first_text d (key # keys) =
     (case nonempty_str (midx d key) of Some v \<Rightarrow> Some v | None \<Rightarrow> first_text d keys)"

definition extractContentFromData :: "gmap \<Rightarrow> string option" where
  "extractContentFromData data =
     (if isSubscriptionMetadataMap data then None
      else case first_text data content_keys of
        Some v \<Rightarrow> Some v
      | None \<Rightarrow>
          (case as_map (midx data ''data'') of
             None \<Rightarrow> None
           | Some nested \<Rightarrow>
               if isSubscriptionMetadataMap (Some nested) then None else first_text (Some nested) content_keys))"

definition isNamespaceMatch :: "string \<Rightarrow> string \<Rightarrow> string \<Rightarrow> bool" where
  "isNamespaceMatch ns dataType pattern \<longleftrightarrow> Contains dataType pattern \<or> Contains ns pattern"

definition isFinalOutputEvent :: "ClassifierConfig \<Rightarrow> string \<Rightarrow> string \<Rightarrow> bool" where
  "isFinalOutputEvent cl dataType ns =
     (let combined = dataType @ '' '' @ ns
      in Contains combined ''final_report'' \<or> list_ex (\<lambda>(phase, _). Contains combined phase) (phases cl))"

text \<open>The outer option is the comma-ok result; a JSON null in a string gives a nil map that is ok.\<close>

definition normalizeEventData :: "gval \<Rightarrow> gmap option" where
  "normalizeEventData data =
     (case data of
        GMap m \<Rightarrow> Some (Some m)
      | GStr s \<Rightarrow> (case parse_json s of Some j \<Rightarrow> dec_map [j] None | None \<Rightarrow> None)
      | _ \<Rightarrow> None)"

section \<open>Classification\<close>

definition data_type_or :: "gmap \<Rightarrow> string \<Rightarrow> string" where
  "data_type_or data dflt = (case nonempty_str (midx data ''type'') of Some t \<Rightarrow> t | None \<Rightarrow> dflt)"

definition thinking_branch :: "ClassifierConfig \<Rightarrow> EventMessage \<Rightarrow> ChatEventResult option" where
  "thinking_branch cl m =
     (case normalizeEventData (ev_Data m) of
        None \<Rightarrow> None
      | Some data \<Rightarrow>
          (let dataType = data_type_or data (EventType m)
           in if dataType = eventLoopHistoryReplayed then Some emptyResult
              else map_option thinkingStepResult (extractThinkingStep (cc_ThinkingStepEvents cl) dataType data)))"

definition allows :: "(string \<Rightarrow> TurnLifecycleGate \<Rightarrow> bool) \<Rightarrow> string \<Rightarrow> TurnLifecycleGate option \<Rightarrow> bool" where
  "allows allow tid gate = (case gate of None \<Rightarrow> False | Some g \<Rightarrow> allow tid g)"

definition stream_end_branch :: "ClassifierConfig \<Rightarrow> EventMessage \<Rightarrow> string \<Rightarrow> TurnLifecycleGate option \<Rightarrow> ChatEventResult option" where
  "stream_end_branch cl m accumulated gate =
     (if ev_Mode m = ''custom'' \<and> IsTurnEndCustomData (ev_Data m) then
        (let frameTurn = event_turn (TrimSpace (ev_TurnID m)) (ev_Data m)
         in if cc_TreatStreamEndAsComplete cl \<and> IsSubstantiveAssistantReply cl accumulated
               \<and> allows AllowStreamEnd frameTurn gate
            then Some (deliverableResult (TrimSpace accumulated) STREAM_END)
            else Some emptyResult)
      else None)"

definition loop_message_branch :: "ClassifierConfig \<Rightarrow> EventMessage \<Rightarrow> ChatEventResult option" where
  "loop_message_branch cl m =
     (case LoopAIMessage_of m of
        None \<Rightarrow> None
      | Some loopMsg \<Rightarrow>
          (let content = LoopAIText loopMsg
           in if content = [] then None
              else if isStreamingMessageType (lm_Type loopMsg) then Some (continueResult content)
              else if isDeliverableLoopPhase cl (lm_Phase loopMsg) \<and> IsSubstantiveAssistantReply cl content
              then Some (deliverableResult content (''soothe.protocol.message.'' @ lm_Phase loopMsg))
              else Some (continueResult content)))"

definition raw_message_branch :: "ClassifierConfig \<Rightarrow> string \<times> string \<times> string \<Rightarrow> ChatEventResult option" where
  "raw_message_branch cl p =
     (case p of (msgType, rawContent, phase) \<Rightarrow>
        if rawContent = [] then None
        else if isTerminalMessageType msgType \<or> msgType = [] then
          (if isDeliverableLoopPhase cl phase \<and> IsSubstantiveAssistantReply cl rawContent
           then Some (deliverableResult rawContent (''soothe.protocol.message.'' @ phase))
           else Some (continueResult rawContent))
        else Some (continueResult rawContent))"

definition messages_branch :: "ClassifierConfig \<Rightarrow> EventMessage \<Rightarrow> ChatEventResult option" where
  "messages_branch cl m =
     (if ev_Mode m \<noteq> ''messages'' then None
      else
        (let payload = firstMessagePayload (ev_Data m)
         in case (case payload of
                    Some (msgType, rawContent, _) \<Rightarrow>
                      if rawContent \<noteq> [] \<and> isStreamingMessageType msgType then Some (continueResult rawContent) else None
                  | None \<Rightarrow> None) of
              Some r \<Rightarrow> Some r
            | None \<Rightarrow>
                or_else (loop_message_branch cl m)
                  (or_else (map_option continueResult (messagesModeAssistantContent m))
                    (Option.bind payload (raw_message_branch cl)))))"

text \<open>An event of an error type: the message, the extracted content, or the type alone.\<close>

definition error_text :: "string \<Rightarrow> string \<Rightarrow> gmap \<Rightarrow> string" where
  "error_text dataType ns data =
     (let errType = (if dataType = [] then ns else dataType)
      in case nonempty_str (midx data ''message'') of
           Some msg \<Rightarrow> errType @ '': '' @ msg
         | None \<Rightarrow> (case extractContentFromData data of Some c \<Rightarrow> errType @ '': '' @ c | None \<Rightarrow> errType))"

definition data_branch :: "ClassifierConfig \<Rightarrow> string \<Rightarrow> gmap \<Rightarrow> ChatEventResult option" where
  "data_branch cl ns data =
     (let dataType = asString (midx data ''type'');
          completionEvent = (if dataType = [] then ns else dataType);
          content = extractContentFromData data;
          output_hit = (if isNamespaceMatch ns dataType ''soothe.output'' \<or> isNamespaceMatch ns dataType ''responded''
            then map_option (\<lambda>c. if isFinalOutputEvent cl dataType ns then deliverableResult c completionEvent
                                 else continueResult c) content
            else None);
          loop_hit = (if isNamespaceMatch ns dataType ''agent_loop.completed'' \<or> isNamespaceMatch ns dataType ''agent_loop.reasoned''
               \<or> isNamespaceMatch ns dataType ''loop.completed''
            then map_option continueResult content else None);
          report_hit = (if isNamespaceMatch ns dataType ''final_report''
            then map_option (\<lambda>c. deliverableResult c completionEvent) content else None);
          error_hit = (if Contains dataType ''soothe.error.'' \<or> Contains ns ''soothe.error.''
            then Some (failedResult (ErrText (error_text dataType ns data))) else None);
          delta_hit = (if isNamespaceMatch ns dataType ''stream'' \<or> isNamespaceMatch ns dataType ''progress''
               \<or> isNamespaceMatch ns dataType EventToolCallUpdatesBatch \<or> isNamespaceMatch ns dataType EventStreamToolCallUpdate
            then map_option continueResult (as_str (midx data ''delta'')) else None)
      in or_else output_hit (or_else loop_hit (or_else report_hit (or_else error_hit delta_hit))))"

definition processChatEvent :: "ClassifierConfig \<Rightarrow> msg option \<Rightarrow> string \<Rightarrow> TurnLifecycleGate option \<Rightarrow> ChatEventResult" where
  "processChatEvent cl msg accumulated gate =
     (case msg of
        Some (MEvent m) \<Rightarrow>
          (case or_else (thinking_branch cl m) (or_else (stream_end_branch cl m accumulated gate) (messages_branch cl m)) of
             Some r \<Rightarrow> r
           | None \<Rightarrow>
               (case normalizeEventData (ev_Data m) of
                  None \<Rightarrow> emptyResult
                | Some data \<Rightarrow> (case data_branch cl (EventType m) data of Some r \<Rightarrow> r | None \<Rightarrow> emptyResult)))
      | Some (MEnvelope m) \<Rightarrow>
          if env_Type m = ''error'' then
            (case env_Error m of
               Some eo \<Rightarrow> failedResult (ErrText (''daemon error ['' @ Itoa (eo_Code eo) @ '']: '' @ eo_Message eo))
             | None \<Rightarrow> failedResult (ErrText (''daemon error ['' @ Itoa (- 32603) @ '']: '')))
          else emptyResult
      | Some (MErrorResponse m) \<Rightarrow> failedResult (ErrText (''daemon error ['' @ er_Code m @ '']: '' @ er_Message m))
      | Some (MStatus m) \<Rightarrow>
          if cc_TreatStatusIdleAsComplete cl \<and> EqualFold (TrimSpace (st_State m)) ''idle''
             \<and> IsSubstantiveAssistantReply cl accumulated then
            (if cc_GateTurnEndSignals cl \<and> \<not> allows AllowIdleComplete (TrimSpace (st_TurnID m)) gate then emptyResult
             else deliverableResult (TrimSpace accumulated) ''status.idle'')
          else emptyResult
      | _ \<Rightarrow> emptyResult)"

text \<open>The result, with the gate after it observed the message.\<close>

definition ClassifyTurn ::
  "ClassifierConfig \<Rightarrow> msg option \<Rightarrow> string \<Rightarrow> TurnLifecycleGate option \<Rightarrow> ChatEventResult \<times> TurnLifecycleGate option" where
  "ClassifyTurn cl msg accumulated gate =
     (let gate' = (case msg of Some m \<Rightarrow> map_option (Observe m) gate | None \<Rightarrow> gate)
      in (processChatEvent cl msg accumulated gate', gate'))"

definition Classify :: "ClassifierConfig \<Rightarrow> msg option \<Rightarrow> string \<Rightarrow> ChatEventResult" where
  "Classify cl msg accumulated = fst (ClassifyTurn cl msg accumulated None)"

section \<open>Lemmas\<close>

lemma result_simps [simp]:
  "cr_Content (deliverableResult c e) = c" "cr_Terminal (deliverableResult c e) = ChatEventDeliverableComplete"
  "cr_CompletionEvent (deliverableResult c e) = e" "cr_Err (deliverableResult c e) = None"
  "cr_Content (continueResult c) = c" "cr_Terminal (continueResult c) = ChatEventContinue"
  "cr_Content emptyResult = []" "cr_Terminal emptyResult = ChatEventContinue" "cr_Err emptyResult = None"
  "cr_Terminal (failedResult x) = ChatEventFailedComplete" "cr_Err (failedResult x) = Some x" "cr_Content (failedResult x) = []"
  "cr_Terminal (thinkingStepResult t) = ChatEventContinue" "cr_Content (thinkingStepResult t) = []"
  "cr_Err (continueResult c) = None" "cr_Err (thinkingStepResult t) = None"
  by (simp_all add: deliverableResult_def continueResult_def failedResult_def thinkingStepResult_def emptyResult_def)

lemma or_else_simps [simp]: "or_else (Some x) y = Some x" "or_else None y = y"
  by (simp_all add: or_else_def)

lemma Classify_event:
  "Classify cl (Some (MEvent m)) acc =
     (case or_else (thinking_branch cl m) (or_else (stream_end_branch cl m acc None) (messages_branch cl m)) of
        Some r \<Rightarrow> r
      | None \<Rightarrow> (case normalizeEventData (ev_Data m) of
           None \<Rightarrow> emptyResult
         | Some data \<Rightarrow> (case data_branch cl (EventType m) data of Some r \<Rightarrow> r | None \<Rightarrow> emptyResult)))"
  by (simp add: Classify_def ClassifyTurn_def processChatEvent_def)

text \<open>A list payload is never normalised, so a messages event goes to its own branch.\<close>

lemma Classify_messages:
  assumes "ev_Mode m = ''messages''" "ev_Data m = GList xs"
  shows "Classify cl (Some (MEvent m)) acc = (case messages_branch cl m of Some r \<Rightarrow> r | None \<Rightarrow> emptyResult)"
  using assms by (simp add: Classify_event thinking_branch_def stream_end_branch_def normalizeEventData_def split: option.split)

lemma stream_types_not_terminal: "isStreamingMessageType t \<Longrightarrow> \<not> isTerminalMessageType t \<and> t \<noteq> []"
  by (auto simp: isStreamingMessageType_def isTerminalMessageType_def)

lemma phase_event_recognised:
  "isDeliverableLoopPhase cl ph \<Longrightarrow> IsDeliverableCompletionEvent cl (''soothe.protocol.message.'' @ ph)"
  using TrimPrefix_append [of "''soothe.protocol.message.''" ph]
  by (simp add: IsDeliverableCompletionEvent_def HasPrefix_def)

lemma resolve_sound:
  assumes "ResolveDeliverableFinalContent cl r acc = Some f"
  shows "f \<noteq> [] \<and> TrimSpace f = f \<and> cr_Terminal r = ChatEventDeliverableComplete
    \<and> IsDeliverableCompletionEvent cl (cr_CompletionEvent r) \<and> (f = TrimSpace (cr_Content r) \<or> f = TrimSpace acc)"
  using assms by (auto simp: ResolveDeliverableFinalContent_def split: if_splits)

lemma runes_nonempty: "runes s = [] \<longleftrightarrow> s = []"
  by (simp add: runes.simps [of s])

lemma substantive_nonempty:
  "IsSubstantiveAssistantReply cl c \<Longrightarrow> 0 < cc_MinDeliverableRunes cl \<Longrightarrow> TrimSpace c \<noteq> []"
  by (auto simp: IsSubstantiveAssistantReply_def)

text \<open>The branch taken by a text message with a phase.\<close>

lemma messages_branch_phase:
  assumes "ev_Mode m = ''messages''" "ev_Data m = GList (GMap mm # xs)" "idx mm ''content'' = GStr c" "c \<noteq> []"
    "asString (idx mm ''phase'') = ph" "TrimSpace ph \<noteq> []" "asString (idx mm ''type'') = t"
  shows "messages_branch cl m = Some
    (if (isTerminalMessageType t \<or> t = []) \<and> isDeliverableLoopPhase cl ph \<and> IsSubstantiveAssistantReply cl c
     then deliverableResult c (''soothe.protocol.message.'' @ ph) else continueResult c)
    \<or> \<not> isTerminalMessageType t \<and> t \<noteq> [] \<and> \<not> isStreamingMessageType t"
proof -
  have ph: "ph \<noteq> []" using assms(6) by auto
  have fm: "firstMessagePayload (ev_Data m) = Some (t, c, ph)" "messagesModeAssistantContent m = None"
    using assms by (simp_all add: firstMessagePayload_def first_map_def extractContentFromMessage_def nonempty_str_def
        messagesModeAssistantContent_def)
  have lm: "loop_message_branch cl m = (if isLoopAssistantPhase ph then
      Some (if isStreamingMessageType (if t = [] then ''ai'' else t) then continueResult c
            else if isDeliverableLoopPhase cl ph \<and> IsSubstantiveAssistantReply cl c
            then deliverableResult c (''soothe.protocol.message.'' @ ph) else continueResult c) else None)"
    using assms ph by (simp add: loop_message_branch_def LoopAIMessage_of_def LoopAIText_def Let_def)
  have nt: "isTerminalMessageType t \<Longrightarrow> \<not> isStreamingMessageType t" "\<not> isStreamingMessageType []" "\<not> isStreamingMessageType ''ai''"
    using stream_types_not_terminal by (auto simp: isStreamingMessageType_def)
  consider "isStreamingMessageType t" | "isTerminalMessageType t \<or> t = []"
    | "\<not> isTerminalMessageType t" "t \<noteq> []" "\<not> isStreamingMessageType t" by blast
  then show ?thesis
  proof cases
    case 1
    then show ?thesis using fm assms(1,4) stream_types_not_terminal [OF 1] by (simp add: messages_branch_def)
  next
    case 2
    then have "\<not> isStreamingMessageType t" "\<not> isStreamingMessageType (if t = [] then ''ai'' else t)" using nt by auto
    then show ?thesis using 2 fm lm assms(1,4)
      by (simp add: messages_branch_def raw_message_branch_def or_else_def split: option.split)
  qed blast
qed

section \<open>Properties\<close>

text \<open>C27: A final assistant message tagged with a deliverable phase and long enough ends the query with
  exactly its trimmed text, whatever was accumulated; the same message as a streaming chunk, or
  with a phase that is not deliverable, only continues it with that text.\<close>

theorem classifier_phase_completion:
  assumes "ev_Mode m = ''messages''" "ev_Data m = GList (GMap mm # xs)" "idx mm ''content'' = GStr c" "c \<noteq> []"
    "idx mm ''phase'' = GStr ph" "TrimSpace ph \<noteq> []" "idx mm ''type'' = GStr t"
    "isTerminalMessageType t \<or> isStreamingMessageType t" "0 < cc_MinDeliverableRunes cl"
  shows "(let r = Classify cl (Some (MEvent m)) acc
          in if isTerminalMessageType t \<and> isDeliverableLoopPhase cl ph \<and> IsSubstantiveAssistantReply cl c
             then ResolveDeliverableFinalContent cl r acc' = Some (TrimSpace c)
             else r = continueResult c \<and> ResolveDeliverableFinalContent cl r acc' = None)"
proof -
  have t: "t \<noteq> []" "isTerminalMessageType t \<or> \<not> isTerminalMessageType t \<and> isStreamingMessageType t"
    using assms(8) by (auto simp: isTerminalMessageType_def isStreamingMessageType_def)
  have "messages_branch cl m = Some
    (if isTerminalMessageType t \<and> isDeliverableLoopPhase cl ph \<and> IsSubstantiveAssistantReply cl c
     then deliverableResult c (''soothe.protocol.message.'' @ ph) else continueResult c)"
    using messages_branch_phase [OF assms(1-4), of ph t cl] assms(5,6,7) t by auto
  then show ?thesis
    using Classify_messages [OF assms(1,2)] phase_event_recognised [of cl ph] substantive_nonempty [of cl c] assms(9)
    by (auto simp: ResolveDeliverableFinalContent_def Let_def)
qed

definition demo_cfg :: ClassifierConfig where
  "demo_cfg = \<lparr>cc_DeliverablePhases = Some [(''quiz'', True)], cc_MinDeliverableRunes = 8, cc_ThinkingStepEvents = None,
     cc_TreatStatusIdleAsComplete = False, cc_TreatStreamEndAsComplete = False, cc_GateTurnEndSignals = False\<rparr>"

theorem classifier_phase_completion_witness:
  "ResolveDeliverableFinalContent demo_cfg (Classify demo_cfg (Some (MEvent (zero_event\<lparr>ev_Mode := ''messages'',
      ev_Data := GList [GMap [(''type'', GStr ''ai''), (''phase'', GStr ''quiz''), (''content'', GStr ''the answer is 42'')]]\<rparr>))) []) []
   = Some ''the answer is 42''"
proof -
  let ?m = "zero_event\<lparr>ev_Mode := ''messages'',
      ev_Data := GList [GMap [(''type'', GStr ''ai''), (''phase'', GStr ''quiz''), (''content'', GStr ''the answer is 42'')]]\<rparr>"
  have 1: "ev_Mode ?m = ''messages''" "TrimSpace ''quiz'' \<noteq> []" "isTerminalMessageType ''ai'' \<or> isStreamingMessageType ''ai''"
    "0 < cc_MinDeliverableRunes demo_cfg" "isTerminalMessageType ''ai''" "isDeliverableLoopPhase demo_cfg ''quiz''"
    "IsSubstantiveAssistantReply demo_cfg ''the answer is 42''" "TrimSpace ''the answer is 42'' = ''the answer is 42''"
    by code_simp+
  from classifier_phase_completion [OF 1(1) _ _ _ _ 1(2) _ 1(3) 1(4)] 1(5-8) show ?thesis by (simp add: Let_def)
qed

text \<open>A text that a message carries only in its content blocks is dropped before the turn pipeline by
  the early filter, although the classifier reads it: with an empty content string the chunk
  counts as not actionable, while classification of the same message gives the text.\<close>

theorem content_blocks_text_dropped:
  assumes "TrimSpace txt \<noteq> []" "ev_Mode m = ''messages''"
    "ev_Data m = GList [GMap [(''type'', GStr ''ai''), (''content'', GStr []),
       (''content_blocks'', GList [GMap [(''type'', GStr ''text''), (''text'', GStr txt)]])], y]"
  shows "ShouldDropStreamChunkEarly ns (ev_Mode m) (ev_Data m)
    \<and> Classify cl (Some (MEvent m)) acc = continueResult (TrimSpace txt)"
proof
  have "trimSpace [] = []" by (simp add: trimSpace_eq)
  moreover have "\<not> hasSuffix ''ai'' ''ToolMessage''" by (simp add: hasSuffix_def)
  ultimately show "ShouldDropStreamChunkEarly ns (ev_Mode m) (ev_Data m)"
    using assms(2,3) by (simp add: ShouldDropStreamChunkEarly_def messageChunkIsNonActionable_def wireBody_def
        dictHasToolInvocation_def is_tool_block_def plainText_def Let_def)
  have "messages_branch cl m = Some (continueResult (TrimSpace txt))"
    using assms by (simp add: messages_branch_def firstMessagePayload_def first_map_def extractContentFromMessage_def
        nonempty_str_def map_block_text_def isStreamingMessageType_def loop_message_branch_def LoopAIMessage_of_def
        messagesModeAssistantContent_def isTerminalMessageType_def Let_def)
  then show "Classify cl (Some (MEvent m)) acc = continueResult (TrimSpace txt)"
    using Classify_messages [OF assms(2,3)] by simp
qed

theorem content_blocks_text_dropped_witness:
  "\<exists>m. ShouldDropStreamChunkEarly None ''messages'' (ev_Data m)
     \<and> cr_Content (Classify demo_cfg (Some (MEvent m)) []) = ''hello''"
proof -
  let ?m = "zero_event\<lparr>ev_Mode := ''messages'', ev_Data := GList [GMap [(''type'', GStr ''ai''), (''content'', GStr []),
       (''content_blocks'', GList [GMap [(''type'', GStr ''text''), (''text'', GStr ''hello'')]])], GNil]\<rparr>"
  have 1: "TrimSpace ''hello'' = ''hello''" "TrimSpace ''hello'' \<noteq> []" by code_simp+
  from content_blocks_text_dropped [OF 1(2), of ?m GNil None demo_cfg "[]"] 1(1) show ?thesis
    by (intro exI [of _ ?m]) simp
qed

text \<open>Final reports other than one: an event whose type contains \<^verbatim>\<open>final_report\<close> is classified as
  a deliverable completion with its content, but unless the type is the one known final report
  event (or reads like an output response) the content is never resolved, so the query is not
  completed by it.\<close>

theorem final_report_not_resolved:
  assumes "ev_Mode m \<noteq> ''messages''" "\<not> (ev_Mode m = ''custom'' \<and> IsTurnEndCustomData (ev_Data m))"
    "ev_Data m = GMap d" "idx d ''type'' = GStr ty" "Contains ty ''final_report''" "ty \<noteq> EventFinalReport"
    "\<not> Contains ty ''responded''" "\<not> Contains ty ''loop.completed''" "\<not> Contains ty ''agent_loop.reasoned''"
    "\<not> HasPrefix ty ''soothe.protocol.message.''" "extractThinkingStep (cc_ThinkingStepEvents cl) ty (Some d) = None"
    "extractContentFromData (Some d) = Some c"
  shows "Classify cl (Some (MEvent m)) acc = deliverableResult c ty
    \<and> ResolveDeliverableFinalContent cl (Classify cl (Some (MEvent m)) acc) acc' = None"
proof -
  have no: "\<not> Contains x ''final_report''" if "x \<in> set [[], ''status.idle'', ''status.stopped'', ''soothe.stream.end'', ''idle_timeout'',
      ''query_timeout'', ''stream_closed'', eventLoopHistoryReplayed]" for x
  proof -
    have "list_all (\<lambda>x. \<not> Contains x ''final_report'') [[], ''status.idle'', ''status.stopped'', ''soothe.stream.end'', ''idle_timeout'',
      ''query_timeout'', ''stream_closed'', eventLoopHistoryReplayed]" by code_simp
    then show ?thesis using that by (auto simp: list_all_iff)
  qed
  have ty: "ty \<noteq> []" "ty \<notin> {''status.idle'', ''status.stopped'', STREAM_END, ''idle_timeout'', ''query_timeout'', ''stream_closed''}"
    "ty \<noteq> eventLoopHistoryReplayed"
    using assms(5) no by (auto simp: STREAM_END_def)
  have et: "EventType m = ty" "normalizeEventData (ev_Data m) = Some (Some d)" "data_type_or (Some d) (EventType m) = ty"
    using assms(3,4) ty(1) by (simp_all add: EventType_def normalizeEventData_def data_type_or_def nonempty_str_def)
  have agent: "\<not> Contains ty ''agent_loop.completed''"
  proof
    assume "Contains ty ''agent_loop.completed''"
    then have "sublist ''agent_loop.completed'' ty" by (simp only: Contains_def)
    moreover have "sublist ''loop.completed'' ''agent_loop.completed''" by code_simp
    ultimately have "Contains ty ''loop.completed''"
      unfolding Contains_def by (rule sublist_order.order_trans [rotated])
    then show False using assms(8) by contradiction
  qed
  have "sublist ''final_report'' ty" using assms(5) by (simp add: Contains_def)
  moreover have "sublist ty (ty @ '' '' @ ty)" by (rule sublist_append_rightI)
  ultimately have "Contains (ty @ '' '' @ ty) ''final_report''" unfolding Contains_def by (rule sublist_order.order_trans)
  then have fin: "isFinalOutputEvent cl ty ty" by (simp add: isFinalOutputEvent_def Let_def)
  have db: "data_branch cl ty (Some d) = Some (deliverableResult c ty)"
    using assms(4,5,7,8,9,12) ty(1) agent fin
    by (simp add: data_branch_def isNamespaceMatch_def Let_def)
  have "thinking_branch cl m = None" "stream_end_branch cl m acc None = None" "messages_branch cl m = None"
    using assms(1,2,11) et ty(3) by (auto simp: thinking_branch_def stream_end_branch_def messages_branch_def Let_def)
  then have cl: "Classify cl (Some (MEvent m)) acc = deliverableResult c ty"
    using et db by (simp add: Classify_event)
  have "\<not> IsDeliverableCompletionEvent cl ty"
    using ty assms(6,7,10) by (simp add: IsDeliverableCompletionEvent_def)
  then show ?thesis unfolding cl by (simp add: ResolveDeliverableFinalContent_def)
qed

theorem final_report_not_resolved_witness:
  "ResolveDeliverableFinalContent demo_cfg (Classify demo_cfg (Some (MEvent (zero_event\<lparr>ev_Mode := ''custom'',
      ev_Data := GMap [(''type'', GStr ''soothe.output.research.final_report''), (''content'', GStr ''report text'')]\<rparr>))) []) [] = None"
proof -
  let ?d = "[(''type'', GStr ''soothe.output.research.final_report''), (''content'', GStr ''report text'')]"
  let ?ty = "''soothe.output.research.final_report''"
  let ?m = "zero_event\<lparr>ev_Mode := ''custom'', ev_Data := GMap ?d\<rparr>"
  have 1: "ev_Mode ?m \<noteq> ''messages''" "\<not> (ev_Mode ?m = ''custom'' \<and> IsTurnEndCustomData (ev_Data ?m))"
    "ev_Data ?m = GMap ?d" "idx ?d ''type'' = GStr ?ty" by code_simp+
  have 2: "Contains ?ty ''final_report''" "?ty \<noteq> EventFinalReport" "\<not> Contains ?ty ''responded''" "\<not> Contains ?ty ''loop.completed''"
    "\<not> Contains ?ty ''agent_loop.reasoned''" "\<not> HasPrefix ?ty ''soothe.protocol.message.''" by code_simp+
  have 3: "extractThinkingStep (cc_ThinkingStepEvents demo_cfg) ?ty (Some ?d) = None"
    "extractContentFromData (Some ?d) = Some ''report text''" by code_simp+
  from final_report_not_resolved [OF 1 2 3] show ?thesis by blast
qed

end
