(* ===== verification/Query_Gate.thy ===== *)
theory Query_Gate
  imports Errors
begin

text \<open>
  The single-flight gate of the application kit (appkit/query_gate.go). Function values are handles:
  a query's cancel function and its sender of the daemon cancel; reading an absent key of a map of
  functions gives the nil function, \<open>None\<close>. The calls of such functions are recorded in order.
\<close>

section \<open>Operations\<close>

record QueryGate =
  qg_cancels :: "string \<Rightarrow> nat option"
  qg_sendCancels :: "string \<Rightarrow> nat option"

datatype call = DaemonCancel nat | LocalCancel nat

definition ErrQueryBusy :: goerr where
  "ErrQueryBusy = ErrText ''appkit: query already in progress for app key''"

definition NewQueryGate :: QueryGate where
  "NewQueryGate = \<lparr>qg_cancels = Map.empty, qg_sendCancels = Map.empty\<rparr>"

definition Acquire :: "string \<Rightarrow> nat option \<Rightarrow> nat option \<Rightarrow> QueryGate \<Rightarrow> goerr option \<times> QueryGate" where
  "Acquire appKey cancel sendCancel g =
     (if qg_cancels g appKey \<noteq> None then (Some ErrQueryBusy, g)
      else
        (let g1 = g\<lparr>qg_cancels := (qg_cancels g)(appKey := cancel)\<rparr>
         in (None, if sendCancel \<noteq> None
                   then g1\<lparr>qg_sendCancels := (qg_sendCancels g1)(appKey := sendCancel)\<rparr> else g1)))"

definition clear_key :: "string \<Rightarrow> QueryGate \<Rightarrow> QueryGate" where
  "clear_key appKey g =
     g\<lparr>qg_cancels := (qg_cancels g)(appKey := None), qg_sendCancels := (qg_sendCancels g)(appKey := None)\<rparr>"

text \<open>The gate is cleared under the lock; the recorded calls happen after it is released.\<close>

definition Cancel :: "string \<Rightarrow> QueryGate \<Rightarrow> call list \<times> QueryGate" where
  "Cancel appKey g =
     (let cancel = qg_cancels g appKey; sendCancel = qg_sendCancels g appKey; g1 = clear_key appKey g
      in if cancel = None \<and> sendCancel = None then ([], g1)
         else ((case sendCancel of Some h \<Rightarrow> [DaemonCancel h] | None \<Rightarrow> [])
               @ (case cancel of Some h \<Rightarrow> [LocalCancel h] | None \<Rightarrow> []), g1))"

definition Release :: "string \<Rightarrow> QueryGate \<Rightarrow> QueryGate" where
  "Release appKey g = clear_key appKey g"

definition SetSendCancel :: "string \<Rightarrow> nat option \<Rightarrow> QueryGate \<Rightarrow> QueryGate" where
  "SetSendCancel appKey sendCancel g =
     (if qg_cancels g appKey = None then g
      else if sendCancel \<noteq> None then g\<lparr>qg_sendCancels := (qg_sendCancels g)(appKey := sendCancel)\<rparr>
      else g)"

definition ReplaceCancel :: "string \<Rightarrow> nat option \<Rightarrow> QueryGate \<Rightarrow> QueryGate" where
  "ReplaceCancel appKey cancel g =
     (if qg_cancels g appKey = None \<or> cancel = None then g
      else g\<lparr>qg_cancels := (qg_cancels g)(appKey := cancel)\<rparr>)"

definition IsActive :: "string \<Rightarrow> QueryGate \<Rightarrow> bool" where
  "IsActive appKey g \<longleftrightarrow> qg_cancels g appKey \<noteq> None"

section \<open>The single-flight contract\<close>

text \<open>A gate on keys: acquiring a held key is refused and changes nothing, a granted key is held,
  and only what frees a key frees it.\<close>

locale single_flight =
  fixes held :: "'k \<Rightarrow> 'g \<Rightarrow> bool"
    and acquire :: "'k \<Rightarrow> 'a \<Rightarrow> 'g \<Rightarrow> bool \<times> 'g"
    and frees :: "'op \<Rightarrow> 'k \<Rightarrow> bool"
    and exec :: "'op \<Rightarrow> 'g \<Rightarrow> 'g"
  assumes acquire_busy: "held k g \<Longrightarrow> acquire k a g = (False, g)"
    and acquire_free: "\<not> held k g \<Longrightarrow> fst (acquire k a g)"
    and exec_keeps: "held k g \<Longrightarrow> \<not> frees op k \<Longrightarrow> held k (exec op g)"
begin

lemma execs_keep: "held k g \<Longrightarrow> \<forall>op\<in>set ops. \<not> frees op k \<Longrightarrow> held k (fold exec ops g)"
  by (induction ops arbitrary: g) (simp_all add: exec_keeps)

text \<open>While nobody frees the key, every further attempt is refused.\<close>

lemma refused_until_freed:
  "held k g \<Longrightarrow> \<forall>op\<in>set ops. \<not> frees op k \<Longrightarrow> \<not> fst (acquire k a (fold exec ops g))"
  using execs_keep acquire_busy by fastforce

end

datatype qop =
    QAcquire string nat "nat option"
  | QCancel string
  | QRelease string
  | QSetSend string "nat option"
  | QReplace string "nat option"

definition qexec :: "qop \<Rightarrow> QueryGate \<Rightarrow> QueryGate" where
  "qexec op g =
     (case op of
        QAcquire k c sc \<Rightarrow> snd (Acquire k (Some c) sc g)
      | QCancel k \<Rightarrow> snd (Cancel k g)
      | QRelease k \<Rightarrow> Release k g
      | QSetSend k sc \<Rightarrow> SetSendCancel k sc g
      | QReplace k c \<Rightarrow> ReplaceCancel k c g)"

definition qfrees :: "qop \<Rightarrow> string \<Rightarrow> bool" where
  "qfrees op k \<longleftrightarrow> op = QCancel k \<or> op = QRelease k"

definition try_acquire :: "string \<Rightarrow> nat \<times> nat option \<Rightarrow> QueryGate \<Rightarrow> bool \<times> QueryGate" where
  "try_acquire k a g = (case Acquire k (Some (fst a)) (snd a) g of (e, g') \<Rightarrow> (e = None, g'))"

interpretation gate: single_flight IsActive try_acquire qfrees qexec
proof unfold_locales
  fix k g a
  show "IsActive k g \<Longrightarrow> try_acquire k a g = (False, g)" by (simp add: try_acquire_def Acquire_def IsActive_def)
  show "\<not> IsActive k g \<Longrightarrow> fst (try_acquire k a g)" by (simp add: try_acquire_def Acquire_def IsActive_def Let_def)
next
  fix k g op
  assume "IsActive k g" "\<not> qfrees op k"
  then show "IsActive k (qexec op g)"
    by (cases op)
       (auto simp: qexec_def qfrees_def IsActive_def Acquire_def Cancel_def Release_def SetSendCancel_def ReplaceCancel_def
         clear_key_def Let_def)
qed

section \<open>Properties\<close>

text \<open>C16: Single flight: after a granted \<^verbatim>\<open>Acquire\<close> of a key, and any further operations on the gate
  that do not cancel or release that key, the key is still held and every \<^verbatim>\<open>Acquire\<close> of it is
  refused with \<^verbatim>\<open>ErrQueryBusy\<close> and leaves the gate as it is.\<close>

theorem query_single_flight:
  assumes "fst (Acquire k (Some c) sc g) = None" "\<forall>op\<in>set ops. \<not> qfrees op k"
  shows "Acquire k (Some c') sc' (fold qexec ops (snd (Acquire k (Some c) sc g)))
    = (Some ErrQueryBusy, fold qexec ops (snd (Acquire k (Some c) sc g)))"
proof -
  have "IsActive k (snd (Acquire k (Some c) sc g))"
    using assms(1) by (auto simp: IsActive_def Acquire_def Let_def split: if_splits)
  from gate.execs_keep [OF this assms(2)] show ?thesis by (simp add: IsActive_def Acquire_def)
qed

theorem query_single_flight_witness:
  "fst (Acquire ''k'' (Some 2) None (fold qexec [QSetSend ''k'' (Some 9), QRelease ''other''] (snd (Acquire ''k'' (Some 1) None NewQueryGate))))
    = Some ErrQueryBusy"
  using query_single_flight [of "''k''" 1 None NewQueryGate "[QSetSend ''k'' (Some 9), QRelease ''other'']" 2 None]
  by (simp add: Acquire_def NewQueryGate_def qfrees_def)

text \<open>The daemon is told first: cancelling a query that is held with a sender calls the daemon
  cancel and then the local cancel, exactly once each and in this order, frees the key and
  touches no other; cancelling an idle key calls nothing.\<close>

theorem cancel_daemon_before_local:
  "(qg_cancels g k = Some c \<and> qg_sendCancels g k = Some sc \<longrightarrow> fst (Cancel k g) = [DaemonCancel sc, LocalCancel c])
   \<and> (qg_cancels g k = None \<and> qg_sendCancels g k = None \<longrightarrow> fst (Cancel k g) = [])
   \<and> \<not> IsActive k (snd (Cancel k g)) \<and> (\<forall>k'. k' \<noteq> k \<longrightarrow> IsActive k' (snd (Cancel k g)) = IsActive k' g)"
  by (auto simp: Cancel_def IsActive_def clear_key_def Let_def)

theorem cancel_daemon_before_local_witness:
  "fst (Cancel ''k'' (snd (Acquire ''k'' (Some 1) (Some 2) NewQueryGate))) = [DaemonCancel 2, LocalCancel 1]"
  using cancel_daemon_before_local [of "snd (Acquire ''k'' (Some 1) (Some 2) NewQueryGate)" "''k''" 1 2]
  by (simp add: Acquire_def NewQueryGate_def Let_def)

text \<open>A cancelled turn breaks the single flight of its successor: \<^verbatim>\<open>Release\<close> is not tied to the
  acquisition it belongs to. When a turn is cancelled, a second turn acquires the key, and the
  first turn then releases it on its way out, the key is free although the second turn is still
  running, and a third is let in.\<close>

theorem stale_release_admits_second:
  assumes "\<not> IsActive k g"
  shows "(let g1 = snd (Acquire k (Some c1) s1 g);
              g2 = snd (Cancel k g1);
              r2 = Acquire k (Some c2) s2 g2;
              g3 = Release k (snd r2)
          in fst r2 = None \<and> \<not> IsActive k g3 \<and> fst (Acquire k (Some c3) s3 g3) = None)"
  using assms by (simp add: Acquire_def Cancel_def Release_def IsActive_def clear_key_def Let_def)

theorem stale_release_admits_second_witness:
  "fst (Acquire ''k'' (Some 3) None (Release ''k'' (snd (Acquire ''k'' (Some 2) None
      (snd (Cancel ''k'' (snd (Acquire ''k'' (Some 1) None NewQueryGate)))))))) = None"
  using stale_release_admits_second [of "''k''" NewQueryGate 1 None 2 None 3 None]
  by (simp add: IsActive_def NewQueryGate_def Let_def)

end
