(* ===== verification/Mux.thy ===== *)
theory Mux
  imports Errors
begin

text \<open>
  The multiplexer of in-flight RPCs and subscription streams (multiplexer.go). Pointers to
  \<^verbatim>\<open>pendingCall\<close> and \<^verbatim>\<open>pendingSubscription\<close> objects are handles into two heaps, so that pointer
  comparison in the unregister closures is comparison of handles; buffered channels are lists,
  oldest first, with the capacity of the code. \<^verbatim>\<open>route\<close> holds the lock only while it looks the waiter
  up, so it is split at that point into \<open>route_lookup\<close> and \<open>route_deliver\<close>.
\<close>

section \<open>State\<close>

record pendingCall =
  pc_id :: string
  pc_replyCh :: "gobj list"
  pc_errCh :: "goerr list"

record pendingSubscription =
  ps_id :: string
  ps_streamCh :: "gobj list"
  ps_done :: bool

record mux =
  mx_rpcs :: "string \<Rightarrow> nat option"
  mx_subs :: "string \<Rightarrow> nat option"
  mx_receipts :: "string \<Rightarrow> nat option"
  mx_calls :: "nat \<Rightarrow> pendingCall option"
  mx_streams :: "nat \<Rightarrow> pendingSubscription option"
  mx_receiptChs :: "nat \<Rightarrow> gobj list"
  mx_next :: nat

definition newMux :: mux where
  "newMux = \<lparr>mx_rpcs = Map.empty, mx_subs = Map.empty, mx_receipts = Map.empty,
     mx_calls = Map.empty, mx_streams = Map.empty, mx_receiptChs = (\<lambda>_. []), mx_next = 0\<rparr>"

section \<open>Registration\<close>

definition registerRPC :: "string \<Rightarrow> mux \<Rightarrow> nat \<times> mux" where
  "registerRPC i m =
     (let pc = mx_next m
      in (pc, m\<lparr>mx_calls := (mx_calls m)(pc \<mapsto> \<lparr>pc_id = i, pc_replyCh = [], pc_errCh = []\<rparr>),
                mx_next := pc + 1,
                mx_rpcs := (mx_rpcs m)(i \<mapsto> pc)\<rparr>))"

definition unregisterRPC :: "nat \<Rightarrow> string \<Rightarrow> mux \<Rightarrow> mux" where
  "unregisterRPC pc i m =
     (if mx_rpcs m i = Some pc then m\<lparr>mx_rpcs := (mx_rpcs m)(i := None)\<rparr> else m)"

definition registerSubscription :: "string \<Rightarrow> mux \<Rightarrow> nat \<times> mux" where
  "registerSubscription i m =
     (let ps = mx_next m
      in (ps, m\<lparr>mx_streams := (mx_streams m)(ps \<mapsto> \<lparr>ps_id = i, ps_streamCh = [], ps_done = False\<rparr>),
                mx_next := ps + 1,
                mx_subs := (mx_subs m)(i \<mapsto> ps)\<rparr>))"

text \<open>The unregister closure of a subscription closes its \<^verbatim>\<open>done\<close> channel; a second call would close
  a closed channel and panic, which is \<open>None\<close>.\<close>

definition unregisterSubscription :: "nat \<Rightarrow> string \<Rightarrow> mux \<Rightarrow> mux option" where
  "unregisterSubscription ps i m =
     (let m1 = (if mx_subs m i = Some ps then m\<lparr>mx_subs := (mx_subs m)(i := None)\<rparr> else m)
      in case mx_streams m1 ps of
           None \<Rightarrow> None
         | Some p \<Rightarrow>
             if ps_done p then None
             else Some (m1\<lparr>mx_streams := (mx_streams m1)(ps \<mapsto> p\<lparr>ps_done := True\<rparr>)\<rparr>))"

section \<open>Routing\<close>

text \<open>A non-blocking send into a buffered channel: dropped when the buffer is full.\<close>

definition try_send :: "nat \<Rightarrow> 'a \<Rightarrow> 'a list \<Rightarrow> 'a list" where
  "try_send cap x ch = (if length ch < cap then ch @ [x] else ch)"

datatype waiter = WCall nat | WStream nat | WReceipt nat

definition route_lookup :: "gmap \<Rightarrow> mux \<Rightarrow> waiter option" where
  "route_lookup frame m =
     (case frame of
        None \<Rightarrow> None
      | Some f \<Rightarrow>
          (let typ = asString (idx f ''type''); i = asString (idx f ''id'')
           in if typ = ''response'' \<or> typ = ''error'' then
                (if i = [] then None else map_option WCall (mx_rpcs m i))
              else if typ = ''next'' \<or> typ = ''complete'' then
                (if i = [] then None else map_option WStream (mx_subs m i))
              else if typ = ''receipt_response'' then
                (let rid = asString (idx f ''receipt'')
                 in if rid = [] then None else map_option WReceipt (mx_receipts m rid))
              else None))"

definition route_deliver :: "gobj \<Rightarrow> waiter \<Rightarrow> mux \<Rightarrow> mux" where
  "route_deliver f w m =
     (case w of
        WCall pc \<Rightarrow>
          (case mx_calls m pc of
             None \<Rightarrow> m
           | Some c \<Rightarrow>
               if asString (idx f ''type'') = ''error'' then
                 m\<lparr>mx_calls := (mx_calls m)
                     (pc \<mapsto> c\<lparr>pc_errCh := try_send 1 (frame_daemon_error f) (pc_errCh c)\<rparr>)\<rparr>
               else
                 m\<lparr>mx_calls := (mx_calls m)
                     (pc \<mapsto> c\<lparr>pc_replyCh := try_send 1 (frame_result f) (pc_replyCh c)\<rparr>)\<rparr>)
      | WStream ps \<Rightarrow>
          (case mx_streams m ps of
             None \<Rightarrow> m
           | Some s \<Rightarrow>
               if ps_done s then m
               else m\<lparr>mx_streams := (mx_streams m)
                        (ps \<mapsto> s\<lparr>ps_streamCh := try_send 16 f (ps_streamCh s)\<rparr>)\<rparr>)
      | WReceipt ch \<Rightarrow>
          m\<lparr>mx_receiptChs := (mx_receiptChs m)(ch := try_send 1 f (mx_receiptChs m ch))\<rparr>)"

definition route :: "gmap \<Rightarrow> mux \<Rightarrow> bool \<times> mux" where
  "route frame m =
     (case frame of
        None \<Rightarrow> (False, m)
      | Some f \<Rightarrow>
          (case route_lookup frame m of
             None \<Rightarrow> (False, m)
           | Some w \<Rightarrow> (True, route_deliver f w m)))"

text \<open>A ready receive from a waiter's channel: the oldest element and the channel without it.\<close>

definition recvReply :: "nat \<Rightarrow> mux \<Rightarrow> (gobj \<times> mux) option" where
  "recvReply pc m =
     (case mx_calls m pc of
        None \<Rightarrow> None
      | Some c \<Rightarrow>
          (case pc_replyCh c of
             [] \<Rightarrow> None
           | r # rs \<Rightarrow> Some (r, m\<lparr>mx_calls := (mx_calls m)(pc \<mapsto> c\<lparr>pc_replyCh := rs\<rparr>)\<rparr>)))"

definition recvErr :: "nat \<Rightarrow> mux \<Rightarrow> (goerr \<times> mux) option" where
  "recvErr pc m =
     (case mx_calls m pc of
        None \<Rightarrow> None
      | Some c \<Rightarrow>
          (case pc_errCh c of
             [] \<Rightarrow> None
           | r # rs \<Rightarrow> Some (r, m\<lparr>mx_calls := (mx_calls m)(pc \<mapsto> c\<lparr>pc_errCh := rs\<rparr>)\<rparr>)))"

definition recvStream :: "nat \<Rightarrow> mux \<Rightarrow> (gobj \<times> mux) option" where
  "recvStream ps m =
     (case mx_streams m ps of
        None \<Rightarrow> None
      | Some s \<Rightarrow>
          (case ps_streamCh s of
             [] \<Rightarrow> None
           | r # rs \<Rightarrow> Some (r, m\<lparr>mx_streams := (mx_streams m)(ps \<mapsto> s\<lparr>ps_streamCh := rs\<rparr>)\<rparr>)))"

section \<open>Invariant\<close>

text \<open>Registered handles are allocated, carry the key they are registered under, registered streams
  are open, and no buffer exceeds its capacity.\<close>

definition mux_inv :: "mux \<Rightarrow> bool" where
  "mux_inv m \<longleftrightarrow>
     (\<forall>i pc. mx_rpcs m i = Some pc \<longrightarrow> (\<exists>c. mx_calls m pc = Some c \<and> pc_id c = i))
   \<and> (\<forall>i ps. mx_subs m i = Some ps \<longrightarrow>
        (\<exists>s. mx_streams m ps = Some s \<and> ps_id s = i \<and> \<not> ps_done s))
   \<and> (\<forall>pc c. mx_calls m pc = Some c \<longrightarrow>
        pc < mx_next m \<and> length (pc_replyCh c) \<le> 1 \<and> length (pc_errCh c) \<le> 1)
   \<and> (\<forall>ps s. mx_streams m ps = Some s \<longrightarrow> ps < mx_next m \<and> length (ps_streamCh s) \<le> 16)
   \<and> mx_receipts m = Map.empty"

lemma try_send_length: "length ch \<le> cap \<Longrightarrow> length (try_send cap x ch) \<le> cap"
  by (simp add: try_send_def)

lemma mux_inv_newMux [simp]: "mux_inv newMux"
  by (simp add: mux_inv_def newMux_def)

lemma mux_invD:
  assumes "mux_inv m"
  shows "mx_rpcs m i = Some pc \<Longrightarrow> \<exists>c. mx_calls m pc = Some c \<and> pc_id c = i"
    and "mx_subs m i = Some ps \<Longrightarrow> \<exists>s. mx_streams m ps = Some s \<and> ps_id s = i \<and> \<not> ps_done s"
    and "mx_calls m pc = Some c \<Longrightarrow>
           pc < mx_next m \<and> length (pc_replyCh c) \<le> 1 \<and> length (pc_errCh c) \<le> 1"
    and "mx_streams m ps = Some s \<Longrightarrow> ps < mx_next m \<and> length (ps_streamCh s) \<le> 16"
    and "mx_receipts m = Map.empty"
  using assms unfolding mux_inv_def by blast+

lemma mux_invI:
  assumes "\<And>i pc. mx_rpcs m i = Some pc \<Longrightarrow> \<exists>c. mx_calls m pc = Some c \<and> pc_id c = i"
    and "\<And>i ps. mx_subs m i = Some ps \<Longrightarrow> \<exists>s. mx_streams m ps = Some s \<and> ps_id s = i \<and> \<not> ps_done s"
    and "\<And>pc c. mx_calls m pc = Some c \<Longrightarrow>
           pc < mx_next m \<and> length (pc_replyCh c) \<le> 1 \<and> length (pc_errCh c) \<le> 1"
    and "\<And>ps s. mx_streams m ps = Some s \<Longrightarrow> ps < mx_next m \<and> length (ps_streamCh s) \<le> 16"
    and "mx_receipts m = Map.empty"
  shows "mux_inv m"
  using assms unfolding mux_inv_def by blast

lemma mux_inv_fresh:
  assumes "mux_inv m"
  shows "mx_calls m (mx_next m) = None" "mx_streams m (mx_next m) = None"
    "mx_rpcs m i \<noteq> Some (mx_next m)" "mx_subs m i \<noteq> Some (mx_next m)"
proof -
  show c: "mx_calls m (mx_next m) = None"
    using mux_invD(3) [OF assms, of "mx_next m"] by (cases "mx_calls m (mx_next m)") auto
  show s: "mx_streams m (mx_next m) = None"
    using mux_invD(4) [OF assms, of "mx_next m"] by (cases "mx_streams m (mx_next m)") auto
  show "mx_rpcs m i \<noteq> Some (mx_next m)" using mux_invD(1) [OF assms, of i "mx_next m"] c by auto
  show "mx_subs m i \<noteq> Some (mx_next m)" using mux_invD(2) [OF assms, of i "mx_next m"] s by auto
qed

lemma mux_inv_call:
  assumes inv: "mux_inv m" and c: "mx_calls m pc = Some c" "pc_id c' = pc_id c"
    "length (pc_replyCh c') \<le> 1" "length (pc_errCh c') \<le> 1"
  shows "mux_inv (m\<lparr>mx_calls := (mx_calls m)(pc \<mapsto> c')\<rparr>)"
proof (rule mux_invI)
  fix i pc'
  assume "mx_rpcs (m\<lparr>mx_calls := (mx_calls m)(pc \<mapsto> c')\<rparr>) i = Some pc'"
  then have "mx_rpcs m i = Some pc'" by simp
  from mux_invD(1) [OF inv this] c
  show "\<exists>d. mx_calls (m\<lparr>mx_calls := (mx_calls m)(pc \<mapsto> c')\<rparr>) pc' = Some d \<and> pc_id d = i"
    by auto
next
  fix pc' d
  assume "mx_calls (m\<lparr>mx_calls := (mx_calls m)(pc \<mapsto> c')\<rparr>) pc' = Some d"
  then show "pc' < mx_next (m\<lparr>mx_calls := (mx_calls m)(pc \<mapsto> c')\<rparr>)
      \<and> length (pc_replyCh d) \<le> 1 \<and> length (pc_errCh d) \<le> 1"
    using mux_invD(3) [OF inv c(1)] mux_invD(3) [OF inv, of pc' d] c by (auto split: if_splits)
qed (use mux_invD(2,4,5) [OF inv] in simp_all)

lemma mux_inv_stream:
  assumes inv: "mux_inv m" and s: "mx_streams m ps = Some s" "ps_id s' = ps_id s"
    "ps_done s' = ps_done s" "length (ps_streamCh s') \<le> 16"
  shows "mux_inv (m\<lparr>mx_streams := (mx_streams m)(ps \<mapsto> s')\<rparr>)"
proof (rule mux_invI)
  fix i ps'
  assume "mx_subs (m\<lparr>mx_streams := (mx_streams m)(ps \<mapsto> s')\<rparr>) i = Some ps'"
  then have "mx_subs m i = Some ps'" by simp
  from mux_invD(2) [OF inv this] s
  show "\<exists>d. mx_streams (m\<lparr>mx_streams := (mx_streams m)(ps \<mapsto> s')\<rparr>) ps' = Some d
      \<and> ps_id d = i \<and> \<not> ps_done d"
    by auto
next
  fix ps' d
  assume "mx_streams (m\<lparr>mx_streams := (mx_streams m)(ps \<mapsto> s')\<rparr>) ps' = Some d"
  then show "ps' < mx_next (m\<lparr>mx_streams := (mx_streams m)(ps \<mapsto> s')\<rparr>) \<and> length (ps_streamCh d) \<le> 16"
    using mux_invD(4) [OF inv s(1)] mux_invD(4) [OF inv, of ps' d] s by (auto split: if_splits)
qed (use mux_invD(1,3,5) [OF inv] in simp_all)

lemma mux_inv_registerRPC:
  assumes inv: "mux_inv m"
  shows "mux_inv (snd (registerRPC i m))"
  by (rule mux_invI)
     (use mux_invD [OF inv] mux_inv_fresh [OF inv] in
       \<open>auto simp: registerRPC_def Let_def less_Suc_eq split: if_splits\<close>)

lemma mux_inv_registerSubscription:
  assumes inv: "mux_inv m"
  shows "mux_inv (snd (registerSubscription i m))"
  by (rule mux_invI)
     (use mux_invD [OF inv] mux_inv_fresh [OF inv] in
       \<open>auto simp: registerSubscription_def Let_def less_Suc_eq split: if_splits\<close>)

lemma mux_inv_unregisterRPC:
  assumes inv: "mux_inv m"
  shows "mux_inv (unregisterRPC pc i m)"
  by (rule mux_invI) (use mux_invD [OF inv] in \<open>auto simp: unregisterRPC_def split: if_splits\<close>)

lemma unregisterSubscription_Some:
  "unregisterSubscription ps i m = Some m' \<longleftrightarrow>
     (\<exists>p. mx_streams m ps = Some p \<and> \<not> ps_done p
        \<and> m' = m\<lparr>mx_subs := (if mx_subs m i = Some ps then (mx_subs m)(i := None) else mx_subs m),
                 mx_streams := (mx_streams m)(ps \<mapsto> p\<lparr>ps_done := True\<rparr>)\<rparr>)"
  by (auto simp: unregisterSubscription_def Let_def split: option.splits)

lemma mux_inv_unregisterSubscription:
  assumes inv: "mux_inv m" and s: "mx_streams m ps = Some s" "ps_id s = i"
    and u: "unregisterSubscription ps i m = Some m'"
  shows "mux_inv m'"
proof -
  have other: "j = i" if "mx_subs m j = Some ps" for j
    using mux_invD(2) [OF inv that] s by auto
  have m': "m' = m\<lparr>mx_subs := (if mx_subs m i = Some ps then (mx_subs m)(i := None) else mx_subs m),
                 mx_streams := (mx_streams m)(ps \<mapsto> s\<lparr>ps_done := True\<rparr>)\<rparr>"
    using u s unfolding unregisterSubscription_Some by auto
  show ?thesis
  proof (rule mux_invI)
    fix j q
    assume "mx_subs m' j = Some q"
    then have j: "mx_subs m j = Some q" "j = i \<Longrightarrow> mx_subs m i \<noteq> Some ps"
      by (auto simp: m' split: if_splits)
    then have "q \<noteq> ps" using other by blast
    with mux_invD(2) [OF inv j(1)]
    show "\<exists>d. mx_streams m' q = Some d \<and> ps_id d = j \<and> \<not> ps_done d" by (simp add: m')
  next
    fix q d
    assume "mx_streams m' q = Some d"
    then show "q < mx_next m' \<and> length (ps_streamCh d) \<le> 16"
      using mux_invD(4) [OF inv s(1)] mux_invD(4) [OF inv, of q d] by (auto simp: m' split: if_splits)
  qed (use mux_invD(1,3,5) [OF inv] in \<open>simp_all add: m'\<close>)
qed

lemma mux_inv_route_deliver:
  assumes inv: "mux_inv m"
  shows "mux_inv (route_deliver f w m)"
proof (cases w)
  case (WCall pc)
  show ?thesis
  proof (cases "mx_calls m pc")
    case (Some c)
    with mux_inv_call [OF inv Some] mux_invD(3) [OF inv Some] WCall show ?thesis
      by (simp add: route_deliver_def try_send_def)
  qed (use inv WCall in \<open>simp add: route_deliver_def\<close>)
next
  case (WStream ps)
  show ?thesis
  proof (cases "mx_streams m ps")
    case (Some s)
    with mux_inv_stream [OF inv Some] mux_invD(4) [OF inv Some] WStream inv show ?thesis
      by (simp add: route_deliver_def try_send_def)
  qed (use inv WStream in \<open>simp add: route_deliver_def\<close>)
next
  case (WReceipt ch)
  then show ?thesis using inv by (simp add: route_deliver_def mux_inv_def)
qed

lemma mux_inv_route: "mux_inv m \<Longrightarrow> mux_inv (snd (route frame m))"
  by (simp add: route_def mux_inv_route_deliver split: option.split)

lemma recvReply_Some:
  "recvReply pc m = Some (r, m') \<longleftrightarrow>
     (\<exists>c rs. mx_calls m pc = Some c \<and> pc_replyCh c = r # rs
        \<and> m' = m\<lparr>mx_calls := (mx_calls m)(pc \<mapsto> c\<lparr>pc_replyCh := rs\<rparr>)\<rparr>)"
  by (auto simp: recvReply_def split: option.splits list.splits)

lemma recvErr_Some:
  "recvErr pc m = Some (r, m') \<longleftrightarrow>
     (\<exists>c rs. mx_calls m pc = Some c \<and> pc_errCh c = r # rs
        \<and> m' = m\<lparr>mx_calls := (mx_calls m)(pc \<mapsto> c\<lparr>pc_errCh := rs\<rparr>)\<rparr>)"
  by (auto simp: recvErr_def split: option.splits list.splits)

lemma recvStream_Some:
  "recvStream ps m = Some (r, m') \<longleftrightarrow>
     (\<exists>s rs. mx_streams m ps = Some s \<and> ps_streamCh s = r # rs
        \<and> m' = m\<lparr>mx_streams := (mx_streams m)(ps \<mapsto> s\<lparr>ps_streamCh := rs\<rparr>)\<rparr>)"
  by (auto simp: recvStream_def split: option.splits list.splits)

lemma mux_inv_recvReply: "mux_inv m \<Longrightarrow> recvReply pc m = Some (r, m') \<Longrightarrow> mux_inv m'"
  unfolding recvReply_Some by (elim exE conjE) (simp, rule mux_inv_call, auto dest: mux_invD(3))

lemma mux_inv_recvErr: "mux_inv m \<Longrightarrow> recvErr pc m = Some (r, m') \<Longrightarrow> mux_inv m'"
  unfolding recvErr_Some by (elim exE conjE) (simp, rule mux_inv_call, auto dest: mux_invD(3))

lemma mux_inv_recvStream: "mux_inv m \<Longrightarrow> recvStream ps m = Some (r, m') \<Longrightarrow> mux_inv m'"
  unfolding recvStream_Some by (elim exE conjE) (simp, rule mux_inv_stream, auto dest: mux_invD(4))

section \<open>The registry contract\<close>

text \<open>What RPC and stream clients rely on: a registration is visible under its key at once, handles
  are never reused, and a closure removes only its own registration. An unregister that panics
  has no result.\<close>

locale waiter_registry =
  fixes inv :: "'m \<Rightarrow> bool"
    and lookup :: "'m \<Rightarrow> string \<Rightarrow> nat option"
    and register :: "string \<Rightarrow> 'm \<Rightarrow> nat \<times> 'm"
    and unregister :: "nat \<Rightarrow> string \<Rightarrow> 'm \<Rightarrow> 'm option"
  assumes register_lookup:
      "inv m \<Longrightarrow> register i m = (h, m') \<Longrightarrow> lookup m' = (lookup m)(i \<mapsto> h)"
    and register_fresh: "inv m \<Longrightarrow> register i m = (h, m') \<Longrightarrow> lookup m j \<noteq> Some h"
    and register_inv: "inv m \<Longrightarrow> register i m = (h, m') \<Longrightarrow> inv m'"
    and unregister_lookup:
      "unregister h i m = Some m' \<Longrightarrow>
         lookup m' = (if lookup m i = Some h then (lookup m)(i := None) else lookup m)"
begin

lemma own_unregister:
  assumes "inv m" "register i m = (h, m1)" "unregister h i m1 = Some m2"
  shows "lookup m2 = (lookup m)(i := None)"
  using register_lookup [OF assms(1,2)] unregister_lookup [OF assms(3)] by auto

lemma stale_unregister:
  assumes "inv m" "register i m = (h1, m1)" "register i m1 = (h2, m2)" "unregister h1 i m2 = Some m3"
  shows "lookup m3 = lookup m2 \<and> lookup m3 i = Some h2 \<and> h1 \<noteq> h2"
proof -
  have inv1: "inv m1" using register_inv assms by blast
  have "lookup m2 = (lookup m1)(i \<mapsto> h2)" by (rule register_lookup [OF inv1 assms(3)])
  moreover have "h1 \<noteq> h2"
    using register_fresh [OF inv1 assms(3), of i] register_lookup [OF assms(1,2)] by auto
  ultimately show ?thesis using unregister_lookup [OF assms(4)] by simp
qed

lemma unregister_other:
  assumes "unregister h i m = Some m'" "j \<noteq> i"
  shows "lookup m' j = lookup m j"
  using unregister_lookup [OF assms(1)] assms(2) by simp

end

interpretation rpcs: waiter_registry mux_inv mx_rpcs registerRPC "\<lambda>h i m. Some (unregisterRPC h i m)"
proof unfold_locales
  fix m i h m'
  assume inv: "mux_inv m" and r: "registerRPC i m = (h, m')"
  show "mx_rpcs m' = (mx_rpcs m)(i \<mapsto> h)" using r by (auto simp: registerRPC_def Let_def)
  show "mx_rpcs m j \<noteq> Some h" for j
    using r mux_inv_fresh [OF inv] by (auto simp: registerRPC_def Let_def)
  show "mux_inv m'" using mux_inv_registerRPC [OF inv, of i] r by simp
next
  fix h i m m'
  assume "Some (unregisterRPC h i m) = Some m'"
  then show "mx_rpcs m' = (if mx_rpcs m i = Some h then (mx_rpcs m)(i := None) else mx_rpcs m)"
    by (auto simp: unregisterRPC_def)
qed

interpretation subs: waiter_registry mux_inv mx_subs registerSubscription unregisterSubscription
proof unfold_locales
  fix m i h m'
  assume inv: "mux_inv m" and r: "registerSubscription i m = (h, m')"
  show "mx_subs m' = (mx_subs m)(i \<mapsto> h)" using r by (auto simp: registerSubscription_def Let_def)
  show "mx_subs m j \<noteq> Some h" for j
    using r mux_inv_fresh [OF inv] by (auto simp: registerSubscription_def Let_def)
  show "mux_inv m'" using mux_inv_registerSubscription [OF inv, of i] r by simp
next
  fix h i m m'
  assume "unregisterSubscription h i m = Some m'"
  then show "mx_subs m' = (if mx_subs m i = Some h then (mx_subs m)(i := None) else mx_subs m)"
    by (auto simp: unregisterSubscription_Some)
qed

section \<open>Interleavings\<close>

text \<open>Callers register and unregister while a reader routes; a route that has looked its waiter up
  delivers later. The system keeps the outstanding unregister closures and the routes in
  flight.\<close>

record mux_sys =
  ms_mux :: mux
  ms_calls :: "(nat \<times> string) list"
  ms_subs :: "(nat \<times> string) list"
  ms_flight :: "(gobj \<times> waiter) list"

definition mux_start :: mux_sys where
  "mux_start = \<lparr>ms_mux = newMux, ms_calls = [], ms_subs = [], ms_flight = []\<rparr>"

inductive mux_step :: "mux_sys \<Rightarrow> mux_sys \<Rightarrow> bool" where
  RegRPC: "registerRPC i (ms_mux s) = (h, m') \<Longrightarrow>
     mux_step s (s\<lparr>ms_mux := m', ms_calls := (h, i) # ms_calls s\<rparr>)"
| UnregRPC: "(h, i) \<in> set (ms_calls s) \<Longrightarrow>
     mux_step s (s\<lparr>ms_mux := unregisterRPC h i (ms_mux s), ms_calls := remove1 (h, i) (ms_calls s)\<rparr>)"
| RegSub: "registerSubscription i (ms_mux s) = (h, m') \<Longrightarrow>
     mux_step s (s\<lparr>ms_mux := m', ms_subs := (h, i) # ms_subs s\<rparr>)"
| UnregSub: "(h, i) \<in> set (ms_subs s) \<Longrightarrow> unregisterSubscription h i (ms_mux s) = Some m' \<Longrightarrow>
     mux_step s (s\<lparr>ms_mux := m', ms_subs := remove1 (h, i) (ms_subs s)\<rparr>)"
| Lookup: "route_lookup (Some f) (ms_mux s) = Some w \<Longrightarrow>
     mux_step s (s\<lparr>ms_flight := (f, w) # ms_flight s\<rparr>)"
| Deliver: "(f, w) \<in> set (ms_flight s) \<Longrightarrow>
     mux_step s (s\<lparr>ms_mux := route_deliver f w (ms_mux s), ms_flight := remove1 (f, w) (ms_flight s)\<rparr>)"
| TakeReply: "recvReply h (ms_mux s) = Some (r, m') \<Longrightarrow> mux_step s (s\<lparr>ms_mux := m'\<rparr>)"
| TakeErr: "recvErr h (ms_mux s) = Some (e, m') \<Longrightarrow> mux_step s (s\<lparr>ms_mux := m'\<rparr>)"
| TakeStream: "recvStream h (ms_mux s) = Some (r, m') \<Longrightarrow> mux_step s (s\<lparr>ms_mux := m'\<rparr>)"

inductive_cases mux_stepE: "mux_step s s'"

text \<open>Streams hold only frames of their own id, open closures name open streams, and routes in
  flight aim at a waiter of the frame's id.\<close>

definition own_frame :: "string \<Rightarrow> gobj \<Rightarrow> bool" where
  "own_frame i f \<longleftrightarrow>
     asString (idx f ''id'') = i \<and> asString (idx f ''type'') \<in> {''next'', ''complete''}"

definition stream_own :: "mux \<Rightarrow> bool" where
  "stream_own m \<longleftrightarrow>
     (\<forall>ps s. mx_streams m ps = Some s \<longrightarrow> list_all (own_frame (ps_id s)) (ps_streamCh s))"

definition flight_ok :: "mux \<Rightarrow> gobj \<times> waiter \<Rightarrow> bool" where
  "flight_ok m fw =
     (case fw of
        (f, WCall pc) \<Rightarrow> (case mx_calls m pc of Some c \<Rightarrow> pc_id c = asString (idx f ''id'') | None \<Rightarrow> False)
      | (f, WStream ps) \<Rightarrow>
          (case mx_streams m ps of Some s \<Rightarrow> own_frame (ps_id s) f | None \<Rightarrow> False)
      | (f, WReceipt ch) \<Rightarrow> False)"

definition sub_open :: "mux \<Rightarrow> nat \<times> string \<Rightarrow> bool" where
  "sub_open m hi = (case mx_streams m (fst hi) of Some s \<Rightarrow> ps_id s = snd hi \<and> \<not> ps_done s | None \<Rightarrow> False)"

definition sys_inv :: "mux_sys \<Rightarrow> bool" where
  "sys_inv s \<longleftrightarrow>
     mux_inv (ms_mux s) \<and> stream_own (ms_mux s)
   \<and> (\<forall>fw\<in>set (ms_flight s). flight_ok (ms_mux s) fw)
   \<and> (\<forall>hi\<in>set (ms_subs s). sub_open (ms_mux s) hi) \<and> distinct (map fst (ms_subs s))"

text \<open>Objects stay allocated under their id; only closing changes an object's openness.\<close>

definition heap_ext :: "mux \<Rightarrow> mux \<Rightarrow> bool" where
  "heap_ext m m' \<longleftrightarrow>
     (\<forall>pc c. mx_calls m pc = Some c \<longrightarrow> (\<exists>c'. mx_calls m' pc = Some c' \<and> pc_id c' = pc_id c))
   \<and> (\<forall>ps s. mx_streams m ps = Some s \<longrightarrow> (\<exists>s'. mx_streams m' ps = Some s' \<and> ps_id s' = ps_id s))"

definition open_ext :: "nat set \<Rightarrow> mux \<Rightarrow> mux \<Rightarrow> bool" where
  "open_ext X m m' \<longleftrightarrow>
     (\<forall>ps s. ps \<notin> X \<longrightarrow> mx_streams m ps = Some s \<longrightarrow>
        (\<exists>s'. mx_streams m' ps = Some s' \<and> ps_id s' = ps_id s \<and> ps_done s' = ps_done s))"

lemma flight_ok_ext:
  assumes "heap_ext m m'" "flight_ok m fw"
  shows "flight_ok m' fw"
proof -
  obtain f w where fw: "fw = (f, w)" by fastforce
  show ?thesis
    using assms unfolding fw flight_ok_def heap_ext_def
    by (cases w) (fastforce split: option.splits)+
qed

lemma sub_open_ext: "open_ext X m m' \<Longrightarrow> fst hi \<notin> X \<Longrightarrow> sub_open m hi \<Longrightarrow> sub_open m' hi"
  unfolding sub_open_def open_ext_def by (fastforce split: option.splits)

lemma ext_registerRPC:
  assumes "mux_inv m" "registerRPC i m = (h, m')"
  shows "heap_ext m m' \<and> open_ext {} m m' \<and> (stream_own m \<longrightarrow> stream_own m')"
  using assms(2) mux_inv_fresh(1) [OF assms(1)]
  by (auto simp: registerRPC_def Let_def heap_ext_def open_ext_def stream_own_def)

lemma ext_unregisterRPC:
  "heap_ext m (unregisterRPC h i m) \<and> open_ext {} m (unregisterRPC h i m)
   \<and> (stream_own m \<longrightarrow> stream_own (unregisterRPC h i m))"
  by (simp add: unregisterRPC_def heap_ext_def open_ext_def stream_own_def)

lemma ext_registerSubscription:
  assumes "mux_inv m" "registerSubscription i m = (h, m')"
  shows "heap_ext m m' \<and> open_ext {} m m' \<and> (stream_own m \<longrightarrow> stream_own m') \<and> sub_open m' (h, i)
    \<and> mx_streams m h = None"
  using assms(2) mux_inv_fresh(2) [OF assms(1)]
  by (auto simp: registerSubscription_def Let_def heap_ext_def open_ext_def stream_own_def sub_open_def
      split: if_splits)

lemma ext_unregisterSubscription:
  assumes "unregisterSubscription h i m = Some m'"
  shows "heap_ext m m' \<and> open_ext {h} m m' \<and> (stream_own m \<longrightarrow> stream_own m')"
  using assms by (auto simp: unregisterSubscription_Some heap_ext_def open_ext_def stream_own_def split: if_splits)

lemma ext_call:
  "mx_calls m pc = Some c \<Longrightarrow> pc_id c' = pc_id c \<Longrightarrow>
   heap_ext m (m\<lparr>mx_calls := (mx_calls m)(pc \<mapsto> c')\<rparr>) \<and> open_ext {} m (m\<lparr>mx_calls := (mx_calls m)(pc \<mapsto> c')\<rparr>)
   \<and> (stream_own m \<longrightarrow> stream_own (m\<lparr>mx_calls := (mx_calls m)(pc \<mapsto> c')\<rparr>))"
  by (auto simp: heap_ext_def open_ext_def stream_own_def)

lemma ext_stream:
  assumes "mx_streams m ps = Some s" "ps_id s' = ps_id s" "ps_done s' = ps_done s"
    "stream_own m \<Longrightarrow> list_all (own_frame (ps_id s)) (ps_streamCh s')"
  shows "heap_ext m (m\<lparr>mx_streams := (mx_streams m)(ps \<mapsto> s')\<rparr>)
   \<and> open_ext {} m (m\<lparr>mx_streams := (mx_streams m)(ps \<mapsto> s')\<rparr>)
   \<and> (stream_own m \<longrightarrow> stream_own (m\<lparr>mx_streams := (mx_streams m)(ps \<mapsto> s')\<rparr>))"
proof (intro conjI impI)
  show "heap_ext m (m\<lparr>mx_streams := (mx_streams m)(ps \<mapsto> s')\<rparr>)"
    "open_ext {} m (m\<lparr>mx_streams := (mx_streams m)(ps \<mapsto> s')\<rparr>)"
    using assms(1-3) by (auto simp: heap_ext_def open_ext_def)
  assume own: "stream_own m"
  then show "stream_own (m\<lparr>mx_streams := (mx_streams m)(ps \<mapsto> s')\<rparr>)"
    using assms(2) assms(4) [OF own] unfolding stream_own_def by auto
qed

lemma list_all_try_send: "list_all P ch \<Longrightarrow> P x \<Longrightarrow> list_all P (try_send n x ch)"
  by (simp add: try_send_def)

lemma ext_refl: "heap_ext m m \<and> open_ext X m m \<and> (stream_own m \<longrightarrow> stream_own m)"
  by (simp add: heap_ext_def open_ext_def)

lemma ext_route_deliver:
  assumes "flight_ok m (f, w)"
  shows "heap_ext m (route_deliver f w m) \<and> open_ext {} m (route_deliver f w m)
    \<and> (stream_own m \<longrightarrow> stream_own (route_deliver f w m))"
proof (cases w)
  case (WCall pc)
  with assms obtain c where c: "mx_calls m pc = Some c" by (auto simp: flight_ok_def split: option.splits)
  then show ?thesis using WCall ext_call [OF c] by (simp add: route_deliver_def)
next
  case (WStream ps)
  with assms obtain s where s: "mx_streams m ps = Some s"
    and f: "own_frame (ps_id s) f"
    by (auto simp: flight_ok_def split: option.splits)
  show ?thesis
  proof (cases "ps_done s")
    case True
    then show ?thesis using WStream s ext_refl [of m] by (simp add: route_deliver_def)
  next
    case False
    then have e: "route_deliver f w m =
        m\<lparr>mx_streams := (mx_streams m)(ps \<mapsto> s\<lparr>ps_streamCh := try_send 16 f (ps_streamCh s)\<rparr>)\<rparr>"
      using WStream s by (simp add: route_deliver_def)
    show ?thesis unfolding e
      by (rule ext_stream [OF s]) (use f s in \<open>auto simp: stream_own_def intro!: list_all_try_send\<close>)
  qed
next
  case (WReceipt ch)
  then show ?thesis using assms by (simp add: flight_ok_def)
qed

lemma flight_ok_lookup:
  assumes "mux_inv m" "route_lookup (Some f) m = Some w"
  shows "flight_ok m (f, w)"
  using assms(2) mux_invD(1,2,5) [OF assms(1)]
  by (fastforce simp: route_lookup_def flight_ok_def own_frame_def Let_def split: if_splits)

lemma sys_inv_ext:
  assumes inv: "sys_inv s" and m': "mux_inv m'"
    and ext: "heap_ext (ms_mux s) m' \<and> open_ext X (ms_mux s) m' \<and> (stream_own (ms_mux s) \<longrightarrow> stream_own m')"
    and fl: "set fl \<subseteq> set (ms_flight s)" and sb: "set sb \<subseteq> set (ms_subs s)" "distinct (map fst sb)"
    and X: "\<forall>hi\<in>set sb. fst hi \<notin> X"
  shows "sys_inv (s\<lparr>ms_mux := m', ms_flight := fl, ms_subs := sb\<rparr>)"
proof -
  have "\<forall>fw\<in>set fl. flight_ok m' fw"
    using inv fl ext flight_ok_ext unfolding sys_inv_def by blast
  moreover have "\<forall>hi\<in>set sb. sub_open m' hi"
    using inv sb X ext sub_open_ext unfolding sys_inv_def by blast
  ultimately show ?thesis using inv m' ext sb unfolding sys_inv_def by simp
qed

lemma sys_inv_ext_mux:
  assumes inv: "sys_inv s" and m': "mux_inv m'"
    and ext: "heap_ext (ms_mux s) m' \<and> open_ext {} (ms_mux s) m' \<and> (stream_own (ms_mux s) \<longrightarrow> stream_own m')"
  shows "sys_inv (s\<lparr>ms_mux := m'\<rparr>)"
  using sys_inv_ext [OF inv m' ext, of "ms_flight s" "ms_subs s"] inv by (simp add: sys_inv_def)

lemma sys_inv_calls [simp]: "sys_inv (s\<lparr>ms_calls := cs\<rparr>) = sys_inv s"
  by (simp add: sys_inv_def)

lemma remove1_key:
  "distinct (map fst xs) \<Longrightarrow> (h, i) \<in> set xs \<Longrightarrow>
   (\<forall>hi\<in>set (remove1 (h, i) xs). fst hi \<noteq> h) \<and> distinct (map fst (remove1 (h, i) xs))"
proof (induction xs)
  case (Cons x xs)
  have sub: "fst ` set (remove1 (h, i) xs) \<subseteq> fst ` set xs"
    by (rule image_mono [OF set_remove1_subset])
  show ?case
  proof (cases "x = (h, i)")
    case True
    with Cons.prems show ?thesis by (force simp: image_iff)
  next
    case False
    with Cons have "(h, i) \<in> set xs" "fst x \<noteq> h" by (auto simp: image_iff)
    with Cons sub False show ?thesis by auto
  qed
qed simp

lemma sys_inv_step:
  assumes "mux_step s s'" "sys_inv s"
  shows "sys_inv s'"
  using assms
proof (induction rule: mux_step.induct)
  case (RegRPC i s h m')
  then have inv: "mux_inv (ms_mux s)" by (simp add: sys_inv_def)
  have "sys_inv (s\<lparr>ms_mux := m'\<rparr>)"
    by (rule sys_inv_ext_mux [OF RegRPC(2) rpcs.register_inv [OF inv RegRPC(1)]
          ext_registerRPC [OF inv RegRPC(1)]])
  then show ?case by (simp add: sys_inv_def)
next
  case (UnregRPC h i s)
  then have inv: "mux_inv (ms_mux s)" by (simp add: sys_inv_def)
  have "sys_inv (s\<lparr>ms_mux := unregisterRPC h i (ms_mux s)\<rparr>)"
    by (rule sys_inv_ext_mux [OF UnregRPC(2) mux_inv_unregisterRPC [OF inv] ext_unregisterRPC])
  then show ?case by (simp add: sys_inv_def)
next
  case (RegSub i s h m')
  then have inv: "mux_inv (ms_mux s)" by (simp add: sys_inv_def)
  note e = ext_registerSubscription [OF inv RegSub(1)]
  have "sys_inv (s\<lparr>ms_mux := m'\<rparr>)"
    using sys_inv_ext_mux [OF RegSub(2)] subs.register_inv [OF inv RegSub(1)] e by blast
  moreover have "h \<notin> fst ` set (ms_subs s)"
    using e RegSub(2) unfolding sys_inv_def sub_open_def by (auto split: option.splits)
  ultimately show ?case using e unfolding sys_inv_def by simp
next
  case (UnregSub h i s m')
  then have inv: "mux_inv (ms_mux s)" and so: "sub_open (ms_mux s) (h, i)"
    and d: "distinct (map fst (ms_subs s))" by (auto simp: sys_inv_def)
  from so obtain p where p: "mx_streams (ms_mux s) h = Some p" "ps_id p = i"
    by (auto simp: sub_open_def split: option.splits)
  have "sys_inv (s\<lparr>ms_mux := m', ms_flight := ms_flight s, ms_subs := remove1 (h, i) (ms_subs s)\<rparr>)"
    by (rule sys_inv_ext [OF UnregSub(3) mux_inv_unregisterSubscription [OF inv p UnregSub(2)]
          ext_unregisterSubscription [OF UnregSub(2)]])
       (use remove1_key [OF d UnregSub(1)] set_remove1_subset [of "(h, i)" "ms_subs s"] in auto)
  then show ?case by simp
next
  case (Lookup f s w)
  then show ?case using flight_ok_lookup [of "ms_mux s" f w] by (simp add: sys_inv_def)
next
  case (Deliver f w s)
  then have inv: "mux_inv (ms_mux s)" and fo: "flight_ok (ms_mux s) (f, w)"
    by (auto simp: sys_inv_def)
  have "sys_inv (s\<lparr>ms_mux := route_deliver f w (ms_mux s), ms_flight := remove1 (f, w) (ms_flight s),
      ms_subs := ms_subs s\<rparr>)"
    by (rule sys_inv_ext [OF Deliver(2) mux_inv_route_deliver [OF inv] ext_route_deliver [OF fo]])
       (use set_remove1_subset [of "(f, w)" "ms_flight s"] Deliver(2) in \<open>auto simp: sys_inv_def\<close>)
  then show ?case by simp
next
  case (TakeReply h s r m')
  then obtain c rs where c: "mx_calls (ms_mux s) h = Some c"
    and m': "m' = (ms_mux s)\<lparr>mx_calls := (mx_calls (ms_mux s))(h \<mapsto> c\<lparr>pc_replyCh := rs\<rparr>)\<rparr>"
    unfolding recvReply_Some by blast
  from TakeReply(2) have "mux_inv m'" using mux_inv_recvReply TakeReply(1) by (auto simp: sys_inv_def)
  then show ?case using sys_inv_ext_mux [OF TakeReply(2), of m'] ext_call [OF c] m' by simp
next
  case (TakeErr h s e m')
  then obtain c rs where c: "mx_calls (ms_mux s) h = Some c"
    and m': "m' = (ms_mux s)\<lparr>mx_calls := (mx_calls (ms_mux s))(h \<mapsto> c\<lparr>pc_errCh := rs\<rparr>)\<rparr>"
    unfolding recvErr_Some by blast
  from TakeErr(2) have "mux_inv m'" using mux_inv_recvErr TakeErr(1) by (auto simp: sys_inv_def)
  then show ?case using sys_inv_ext_mux [OF TakeErr(2), of m'] ext_call [OF c] m' by simp
next
  case (TakeStream h s r m')
  then obtain c rs where c: "mx_streams (ms_mux s) h = Some c" "ps_streamCh c = r # rs"
    and m': "m' = (ms_mux s)\<lparr>mx_streams := (mx_streams (ms_mux s))(h \<mapsto> c\<lparr>ps_streamCh := rs\<rparr>)\<rparr>"
    unfolding recvStream_Some by blast
  from TakeStream(2) have "mux_inv m'" using mux_inv_recvStream TakeStream(1) by (auto simp: sys_inv_def)
  moreover have "stream_own (ms_mux s) \<Longrightarrow> list_all (own_frame (ps_id c)) rs"
    using c unfolding stream_own_def by fastforce
  ultimately show ?case
    using sys_inv_ext_mux [OF TakeStream(2), of m'] ext_stream [OF c(1)] m' by simp
qed

lemma sys_inv_start: "sys_inv mux_start"
  by (simp add: mux_start_def sys_inv_def stream_own_def) (simp add: newMux_def)

lemma sys_inv_reachable: "mux_step\<^sup>*\<^sup>* mux_start s \<Longrightarrow> sys_inv s"
  by (induction rule: rtranclp_induct) (use sys_inv_start sys_inv_step in blast)+

section \<open>Sequences of frames\<close>

definition route_all :: "gobj list \<Rightarrow> mux \<Rightarrow> mux" where
  "route_all fs m = fold (\<lambda>f m. snd (route (Some f) m)) fs m"

definition answers :: "string \<Rightarrow> gobj \<Rightarrow> bool" where
  "answers i f \<longleftrightarrow>
     asString (idx f ''id'') = i \<and> asString (idx f ''type'') \<in> {''response'', ''error''}"

lemma route_rpcs: "mx_rpcs (snd (route fr m)) = mx_rpcs m \<and> mx_subs (snd (route fr m)) = mx_subs m"
  by (simp add: route_def route_deliver_def split: option.split waiter.split)

text \<open>A frame that does not answer the request leaves its call untouched; one that answers it
  leaves a non-empty reply buffer as it is.\<close>

lemma route_other:
  assumes inv: "mux_inv m" and h: "mx_rpcs m i = Some h" and na: "\<not> answers i f"
  shows "mx_calls (snd (route (Some f) m)) h = mx_calls m h"
proof (cases "route_lookup (Some f) m")
  case (Some w)
  show ?thesis
  proof (cases w)
    case (WCall pc)
    have "asString (idx f ''id'') \<noteq> i" "mx_rpcs m (asString (idx f ''id'')) = Some pc"
      using Some WCall na by (auto simp: route_lookup_def answers_def Let_def split: if_splits)
    then have "pc \<noteq> h" using mux_invD(1) [OF inv] h by (metis option.inject)
    then show ?thesis using Some WCall by (simp add: route_def route_deliver_def split: option.split)
  qed (use Some in \<open>simp_all add: route_def route_deliver_def split: option.split\<close>)
qed (simp add: route_def)

lemma route_full:
  assumes "mx_rpcs m i = Some h" "mx_calls m h = Some c" "pc_replyCh c = [r]" "mux_inv m"
  shows "\<exists>c'. mx_calls (snd (route (Some f) m)) h = Some c' \<and> pc_replyCh c' = [r]"
proof (cases "route_lookup (Some f) m")
  case (Some w)
  then show ?thesis
    using assms(2,3)
    by (cases w) (auto simp: route_def route_deliver_def try_send_def split: option.split)
qed (use assms in \<open>simp add: route_def\<close>)

lemma mux_inv_route_all: "mux_inv m \<Longrightarrow> mux_inv (route_all fs m)"
  by (induction fs arbitrary: m) (simp_all add: route_all_def mux_inv_route)

lemma route_all_rpcs [simp]: "mx_rpcs (route_all fs m) = mx_rpcs m"
  by (induction fs arbitrary: m) (simp_all add: route_all_def route_rpcs)

lemma route_all_other:
  "mux_inv m \<Longrightarrow> mx_rpcs m i = Some h \<Longrightarrow> \<forall>f\<in>set fs. \<not> answers i f \<Longrightarrow>
   mx_calls (route_all fs m) h = mx_calls m h"
  by (induction fs arbitrary: m) (simp_all add: route_all_def mux_inv_route route_rpcs route_other)

lemma route_all_full:
  "mx_rpcs m i = Some h \<Longrightarrow> mx_calls m h = Some c \<Longrightarrow> pc_replyCh c = [r] \<Longrightarrow> mux_inv m \<Longrightarrow>
   \<exists>c'. mx_calls (route_all fs m) h = Some c' \<and> pc_replyCh c' = [r]"
proof (induction fs arbitrary: m c)
  case (Cons f fs)
  obtain c' where "mx_calls (snd (route (Some f) m)) h = Some c'" "pc_replyCh c' = [r]"
    using route_full [OF Cons.prems] by blast
  from Cons.IH [OF _ this] Cons.prems show ?case
    by (simp add: route_all_def route_rpcs mux_inv_route)
qed (simp add: route_all_def)

lemma route_all_append: "route_all (xs @ ys) m = route_all ys (route_all xs m)"
  by (simp add: route_all_def)

section \<open>Properties\<close>

text \<open>C6: In every interleaving of registrations, unregistrations, receives and routes (whose lookup
  and delivery may be separated by any other step), the reply and error buffers hold at most one
  value and the stream buffers at most sixteen, a stream holds only \<^verbatim>\<open>next\<close> and \<^verbatim>\<open>complete\<close> frames that
  carry its own subscription id, and running an outstanding unregister closure never closes a
  channel twice.\<close>

theorem mux_reachable_safe:
  assumes "mux_step\<^sup>*\<^sup>* mux_start s"
  shows "(\<forall>h c. mx_calls (ms_mux s) h = Some c \<longrightarrow>
            length (pc_replyCh c) \<le> 1 \<and> length (pc_errCh c) \<le> 1)
    \<and> (\<forall>h p. mx_streams (ms_mux s) h = Some p \<longrightarrow>
            length (ps_streamCh p) \<le> 16 \<and> list_all (own_frame (ps_id p)) (ps_streamCh p))
    \<and> (\<forall>(h, i)\<in>set (ms_subs s). unregisterSubscription h i (ms_mux s) \<noteq> None)"
proof -
  have inv: "mux_inv (ms_mux s)" "stream_own (ms_mux s)" "\<forall>hi\<in>set (ms_subs s). sub_open (ms_mux s) hi"
    using sys_inv_reachable [OF assms] by (simp_all add: sys_inv_def)
  have "unregisterSubscription h i (ms_mux s) \<noteq> None" if "(h, i) \<in> set (ms_subs s)" for h i
    using inv(3) that unfolding sub_open_def unregisterSubscription_def
    by (fastforce simp: Let_def split: option.splits)
  then show ?thesis
    using mux_invD(3,4) [OF inv(1)] inv(2) unfolding stream_own_def by blast
qed

theorem mux_reachable_safe_witness:
  "length (pc_replyCh (the (mx_calls (ms_mux (mux_start\<lparr>ms_mux := snd (registerRPC ''7'' newMux),
      ms_calls := [(0, ''7'')]\<rparr>)) 0))) \<le> 1"
proof -
  have r: "registerRPC ''7'' (ms_mux mux_start) = (0, snd (registerRPC ''7'' newMux))"
    by (simp add: mux_start_def registerRPC_def newMux_def)
  from mux_step.RegRPC [OF r]
  have "mux_step\<^sup>*\<^sup>* mux_start
      (mux_start\<lparr>ms_mux := snd (registerRPC ''7'' newMux), ms_calls := [(0, ''7'')]\<rparr>)"
    by (simp add: mux_start_def)
  from mux_reachable_safe [OF this] show ?thesis by (simp add: registerRPC_def newMux_def)
qed

text \<open>The first response wins and nothing else interferes: after a request is registered, any
  frames that do not answer it, then a response with its id, then any frames at all, leave exactly
  that response's result to be received.\<close>

theorem rpc_first_response_delivered:
  assumes "mux_inv m" "registerRPC i m = (h, m0)" "i \<noteq> []"
    "\<forall>f\<in>set before. \<not> answers i f"
    "asString (idx resp ''id'') = i" "asString (idx resp ''type'') = ''response''"
  shows "\<exists>m'. recvReply h (route_all (before @ resp # later) m0) = Some (frame_result resp, m')"
proof -
  define m1 where "m1 = route_all before m0"
  have inv0: "mux_inv m0" and r0: "mx_rpcs m0 i = Some h"
    using rpcs.register_inv [OF assms(1,2)] rpcs.register_lookup [OF assms(1,2)] by auto
  have c0: "mx_calls m0 h = Some \<lparr>pc_id = i, pc_replyCh = [], pc_errCh = []\<rparr>"
    using assms(2) by (auto simp: registerRPC_def Let_def)
  have m1: "mux_inv m1" "mx_rpcs m1 i = Some h"
      "mx_calls m1 h = Some \<lparr>pc_id = i, pc_replyCh = [], pc_errCh = []\<rparr>"
    using mux_inv_route_all [OF inv0] route_all_other [OF inv0 r0 assms(4)] r0 c0
    unfolding m1_def by simp_all
  define m2 where "m2 = snd (route (Some resp) m1)"
  have lk: "route_lookup (Some resp) m1 = Some (WCall h)"
    using m1(2) assms(3,5,6) by (simp add: route_lookup_def Let_def)
  have m2: "mx_calls m2 h = Some \<lparr>pc_id = i, pc_replyCh = [frame_result resp], pc_errCh = []\<rparr>"
    using m1(3) assms(6) by (simp add: m2_def route_def lk route_deliver_def try_send_def)
  have "mux_inv m2" "mx_rpcs m2 i = Some h"
    using mux_inv_route [OF m1(1)] m1(2) route_rpcs by (simp_all add: m2_def)
  with m2 obtain c' where "mx_calls (route_all later m2) h = Some c'" "pc_replyCh c' = [frame_result resp]"
    using route_all_full [of m2 i h _ "frame_result resp" later] by auto
  moreover have "route_all (before @ resp # later) m0 = route_all later m2"
    by (simp add: route_all_append m1_def m2_def) (simp add: route_all_def)
  ultimately show ?thesis by (auto simp: recvReply_Some)
qed

theorem rpc_first_response_delivered_witness:
  "\<exists>m'. recvReply 0 (route_all ([[(''type'', GStr ''next''), (''id'', GStr ''a'')]] @
      [(''type'', GStr ''response''), (''id'', GStr ''a''), (''result'', GMap [(''ok'', GBool True)])] # [])
      (snd (registerRPC ''a'' newMux)))
    = Some ([(''ok'', GBool True)], m')"
  using rpc_first_response_delivered [of newMux "''a''" 0 "snd (registerRPC ''a'' newMux)"
      "[[(''type'', GStr ''next''), (''id'', GStr ''a'')]]"
      "[(''type'', GStr ''response''), (''id'', GStr ''a''), (''result'', GMap [(''ok'', GBool True)])]" "[]"]
  by (simp add: answers_def frame_result_def) (simp add: registerRPC_def newMux_def)

text \<open>An unregister closure that runs after its key was registered again leaves the newer
  registration in place, for RPC waiters and for stream waiters.\<close>

theorem stale_unregister_keeps_newer:
  assumes "mux_inv m"
  shows "(registerRPC i m = (h1, m1) \<and> registerRPC i m1 = (h2, m2) \<longrightarrow>
            mx_rpcs (unregisterRPC h1 i m2) = mx_rpcs m2 \<and> mx_rpcs m2 i = Some h2 \<and> h1 \<noteq> h2)
    \<and> (registerSubscription i m = (h1, m1) \<and> registerSubscription i m1 = (h2, m2)
         \<and> unregisterSubscription h1 i m2 = Some m3 \<longrightarrow>
            mx_subs m3 = mx_subs m2 \<and> mx_subs m3 i = Some h2 \<and> h1 \<noteq> h2)"
  using rpcs.stale_unregister [OF assms, of i h1 m1 h2 m2 "unregisterRPC h1 i m2"]
    subs.stale_unregister [OF assms, of i h1 m1 h2 m2 m3]
  by (intro conjI impI) (elim conjE, simp)+

theorem stale_unregister_keeps_newer_witness:
  "mx_rpcs (unregisterRPC 0 ''a'' (snd (registerRPC ''a'' (snd (registerRPC ''a'' newMux))))) ''a'' = Some 1"
  using stale_unregister_keeps_newer [OF mux_inv_newMux, of "''a''" 0 "snd (registerRPC ''a'' newMux)" 1
      "snd (registerRPC ''a'' (snd (registerRPC ''a'' newMux)))"]
  by (simp add: registerRPC_def newMux_def)

end
