(* ===== verification/Broadcaster.thy ===== *)
theory Broadcaster
  imports Mux "HOL-Library.AList"
begin

text \<open>
  The fan-out of server-sent events (appkit/broadcaster.go). Go maps that are iterated are
  association lists, in the order of one iteration; channels are handles into a heap of buffers of
  capacity 100. Closing a closed channel and sending on one panic. The subscriber ids of
  \<^verbatim>\<open>google/uuid\<close> are arguments; the lock makes every operation one step.
\<close>

section \<open>State and operations\<close>

record SSEEvent =
  sse_Type :: string
  sse_Data :: gval

record sse_chan =
  ch_buf :: "SSEEvent list"
  ch_closed :: bool

record SSEBroadcaster =
  bc_subscribers :: "(string \<times> (string \<times> nat) list) list"
  bc_chans :: "nat \<Rightarrow> sse_chan"
  bc_next :: nat

definition NewSSEBroadcaster :: SSEBroadcaster where
  "NewSSEBroadcaster = \<lparr>bc_subscribers = [], bc_chans = (\<lambda>_. \<lparr>ch_buf = [], ch_closed = False\<rparr>), bc_next = 0\<rparr>"

fun for_each :: "('a \<Rightarrow> 's \<Rightarrow> ('s, unit) run) \<Rightarrow> 'a list \<Rightarrow> 's \<Rightarrow> ('s, unit) run" where
  "for_each f [] s = Ret () s"
| "for_each f (x # xs) s = andThen (f x s) (\<lambda>_ s'. for_each f xs s')"

definition close_chan :: "nat \<Rightarrow> SSEBroadcaster \<Rightarrow> (SSEBroadcaster, unit) run" where
  "close_chan c b =
     (if ch_closed (bc_chans b c) then Crash b
      else Ret () (b\<lparr>bc_chans := (bc_chans b)(c := (bc_chans b c)\<lparr>ch_closed := True\<rparr>)\<rparr>))"

definition send_chan :: "SSEEvent \<Rightarrow> nat \<Rightarrow> SSEBroadcaster \<Rightarrow> (SSEBroadcaster, unit) run" where
  "send_chan event c b =
     (if ch_closed (bc_chans b c) then Crash b
      else Ret () (b\<lparr>bc_chans := (bc_chans b)
        (c := (bc_chans b c)\<lparr>ch_buf := try_send 100 event (ch_buf (bc_chans b c))\<rparr>)\<rparr>))"

definition sse_Subscribe :: "string \<Rightarrow> string \<Rightarrow> SSEBroadcaster \<Rightarrow> nat \<times> SSEBroadcaster" where
  "sse_Subscribe appKey subscriberID b =
     (let ch = bc_next b;
          subs = (case map_of (bc_subscribers b) appKey of None \<Rightarrow> [] | Some s \<Rightarrow> s)
      in (ch, b\<lparr>bc_next := ch + 1,
               bc_chans := (bc_chans b)(ch := \<lparr>ch_buf = [], ch_closed = False\<rparr>),
               bc_subscribers := AList.update appKey (AList.update subscriberID ch subs) (bc_subscribers b)\<rparr>))"

definition sse_Unsubscribe :: "string \<Rightarrow> nat option \<Rightarrow> SSEBroadcaster \<Rightarrow> (SSEBroadcaster, unit) run" where
  "sse_Unsubscribe appKey ch b =
     (case map_of (bc_subscribers b) appKey of
        None \<Rightarrow> Ret () b
      | Some subs \<Rightarrow>
          (let put_subs = (\<lambda>ss b'. b'\<lparr>bc_subscribers :=
                             (if ss = [] then AList.delete appKey (bc_subscribers b')
                              else AList.update appKey ss (bc_subscribers b'))\<rparr>)
           in case find (\<lambda>(i, c). Some c = ch) subs of
                Some (i, c) \<Rightarrow> andThen (close_chan c b) (\<lambda>_ b'. Ret () (put_subs (AList.delete i subs) b'))
              | None \<Rightarrow> Ret () (put_subs subs b)))"

definition Broadcast :: "string \<Rightarrow> SSEEvent \<Rightarrow> SSEBroadcaster \<Rightarrow> (SSEBroadcaster, unit) run" where
  "Broadcast appKey event b =
     (case map_of (bc_subscribers b) appKey of
        None \<Rightarrow> Ret () b
      | Some subs \<Rightarrow> for_each (send_chan event) (map snd subs) b)"

definition sse_Close :: "string \<Rightarrow> SSEBroadcaster \<Rightarrow> (SSEBroadcaster, unit) run" where
  "sse_Close appKey b =
     (case map_of (bc_subscribers b) appKey of
        None \<Rightarrow> Ret () b
      | Some subs \<Rightarrow>
          andThen (for_each close_chan (map snd subs) b)
            (\<lambda>_ b'. Ret () (b'\<lparr>bc_subscribers := AList.delete appKey (bc_subscribers b')\<rparr>)))"

definition CloseAll :: "SSEBroadcaster \<Rightarrow> (SSEBroadcaster, unit) run" where
  "CloseAll b =
     for_each (\<lambda>(sid, subs) b1.
        andThen (for_each close_chan (map snd subs) b1)
          (\<lambda>_ b'. Ret () (b'\<lparr>bc_subscribers := AList.delete sid (bc_subscribers b')\<rparr>)))
       (bc_subscribers b) b"

text \<open>A subscriber takes the oldest buffered event.\<close>

definition take_event :: "nat \<Rightarrow> SSEBroadcaster \<Rightarrow> SSEEvent list \<times> SSEBroadcaster" where
  "take_event c b =
     (case ch_buf (bc_chans b c) of
        [] \<Rightarrow> ([], b)
      | e # es \<Rightarrow> ([e], b\<lparr>bc_chans := (bc_chans b)(c := (bc_chans b c)\<lparr>ch_buf := es\<rparr>)\<rparr>))"

section \<open>Invariant\<close>

definition sub_at :: "SSEBroadcaster \<Rightarrow> string \<Rightarrow> string \<Rightarrow> nat option" where
  "sub_at b k i = (case map_of (bc_subscribers b) k of Some ss \<Rightarrow> map_of ss i | None \<Rightarrow> None)"

text \<open>A registered channel is allocated, open, and registered once; buffers keep to the capacity.\<close>

definition bc_inv :: "SSEBroadcaster \<Rightarrow> bool" where
  "bc_inv b \<longleftrightarrow>
     distinct (map fst (bc_subscribers b))
     \<and> (\<forall>k ss. map_of (bc_subscribers b) k = Some ss \<longrightarrow> distinct (map fst ss))
     \<and> (\<forall>k i k' i' c. sub_at b k i = Some c \<longrightarrow> sub_at b k' i' = Some c \<longrightarrow> k = k' \<and> i = i')
     \<and> (\<forall>k i c. sub_at b k i = Some c \<longrightarrow> c < bc_next b \<and> \<not> ch_closed (bc_chans b c))
     \<and> (\<forall>c. length (ch_buf (bc_chans b c)) \<le> 100)"

definition subs_of :: "SSEBroadcaster \<Rightarrow> string \<Rightarrow> nat set" where
  "subs_of b k = {c. \<exists>i. sub_at b k i = Some c}"

lemma bc_inv_New: "bc_inv NewSSEBroadcaster"
  by (simp add: bc_inv_def NewSSEBroadcaster_def sub_at_def)

lemma subs_list:
  assumes "bc_inv b" "map_of (bc_subscribers b) k = Some ss"
  shows "distinct (map snd ss)" "set (map snd ss) = subs_of b k" "\<forall>c\<in>set (map snd ss). \<not> ch_closed (bc_chans b c)"
proof -
  have d: "distinct (map fst ss)" using assms by (auto simp: bc_inv_def)
  have at: "sub_at b k i = Some c \<longleftrightarrow> (i, c) \<in> set ss" for i c using assms(2) d by (simp add: sub_at_def)
  show "set (map snd ss) = subs_of b k" by (force simp: subs_of_def at)
  show "\<forall>c\<in>set (map snd ss). \<not> ch_closed (bc_chans b c)" using assms(1) at by (fastforce simp: bc_inv_def)
  have inj: "i = i'" if "(i, c) \<in> set ss" "(i', c) \<in> set ss" for i i' c
    using assms(1) that at unfolding bc_inv_def by blast
  show "distinct (map snd ss)"
    unfolding distinct_map
  proof
    show "distinct ss" using d by (simp add: distinct_map)
    show "inj_on snd (set ss)" using inj by (force simp: inj_on_def)
  qed
qed

lemma send_loop:
  "distinct cs \<Longrightarrow> \<forall>c\<in>set cs. \<not> ch_closed (bc_chans b c) \<Longrightarrow>
   for_each (send_chan e) cs b
   = Ret () (b\<lparr>bc_chans := \<lambda>c. if c \<in> set cs then (bc_chans b c)\<lparr>ch_buf := try_send 100 e (ch_buf (bc_chans b c))\<rparr> else bc_chans b c\<rparr>)"
  by (induction cs arbitrary: b) (auto simp: send_chan_def fun_eq_iff)

lemma close_loop:
  "distinct cs \<Longrightarrow> \<forall>c\<in>set cs. \<not> ch_closed (bc_chans b c) \<Longrightarrow>
   for_each close_chan cs b
   = Ret () (b\<lparr>bc_chans := \<lambda>c. if c \<in> set cs then (bc_chans b c)\<lparr>ch_closed := True\<rparr> else bc_chans b c\<rparr>)"
proof (induction cs arbitrary: b)
  case (Cons a cs)
  let ?b = "b\<lparr>bc_chans := (bc_chans b)(a := (bc_chans b a)\<lparr>ch_closed := True\<rparr>)\<rparr>"
  have "\<forall>c\<in>set cs. \<not> ch_closed (bc_chans ?b c)" using Cons.prems by auto
  from Cons.IH [OF _ this] Cons.prems show ?case by (auto simp: close_chan_def fun_eq_iff)
qed simp

text \<open>Removing registrations, and changing channels that stay open, keeps the invariant.\<close>

lemma bc_inv_parts:
  assumes "bc_inv b"
  shows "distinct (map fst (bc_subscribers b))" "map_of (bc_subscribers b) k = Some ss \<Longrightarrow> distinct (map fst ss)"
    "length (ch_buf (bc_chans b c)) \<le> 100" "sub_at b k i = Some c \<Longrightarrow> c < bc_next b \<and> \<not> ch_closed (bc_chans b c)"
    "sub_at b k i = Some c \<Longrightarrow> sub_at b k' i' = Some c \<Longrightarrow> k = k' \<and> i = i'"
  using assms unfolding bc_inv_def by blast+

lemma bc_inv_shrink:
  assumes "bc_inv b" "distinct (map fst (bc_subscribers b'))"
    "\<And>k ss. map_of (bc_subscribers b') k = Some ss \<Longrightarrow> distinct (map fst ss)"
    "\<And>k i c. sub_at b' k i = Some c \<Longrightarrow> sub_at b k i = Some c \<and> \<not> ch_closed (bc_chans b' c)"
    "bc_next b' = bc_next b" "\<And>c. length (ch_buf (bc_chans b' c)) \<le> 100"
  shows "bc_inv b'"
proof -
  have "k = k' \<and> i = i'" if "sub_at b' k i = Some c" "sub_at b' k' i' = Some c" for k i k' i' c
    using that assms(4) bc_inv_parts(5) [OF assms(1)] by blast
  moreover have "c < bc_next b' \<and> \<not> ch_closed (bc_chans b' c)" if "sub_at b' k i = Some c" for k i c
    using that assms(4,5) bc_inv_parts(4) [OF assms(1)] by metis
  ultimately show ?thesis unfolding bc_inv_def using assms(2,3,6) by blast
qed

lemma Broadcast_effect:
  assumes "bc_inv b"
  shows "Broadcast k e b = Ret () (b\<lparr>bc_chans := \<lambda>c. if c \<in> subs_of b k
     then (bc_chans b c)\<lparr>ch_buf := try_send 100 e (ch_buf (bc_chans b c))\<rparr> else bc_chans b c\<rparr>)"
proof (cases "map_of (bc_subscribers b) k")
  case None
  then show ?thesis by (simp add: Broadcast_def subs_of_def sub_at_def)
next
  case (Some ss)
  from send_loop [OF subs_list(1,3) [OF assms Some]] Some show ?thesis
    by (simp only: Broadcast_def option.case subs_list(2) [OF assms Some])
qed

lemma Broadcast_inv:
  assumes "bc_inv b" "Broadcast k e b = Ret u b'" shows "bc_inv b'"
proof -
  have b': "b' = b\<lparr>bc_chans := \<lambda>c. if c \<in> subs_of b k
     then (bc_chans b c)\<lparr>ch_buf := try_send 100 e (ch_buf (bc_chans b c))\<rparr> else bc_chans b c\<rparr>"
    using assms Broadcast_effect [OF assms(1)] by simp
  have at: "sub_at b' = sub_at b" unfolding b' by (intro ext) (simp add: sub_at_def)
  show ?thesis
  proof (rule bc_inv_shrink [OF assms(1)])
    fix k' i c assume c: "sub_at b' k' i = Some c"
    have "ch_closed (bc_chans b' c) = ch_closed (bc_chans b c)" by (simp add: b')
    with c show "sub_at b k' i = Some c \<and> \<not> ch_closed (bc_chans b' c)"
      using bc_inv_parts(4) [OF assms(1)] unfolding at by blast
  next
    fix c show "length (ch_buf (bc_chans b' c)) \<le> 100"
      using bc_inv_parts(3) [OF assms(1), of c] by (simp add: b' try_send_def)
  qed (use bc_inv_parts(1,2) [OF assms(1)] in \<open>simp_all add: b'\<close>)
qed

lemma Close_effect:
  assumes "bc_inv b"
  shows "sse_Close k b = Ret () (b\<lparr>bc_chans := \<lambda>c. if c \<in> subs_of b k then (bc_chans b c)\<lparr>ch_closed := True\<rparr> else bc_chans b c,
     bc_subscribers := AList.delete k (bc_subscribers b)\<rparr>)"
proof (cases "map_of (bc_subscribers b) k")
  case None
  then have "AList.delete k (bc_subscribers b) = bc_subscribers b" by (simp add: map_of_eq_None_iff delete_idem image_iff)
  with None show ?thesis by (simp add: sse_Close_def subs_of_def sub_at_def)
next
  case (Some ss)
  from close_loop [OF subs_list(1,3) [OF assms Some]] Some show ?thesis
    by (simp only: sse_Close_def option.case subs_list(2) [OF assms Some] andThen_simps) simp
qed

lemma Close_inv:
  assumes "bc_inv b" "sse_Close k b = Ret u b'" shows "bc_inv b'"
proof -
  have b': "b' = b\<lparr>bc_chans := \<lambda>c. if c \<in> subs_of b k then (bc_chans b c)\<lparr>ch_closed := True\<rparr> else bc_chans b c,
     bc_subscribers := AList.delete k (bc_subscribers b)\<rparr>"
    using assms Close_effect [OF assms(1)] by simp
  have at: "sub_at b' k' i = (if k' = k then None else sub_at b k' i)" for k' i
    by (simp add: b' sub_at_def delete_conv')
  have "\<not> ch_closed (bc_chans b' c)" if "sub_at b' k' i = Some c" for k' i c
  proof -
    from that have c: "k' \<noteq> k" "sub_at b k' i = Some c" by (auto simp: at split: if_splits)
    then have "c \<notin> subs_of b k" using bc_inv_parts(5) [OF assms(1)] unfolding subs_of_def by blast
    then show ?thesis using bc_inv_parts(4) [OF assms(1) c(2)] by (simp add: b')
  qed
  then have op: "sub_at b k' i = Some c \<and> \<not> ch_closed (bc_chans b' c)" if "sub_at b' k' i = Some c" for k' i c
    using that by (auto simp: at split: if_splits)
  show ?thesis
  proof (rule bc_inv_shrink [OF assms(1) _ _ op])
    show "distinct (map fst (bc_subscribers b'))"
      using bc_inv_parts(1) [OF assms(1)] by (simp add: b' distinct_delete)
    show "map_of (bc_subscribers b') k' = Some ss \<Longrightarrow> distinct (map fst ss)" for k' ss
      using bc_inv_parts(2) [OF assms(1)] by (simp add: b' delete_conv' split: if_splits)
    show "length (ch_buf (bc_chans b' c)) \<le> 100" for c
      using bc_inv_parts(3) [OF assms(1), of c] by (simp add: b')
    show "bc_next b' = bc_next b" by (simp add: b')
  qed
qed

lemma find_registered:
  assumes "bc_inv b" "map_of (bc_subscribers b) k = Some ss"
  shows "find (\<lambda>(i, c). Some c = ch) ss = None \<Longrightarrow> sub_at b k i \<noteq> ch \<or> ch = None"
    "find (\<lambda>(i, c). Some c = ch) ss = Some (i, c) \<Longrightarrow> ch = Some c \<and> sub_at b k i = Some c"
proof -
  have at: "sub_at b k j = Some d \<longleftrightarrow> (j, d) \<in> set ss" for j d
    using assms(2) bc_inv_parts(2) [OF assms] by (simp add: sub_at_def)
  show "find (\<lambda>(i, c). Some c = ch) ss = None \<Longrightarrow> sub_at b k i \<noteq> ch \<or> ch = None"
    using at [of i] by (cases ch) (auto simp: find_None_iff)
  show "find (\<lambda>(i, c). Some c = ch) ss = Some (i, c) \<Longrightarrow> ch = Some c \<and> sub_at b k i = Some c"
    unfolding find_Some_iff using at [of i c] by (auto simp: in_set_conv_nth)
qed

text \<open>Unsubscribing closes and removes exactly the given channel of the key.\<close>

lemma Unsubscribe_effect:
  assumes "bc_inv b"
  shows "\<exists>b'. sse_Unsubscribe k ch b = Ret () b' \<and> bc_next b' = bc_next b
    \<and> distinct (map fst (bc_subscribers b')) \<and> (\<forall>k ss. map_of (bc_subscribers b') k = Some ss \<longrightarrow> distinct (map fst ss))
    \<and> (\<forall>k' i. sub_at b' k' i = (if k' = k \<and> sub_at b k i = ch then None else sub_at b k' i))
    \<and> (\<forall>c. bc_chans b' c = (if ch = Some c \<and> c \<in> subs_of b k then (bc_chans b c)\<lparr>ch_closed := True\<rparr> else bc_chans b c))"
proof (cases "map_of (bc_subscribers b) k")
  case None
  then show ?thesis using bc_inv_parts(1,2) [OF assms]
    by (auto simp: sse_Unsubscribe_def sub_at_def subs_of_def)
next
  case (Some ss)
  note parts = bc_inv_parts(1,2) [OF assms]
  show ?thesis
  proof (cases "find (\<lambda>(i, c). Some c = ch) ss")
    case None
    note no = find_registered(1) [OF assms Some None]
    let ?b = "b\<lparr>bc_subscribers := (if ss = [] then AList.delete k (bc_subscribers b) else AList.update k ss (bc_subscribers b))\<rparr>"
    have at: "sub_at ?b k' i = sub_at b k' i" for k' i using Some by (simp add: sub_at_def update_conv' delete_conv')
    have r: "sse_Unsubscribe k ch b = Ret () ?b" using Some None by (simp add: sse_Unsubscribe_def)
    have "ch = Some c \<Longrightarrow> c \<notin> subs_of b k" for c using no unfolding subs_of_def by blast
    moreover have "(if k' = k \<and> sub_at b k i = ch then None else sub_at b k' i) = sub_at b k' i" for k' i
      using no [of i] by (cases "sub_at b k i") auto
    moreover have "distinct (map fst (bc_subscribers ?b))" using parts(1) by (simp add: distinct_delete distinct_update)
    moreover have "distinct (map fst s)" if "map_of (bc_subscribers ?b) k' = Some s" for k' s
      using that parts(2) Some by (auto simp: update_conv' delete_conv' split: if_splits)
    ultimately show ?thesis using r at by (intro exI [of _ ?b]) auto
  next
    case (Some p)
    obtain i c where p: "p = (i, c)" by fastforce
    note yes = find_registered(2) [OF assms \<open>map_of (bc_subscribers b) k = Some ss\<close> Some [unfolded p]]
    let ?s = "AList.delete i ss"
    let ?b = "b\<lparr>bc_chans := (bc_chans b)(c := (bc_chans b c)\<lparr>ch_closed := True\<rparr>),
       bc_subscribers := (if ?s = [] then AList.delete k (bc_subscribers b) else AList.update k ?s (bc_subscribers b))\<rparr>"
    have op: "\<not> ch_closed (bc_chans b c)" using yes bc_inv_parts(4) [OF assms] by blast
    have r: "sse_Unsubscribe k ch b = Ret () ?b"
      using \<open>map_of (bc_subscribers b) k = Some ss\<close> Some p op by (simp add: sse_Unsubscribe_def close_chan_def)
    have same: "sub_at b k j = Some c \<longleftrightarrow> j = i" for j using yes bc_inv_parts(5) [OF assms] by blast
    have mz: "map_of ss j = None" if "?s = []" "j \<noteq> i" for j
      using fun_cong [OF delete_conv' [of i ss], of j] that by simp
    have at: "sub_at ?b k' j = (if k' = k \<and> sub_at b k j = ch then None else sub_at b k' j)" for k' j
      using \<open>map_of (bc_subscribers b) k = Some ss\<close> same [of j] yes mz [of j]
      by (auto simp: sub_at_def update_conv' delete_conv' split: if_splits)
    have "distinct (map fst ss)" using parts(2) \<open>map_of (bc_subscribers b) k = Some ss\<close> by blast
    then have "distinct (map fst ?s)" by (rule distinct_delete)
    then have "distinct (map fst s)" if "map_of (bc_subscribers ?b) k' = Some s" for k' s
      using that parts(2) by (auto simp: update_conv' delete_conv' split: if_splits)
    moreover have "distinct (map fst (bc_subscribers ?b))" using parts(1) by (simp add: distinct_delete distinct_update)
    moreover have "c \<in> subs_of b k" using yes unfolding subs_of_def by blast
    ultimately show ?thesis using r at yes by (intro exI [of _ ?b]) auto
  qed
qed

lemma Unsubscribe_inv:
  assumes "bc_inv b" "sse_Unsubscribe k ch b = Ret u b'" shows "bc_inv b'"
proof -
  from Unsubscribe_effect [OF assms(1), of k ch] assms(2)
  have nx: "bc_next b' = bc_next b" and d: "distinct (map fst (bc_subscribers b'))"
    and ds: "\<And>k ss. map_of (bc_subscribers b') k = Some ss \<Longrightarrow> distinct (map fst ss)"
    and at: "\<And>k' i. sub_at b' k' i = (if k' = k \<and> sub_at b k i = ch then None else sub_at b k' i)"
    and chs: "\<And>c. bc_chans b' c = (if ch = Some c \<and> c \<in> subs_of b k then (bc_chans b c)\<lparr>ch_closed := True\<rparr> else bc_chans b c)"
    by auto
  have op: "sub_at b k' i = Some c \<and> \<not> ch_closed (bc_chans b' c)" if "sub_at b' k' i = Some c" for k' i c
  proof -
    from that have c: "sub_at b k' i = Some c" "\<not> (k' = k \<and> sub_at b k i = ch)" by (auto simp: at split: if_splits)
    have "\<not> (ch = Some c \<and> c \<in> subs_of b k)"
      using c bc_inv_parts(5) [OF assms(1) c(1)] unfolding subs_of_def by blast
    then show ?thesis using c(1) bc_inv_parts(4) [OF assms(1) c(1)] by (auto simp: chs)
  qed
  show ?thesis
    by (rule bc_inv_shrink [OF assms(1) d ds op nx]) (use bc_inv_parts(3) [OF assms(1)] in \<open>auto simp: chs\<close>)
qed

lemma Subscribe_effect:
  assumes "bc_inv b" "sse_Subscribe k i b = (c, b')"
  shows "bc_inv b'" "sub_at b' k' i' = (if k' = k \<and> i' = i then Some c else sub_at b k' i')"
    "c' < bc_next b \<Longrightarrow> bc_chans b' c' = bc_chans b c'" "bc_chans b' c = \<lparr>ch_buf = [], ch_closed = False\<rparr>" "c = bc_next b"
proof -
  let ?ss = "case map_of (bc_subscribers b) k of None \<Rightarrow> [] | Some s \<Rightarrow> s"
  have b': "c = bc_next b" "b' = b\<lparr>bc_next := c + 1, bc_chans := (bc_chans b)(c := \<lparr>ch_buf = [], ch_closed = False\<rparr>),
      bc_subscribers := AList.update k (AList.update i c ?ss) (bc_subscribers b)\<rparr>"
    using assms(2) by (auto simp: sse_Subscribe_def Let_def)
  then show "c = bc_next b" "bc_chans b' c = \<lparr>ch_buf = [], ch_closed = False\<rparr>" by simp_all
  show "c' < bc_next b \<Longrightarrow> bc_chans b' c' = bc_chans b c'" using b' by simp
  have at: "sub_at b' k' i' = (if k' = k \<and> i' = i then Some c else sub_at b k' i')" for k' i'
    by (simp add: b'(2) sub_at_def update_conv' split: option.split)
  then show "sub_at b' k' i' = (if k' = k \<and> i' = i then Some c else sub_at b k' i')" .
  have fresh: "sub_at b k' i' \<noteq> Some c" for k' i'
    using bc_inv_parts(4) [OF assms(1)] b'(1) by blast
  have dss: "distinct (map fst ?ss)" using bc_inv_parts(2) [OF assms(1)] by (simp split: option.split)
  show "bc_inv b'" unfolding bc_inv_def
  proof (intro conjI allI impI)
    show "distinct (map fst (bc_subscribers b'))" using bc_inv_parts(1) [OF assms(1)] by (simp add: b'(2) distinct_update)
    show "distinct (map fst ss)" if "map_of (bc_subscribers b') k' = Some ss" for k' ss
      using that bc_inv_parts(2) [OF assms(1)] dss by (auto simp: b'(2) update_conv' distinct_update split: if_splits)
    show "k1 = k2" if "sub_at b' k1 i1 = Some d" "sub_at b' k2 i2 = Some d" for k1 i1 k2 i2 d
      using that bc_inv_parts(5) [OF assms(1)] fresh unfolding at by (metis option.inject)
    show "i1 = i2" if "sub_at b' k1 i1 = Some d" "sub_at b' k2 i2 = Some d" for k1 i1 k2 i2 d
      using that bc_inv_parts(5) [OF assms(1)] fresh unfolding at by (metis option.inject)
    show "d < bc_next b'" if "sub_at b' k1 i1 = Some d" for k1 i1 d
      using that bc_inv_parts(4) [OF assms(1), of k1 i1 d] b' unfolding at by (auto split: if_splits)
    show "\<not> ch_closed (bc_chans b' d)" if "sub_at b' k1 i1 = Some d" for k1 i1 d
      using that bc_inv_parts(4) [OF assms(1), of k1 i1 d] b' unfolding at by (auto split: if_splits)
    show "length (ch_buf (bc_chans b' d)) \<le> 100" for d using bc_inv_parts(3) [OF assms(1), of d] by (simp add: b'(2))
  qed
qed

lemma CloseAll_loop:
  "bc_inv b \<Longrightarrow> bc_subscribers b = xs \<Longrightarrow>
   \<exists>b'. for_each (\<lambda>(sid, subs) b1.
        andThen (for_each close_chan (map snd subs) b1)
          (\<lambda>_ b'. Ret () (b'\<lparr>bc_subscribers := AList.delete sid (bc_subscribers b')\<rparr>))) xs b = Ret () b'
     \<and> bc_inv b' \<and> bc_subscribers b' = []"
proof (induction xs arbitrary: b)
  case (Cons x xs)
  obtain k ss where x: "x = (k, ss)" by fastforce
  have k: "map_of (bc_subscribers b) k = Some ss" using Cons.prems x by simp
  let ?b = "b\<lparr>bc_chans := \<lambda>c. if c \<in> subs_of b k then (bc_chans b c)\<lparr>ch_closed := True\<rparr> else bc_chans b c,
     bc_subscribers := AList.delete k (bc_subscribers b)\<rparr>"
  have c: "sse_Close k b = Ret () ?b" by (rule Close_effect [OF Cons.prems(1)])
  have "k \<notin> fst ` set xs" using bc_inv_parts(1) [OF Cons.prems(1)] Cons.prems(2) x by auto
  then have "bc_subscribers ?b = xs" using Cons.prems(2) x by (simp add: delete_idem)
  from Cons.IH [OF Close_inv [OF Cons.prems(1) c] this] c k show ?case by (simp add: x sse_Close_def)
qed simp

section \<open>Histories\<close>

datatype bop =
    BSubscribe string string
  | BUnsubscribe string "nat option"
  | BBroadcast string SSEEvent
  | BClose string
  | BCloseAll
  | BTake nat

text \<open>One operation, with the events a subscriber takes.\<close>

definition bexec :: "bop \<Rightarrow> SSEBroadcaster \<Rightarrow> (SSEBroadcaster, (nat \<times> SSEEvent) list) run" where
  "bexec op b =
     (case op of
        BSubscribe k i \<Rightarrow> Ret [] (snd (sse_Subscribe k i b))
      | BUnsubscribe k c \<Rightarrow> andThen (sse_Unsubscribe k c b) (\<lambda>_. Ret [])
      | BBroadcast k e \<Rightarrow> andThen (Broadcast k e b) (\<lambda>_. Ret [])
      | BClose k \<Rightarrow> andThen (sse_Close k b) (\<lambda>_. Ret [])
      | BCloseAll \<Rightarrow> andThen (CloseAll b) (\<lambda>_. Ret [])
      | BTake c \<Rightarrow> (case take_event c b of (es, b') \<Rightarrow> Ret (map (Pair c) es) b'))"

fun brun :: "bop list \<Rightarrow> SSEBroadcaster \<Rightarrow> (SSEBroadcaster, (nat \<times> SSEEvent) list) run" where
  "brun [] b = Ret [] b"
| "brun (op # ops) b = andThen (bexec op b) (\<lambda>l b1. andThen (brun ops b1) (\<lambda>l' b2. Ret (l @ l') b2))"

definition taken :: "nat \<Rightarrow> (nat \<times> SSEEvent) list \<Rightarrow> SSEEvent list" where
  "taken c l = map snd (filter (\<lambda>(c', _). c' = c) l)"

definition casts :: "string \<Rightarrow> bop list \<Rightarrow> SSEEvent list" where
  "casts k ops = concat (map (\<lambda>op. case op of BBroadcast k' e \<Rightarrow> if k' = k then [e] else [] | _ \<Rightarrow> []) ops)"

text \<open>Operations that leave a given registration alone; a reused subscriber id would replace it.\<close>

definition keeps_sub :: "string \<Rightarrow> string \<Rightarrow> nat \<Rightarrow> bop \<Rightarrow> bool" where
  "keeps_sub k i c op \<longleftrightarrow>
     op \<noteq> BSubscribe k i \<and> op \<noteq> BUnsubscribe k (Some c) \<and> op \<noteq> BClose k \<and> op \<noteq> BCloseAll"

lemma take_inv: "bc_inv b \<Longrightarrow> take_event c b = (es, b') \<Longrightarrow> bc_inv b'"
proof -
  assume inv: "bc_inv b" and t: "take_event c b = (es, b')"
  have at: "sub_at b' = sub_at b" using t by (intro ext) (auto simp: take_event_def sub_at_def split: list.splits)
  have "bc_subscribers b' = bc_subscribers b" "bc_next b' = bc_next b" "\<And>d. ch_closed (bc_chans b' d) = ch_closed (bc_chans b d)"
    "\<And>d. length (ch_buf (bc_chans b' d)) \<le> length (ch_buf (bc_chans b d))"
    using t by (auto simp: take_event_def split: list.splits if_splits)
  then show "bc_inv b'" using inv at unfolding bc_inv_def by (metis order_trans)
qed

lemma bexec_ok: "bc_inv b \<Longrightarrow> \<exists>l b'. bexec op b = Ret l b' \<and> bc_inv b'"
proof (cases op)
  case (BSubscribe k i)
  assume "bc_inv b"
  from Subscribe_effect(1) [OF this, of k i "fst (sse_Subscribe k i b)"] BSubscribe show ?thesis by (simp add: bexec_def)
next
  case (BUnsubscribe k c)
  assume inv: "bc_inv b"
  from Unsubscribe_effect [OF inv, of k c] obtain b' where "sse_Unsubscribe k c b = Ret () b'" by blast
  with Unsubscribe_inv [OF inv this] BUnsubscribe show ?thesis by (simp add: bexec_def)
next
  case (BBroadcast k e)
  assume inv: "bc_inv b"
  from Broadcast_effect [OF inv] Broadcast_inv [OF inv] BBroadcast show ?thesis by (simp add: bexec_def)
next
  case (BClose k)
  assume inv: "bc_inv b"
  from Close_effect [OF inv] Close_inv [OF inv] BClose show ?thesis by (simp add: bexec_def)
next
  case BCloseAll
  assume inv: "bc_inv b"
  from CloseAll_loop [OF inv refl] BCloseAll show ?thesis by (auto simp: bexec_def CloseAll_def)
next
  case (BTake c)
  assume inv: "bc_inv b"
  from take_inv [OF inv, of c "fst (take_event c b)"] BTake show ?thesis by (simp add: bexec_def split: prod.split)
qed

lemma brun_ok: "bc_inv b \<Longrightarrow> \<exists>l b'. brun ops b = Ret l b' \<and> bc_inv b'"
proof (induction ops arbitrary: b)
  case (Cons op ops)
  from bexec_ok [OF Cons.prems] obtain l b1 where 1: "bexec op b = Ret l b1" "bc_inv b1" by blast
  from Cons.IH [OF 1(2)] 1 show ?case by auto
qed simp

text \<open>One step, seen from a registered channel.\<close>

lemma bexec_channel:
  assumes inv: "bc_inv b" and at: "sub_at b k i = Some c" and ks: "keeps_sub k i c op" and ex: "bexec op b = Ret l b'"
  shows "sub_at b' k i = Some c
    \<and> taken c l @ ch_buf (bc_chans b' c)
      = (if length (ch_buf (bc_chans b c)) < 100 then ch_buf (bc_chans b c) @ casts k [op] else ch_buf (bc_chans b c))"
proof -
  have c: "c < bc_next b" using bc_inv_parts(4) [OF inv at] by blast
  show ?thesis
  proof (cases op)
    case (BSubscribe k' i')
    obtain c' b1 where s: "sse_Subscribe k' i' b = (c', b1)" by fastforce
    from Subscribe_effect(2,3) [OF inv s] BSubscribe s ex at c ks show ?thesis
      by (auto simp: bexec_def taken_def casts_def keeps_sub_def)
  next
    case (BUnsubscribe k' ch)
    from Unsubscribe_effect [OF inv, of k' ch] BUnsubscribe ex
    have u: "l = []" "\<And>k'' i. sub_at b' k'' i = (if k'' = k' \<and> sub_at b k' i = ch then None else sub_at b k'' i)"
      "ch_buf (bc_chans b' c) = ch_buf (bc_chans b c)" by (auto simp: bexec_def)
    with at ks BUnsubscribe show ?thesis by (auto simp: taken_def casts_def keeps_sub_def)
  next
    case (BBroadcast k' e)
    have mem: "c \<in> subs_of b k' \<longleftrightarrow> k' = k"
      using at bc_inv_parts(5) [OF inv at] unfolding subs_of_def by blast
    from BBroadcast ex Broadcast_effect [OF inv, of k' e] have "l = []"
      "b' = b\<lparr>bc_chans := \<lambda>c. if c \<in> subs_of b k'
        then (bc_chans b c)\<lparr>ch_buf := try_send 100 e (ch_buf (bc_chans b c))\<rparr> else bc_chans b c\<rparr>" by (auto simp: bexec_def)
    with mem at BBroadcast show ?thesis by (simp add: taken_def casts_def try_send_def sub_at_def)
  next
    case (BClose k')
    from BClose ex Close_effect [OF inv, of k'] at ks show ?thesis
      by (auto simp: bexec_def taken_def casts_def keeps_sub_def sub_at_def delete_conv')
  next
    case BCloseAll
    with ks show ?thesis by (simp add: keeps_sub_def)
  next
    case (BTake c')
    with ex at show ?thesis
      by (auto simp: bexec_def taken_def casts_def take_event_def sub_at_def split: list.splits)
  qed
qed

lemma taken_append [simp]: "taken c (l @ l') = taken c l @ taken c l'"
  by (simp add: taken_def)

lemma casts_Cons: "casts k (op # ops) = casts k [op] @ casts k ops"
  by (simp add: casts_def)

lemma brun_channel:
  "bc_inv b \<Longrightarrow> sub_at b k i = Some c \<Longrightarrow> \<forall>op\<in>set ops. keeps_sub k i c op \<Longrightarrow> brun ops b = Ret l b' \<Longrightarrow>
   sub_at b' k i = Some c
   \<and> subseq (taken c l @ ch_buf (bc_chans b' c)) (ch_buf (bc_chans b c) @ casts k ops)
   \<and> (length (ch_buf (bc_chans b c)) + length (casts k ops) \<le> 100 \<longrightarrow>
       taken c l @ ch_buf (bc_chans b' c) = ch_buf (bc_chans b c) @ casts k ops)"
proof (induction ops arbitrary: b l)
  case Nil
  then show ?case by (simp add: taken_def casts_def)
next
  case (Cons op ops)
  obtain l1 b1 where 1: "bexec op b = Ret l1 b1" "bc_inv b1" using bexec_ok [OF Cons.prems(1)] by blast
  then obtain l2 where 2: "brun ops b1 = Ret l2 b'" "l = l1 @ l2"
    using Cons.prems(4) by (auto simp: andThen_Ret_iff)
  let ?q = "ch_buf (bc_chans b c)" and ?q1 = "ch_buf (bc_chans b1 c)" and ?q' = "ch_buf (bc_chans b' c)"
  have st: "sub_at b1 k i = Some c" "taken c l1 @ ?q1 = (if length ?q < 100 then ?q @ casts k [op] else ?q)"
    using bexec_channel [OF Cons.prems(1,2) _ 1(1)] Cons.prems(3) by auto
  have IH: "sub_at b' k i = Some c" "subseq (taken c l2 @ ?q') (?q1 @ casts k ops)"
    "length ?q1 + length (casts k ops) \<le> 100 \<longrightarrow> taken c l2 @ ?q' = ?q1 @ casts k ops"
    using Cons.IH [OF 1(2) st(1) _ 2(1)] Cons.prems(3) by auto
  have pre: "subseq (taken c l1 @ ?q1) (?q @ casts k [op])" unfolding st(2)
    using subseq_rev_drop_many [of ?q ?q "casts k [op]"] by simp
  have "subseq (taken c l1 @ (taken c l2 @ ?q')) (taken c l1 @ (?q1 @ casts k ops))"
    using IH(2) by (simp add: subseq_append')
  also have "subseq \<dots> ((?q @ casts k [op]) @ casts k ops)"
    using list_emb_append_mono [OF pre, of "casts k ops" "casts k ops"] by simp
  finally have sub: "subseq (taken c l @ ?q') (?q @ casts k (op # ops))" by (simp add: 2(2) casts_Cons [of k op ops])
  have "taken c l @ ?q' = ?q @ casts k (op # ops)" if le: "length ?q + length (casts k (op # ops)) \<le> 100"
  proof -
    have eq: "taken c l1 @ ?q1 = ?q @ casts k [op]"
    proof (cases "length ?q < 100")
      case False
      then have "length (casts k [op]) = 0" using le unfolding casts_Cons [of k op ops] length_append by linarith
      then have "casts k [op] = []" by simp
      with False show ?thesis using st(2) by simp
    qed (use st(2) in simp)
    from arg_cong [OF eq, of length] have "length ?q1 + length (casts k ops) \<le> 100"
      using le by (simp add: casts_Cons [of k op ops])
    then have "taken c l @ ?q' = (taken c l1 @ ?q1) @ casts k ops" using IH(3) by (simp add: 2(2))
    then show ?thesis unfolding eq by (simp add: casts_Cons [of k op ops])
  qed
  with sub IH(1) show ?case by blast
qed

section \<open>Properties\<close>

text \<open>C24: The broadcaster never panics: after any sequence of subscriptions, unsubscriptions (with any
  channel), broadcasts, closes and reads, no closed channel has been closed again or sent to, every
  registered channel is open and registered once, and no buffer exceeds its capacity.\<close>

theorem broadcaster_never_panics:
  "\<exists>l b. brun ops NewSSEBroadcaster = Ret l b \<and> bc_inv b"
  using brun_ok [OF bc_inv_New] .



end
