(* ===== verification/Pool.thy ===== *)
theory Pool
  imports Errors "HOL-Library.AList"
begin

text \<open>
  The connection pool (appkit/pool.go). A slot is a handle, its slot id, into a heap of pooled
  connections; the buffered channel of idle slots is a list. What the daemon, the store and the
  clock answer during an \<^verbatim>\<open>Acquire\<close> is given as an input. \<^verbatim>\<open>Acquire\<close> holds the lock only for its look-up
  and for the registration of a pulled slot, so these are separate functions that other
  operations may come between. A client is seen as the pool sees it: whether it is connected and
  whether it has signalled a drop.
\<close>

section \<open>State\<close>

definition ErrPoolExhausted :: goerr where
  "ErrPoolExhausted = ErrText ''appkit: connection pool exhausted''"

record pooledConn =
  pn_connected :: bool
  pn_notified :: bool
  pn_closed :: bool
  pn_eventCh :: bool
  pn_streamCancel :: bool
  pn_readerLive :: bool
  pn_appKey :: string
  pn_loopID :: string
  pn_workspaceID :: string
  pn_lastUsed :: "int option"

definition fresh_slot :: pooledConn where
  "fresh_slot = \<lparr>pn_connected = False, pn_notified = False, pn_closed = False, pn_eventCh = False, pn_streamCancel = False,
     pn_readerLive = False, pn_appKey = [], pn_loopID = [], pn_workspaceID = [], pn_lastUsed = None\<rparr>"

text \<open>The writes to the application's store, in order; the pool only logs their errors.\<close>

datatype store_call =
    StoreCreateSession string string string string
  | StoreUpdateLastUsed string

record ConnectionPool =
  cp_PoolSize :: nat
  cp_MaxIdleTime :: int
  cp_pool :: "nat list"
  cp_activeSlots :: "(string \<times> nat) list"
  cp_registry :: "(nat \<times> string) list"
  cp_nextSlotID :: nat
  cp_conns :: "nat \<Rightarrow> pooledConn"
  cp_storeCalls :: "store_call list"

definition conn_isConnected :: "pooledConn \<Rightarrow> bool" where
  "conn_isConnected c \<longleftrightarrow> pn_connected c \<and> \<not> pn_notified c"

definition eventStreamLive :: "pooledConn \<Rightarrow> bool" where
  "eventStreamLive c \<longleftrightarrow> pn_eventCh c \<and> pn_readerLive c"

definition newSlot :: "ConnectionPool \<Rightarrow> nat \<times> ConnectionPool" where
  "newSlot p =
     (let s = cp_nextSlotID p
      in (s, p\<lparr>cp_nextSlotID := s + 1, cp_conns := (cp_conns p)(s := fresh_slot)\<rparr>))"

text \<open>A non-blocking send into the channel of idle slots; a full channel loses the new slot.\<close>

definition return_slot :: "ConnectionPool \<Rightarrow> ConnectionPool" where
  "return_slot p =
     (case newSlot p of (s, p1) \<Rightarrow>
        if length (cp_pool p1) < cp_PoolSize p1 then p1\<lparr>cp_pool := cp_pool p1 @ [s]\<rparr> else p1)"

definition DefaultPoolSize :: nat where "DefaultPoolSize = 1000"

definition NewConnectionPool :: "int \<Rightarrow> int \<Rightarrow> ConnectionPool" where
  "NewConnectionPool poolSize maxIdle =
     (let n = (if poolSize \<le> 0 then DefaultPoolSize else nat poolSize)
      in (return_slot ^^ n) \<lparr>cp_PoolSize = n, cp_MaxIdleTime = maxIdle, cp_pool = [], cp_activeSlots = [], cp_registry = [],
           cp_nextSlotID = 1, cp_conns = (\<lambda>_. fresh_slot), cp_storeCalls = []\<rparr>)"

definition Stats :: "ConnectionPool \<Rightarrow> nat \<times> nat" where
  "Stats p = (length (cp_activeSlots p), length (cp_pool p))"

definition upd_conn :: "nat \<Rightarrow> (pooledConn \<Rightarrow> pooledConn) \<Rightarrow> ConnectionPool \<Rightarrow> ConnectionPool" where
  "upd_conn s f p = p\<lparr>cp_conns := (cp_conns p)(s := f (cp_conns p s))\<rparr>"

section \<open>Release and stop\<close>

definition teardown :: "pooledConn \<Rightarrow> pooledConn" where
  "teardown c = c\<lparr>pn_streamCancel := False, pn_connected := False, pn_notified := True, pn_closed := True\<rparr>"

definition pool_Release :: "string \<Rightarrow> ConnectionPool \<Rightarrow> ConnectionPool" where
  "pool_Release appKey p =
     (case map_of (cp_activeSlots p) appKey of
        None \<Rightarrow> p
      | Some s \<Rightarrow>
          return_slot (upd_conn s teardown
            (p\<lparr>cp_activeSlots := AList.delete appKey (cp_activeSlots p), cp_registry := AList.delete s (cp_registry p)\<rparr>)))"

definition ResetSession :: "string \<Rightarrow> ConnectionPool \<Rightarrow> ConnectionPool" where
  "ResetSession appKey p = pool_Release appKey p"

definition Stop :: "ConnectionPool \<Rightarrow> ConnectionPool" where
  "Stop p =
     (let slots = map snd (cp_activeSlots p);
          p1 = p\<lparr>cp_activeSlots := [], cp_registry := fold AList.delete slots (cp_registry p)\<rparr>;
          p2 = fold (\<lambda>s. upd_conn s (\<lambda>c. c\<lparr>pn_connected := False, pn_notified := True, pn_closed := True\<rparr>)) slots p1
      in fold (\<lambda>s q. (upd_conn s (\<lambda>c. c\<lparr>pn_connected := False, pn_notified := True, pn_closed := True\<rparr>) q)\<lparr>cp_pool := tl (cp_pool q)\<rparr>)
           (cp_pool p2) p2)"

section \<open>Acquire\<close>

text \<open>What the outside answers during one \<^verbatim>\<open>Acquire\<close>.\<close>

record acquire_env =
  ae_now :: int
  ae_GetLoopID :: "(string \<times> bool) + goerr"
  ae_GetSession :: "goerr + string option"
  ae_connect1 :: "goerr option"
  ae_reattach :: "goerr option"
  ae_connect2 :: "goerr option"
  ae_bootstrap :: "goerr + string"
  ae_receive1 :: "goerr option"
  ae_receive2 :: "goerr option"
  ae_ctxDone :: "goerr option"

definition loopIDFor :: "acquire_env \<Rightarrow> string option" where
  "loopIDFor e =
     (case ae_GetLoopID e of
        Inr _ \<Rightarrow> None
      | Inl (loopID, ok) \<Rightarrow>
          if \<not> ok then None
          else
            (let l = TrimSpace loopID
             in if l = [] \<or> HasPrefix l ''pending-'' then None else Some l))"

text \<open>The session type of the stored entry, when there is one.\<close>

definition sessionTypeFor :: "acquire_env \<Rightarrow> string" where
  "sessionTypeFor e = (case ae_GetSession e of Inr (Some t) \<Rightarrow> TrimSpace t | _ \<Rightarrow> [])"

definition store_write :: "store_call \<Rightarrow> ConnectionPool \<Rightarrow> ConnectionPool" where
  "store_write c p = p\<lparr>cp_storeCalls := cp_storeCalls p @ [c]\<rparr>"

definition startReader :: "goerr option \<Rightarrow> pooledConn \<Rightarrow> pooledConn" where
  "startReader receiveErr c =
     (let c1 = c\<lparr>pn_streamCancel := False\<rparr>
      in case receiveErr of
           Some _ \<Rightarrow> c1\<lparr>pn_readerLive := False\<rparr>
         | None \<Rightarrow> c1\<lparr>pn_eventCh := True, pn_streamCancel := True, pn_readerLive := True\<rparr>)"

definition client_connect :: "goerr option \<Rightarrow> pooledConn \<Rightarrow> pooledConn" where
  "client_connect r c =
     (case r of None \<Rightarrow> c\<lparr>pn_connected := True, pn_notified := False\<rparr> | Some _ \<Rightarrow> c\<lparr>pn_connected := False\<rparr>)"

definition bootstrapNew :: "nat \<Rightarrow> goerr option \<Rightarrow> acquire_env \<Rightarrow> ConnectionPool \<Rightarrow> (goerr + string) \<times> ConnectionPool" where
  "bootstrapNew s receiveErr e p =
     (case ae_bootstrap e of
        Inl err \<Rightarrow> (Inl err, p)
      | Inr loopID \<Rightarrow> (Inr loopID, upd_conn s (startReader receiveErr) p))"

definition resumeAndReattach :: "nat \<Rightarrow> acquire_env \<Rightarrow> ConnectionPool \<Rightarrow> goerr option \<times> ConnectionPool" where
  "resumeAndReattach s e p =
     (let p1 = upd_conn s (client_connect (ae_connect1 e)) p
      in case ae_connect1 e of
           Some err \<Rightarrow> (Some err, p1)
         | None \<Rightarrow>
             (case ae_reattach e of
                Some err \<Rightarrow> (Some err, p1)
              | None \<Rightarrow> (None, upd_conn s (startReader (ae_receive1 e)) p1)))"

text \<open>The look-up: an active slot that is live and not idle for too long is reused, a dead or stale
  one is released first.\<close>

definition acquire_lookup :: "string \<Rightarrow> acquire_env \<Rightarrow> ConnectionPool \<Rightarrow> nat option \<times> ConnectionPool" where
  "acquire_lookup appKey e p =
     (case map_of (cp_activeSlots p) appKey of
        None \<Rightarrow> (None, p)
      | Some s \<Rightarrow>
          (let c = cp_conns p s
           in if pn_notified c \<or> \<not> conn_isConnected c \<or> \<not> eventStreamLive c then (None, pool_Release appKey p)
              else if cp_MaxIdleTime p > 0 \<and> (case pn_lastUsed c of None \<Rightarrow> False | Some t \<Rightarrow> ae_now e - t > cp_MaxIdleTime p)
              then (None, pool_Release appKey p)
              else (Some s, store_write (StoreUpdateLastUsed appKey) (upd_conn s (\<lambda>c. c\<lparr>pn_lastUsed := Some (ae_now e)\<rparr>) p))))"

text \<open>Pulling a slot and registering it. When the context is already done too, the runtime may choose
  that case instead, which is the input \<open>ae_ctxDone\<close>.\<close>

definition acquire_pull :: "string \<Rightarrow> acquire_env \<Rightarrow> ConnectionPool \<Rightarrow> (goerr + nat) \<times> ConnectionPool" where
  "acquire_pull appKey e p =
     (case ae_ctxDone e of
        Some err \<Rightarrow> (Inl err, p)
      | None \<Rightarrow>
          (case cp_pool p of
             [] \<Rightarrow> (Inl ErrPoolExhausted, p)
           | s # rest \<Rightarrow>
               (Inr s, p\<lparr>cp_pool := rest, cp_activeSlots := AList.update appKey s (cp_activeSlots p),
                        cp_registry := AList.update s appKey (cp_registry p)\<rparr>)))"

definition fail_release :: "string \<Rightarrow> string \<Rightarrow> goerr \<Rightarrow> ConnectionPool \<Rightarrow> (goerr + nat) \<times> ConnectionPool" where
  "fail_release appKey what err p = (Inl (ErrWrap what err), pool_Release appKey p)"

definition acquire_done :: "string \<Rightarrow> string \<Rightarrow> string \<Rightarrow> nat \<Rightarrow> acquire_env \<Rightarrow> ConnectionPool \<Rightarrow> (goerr + nat) \<times> ConnectionPool" where
  "acquire_done appKey workspaceID loopID s e p =
     (Inr s, store_write (StoreUpdateLastUsed appKey)
        (upd_conn s (\<lambda>c. c\<lparr>pn_appKey := appKey, pn_loopID := loopID, pn_workspaceID := workspaceID,
           pn_lastUsed := Some (ae_now e)\<rparr>) p))"

text \<open>Connecting a pulled slot: reattach to the stored loop, else (or when that fails) a new loop.\<close>

definition connect_new :: "string \<Rightarrow> string \<Rightarrow> goerr option \<Rightarrow> goerr option \<Rightarrow> string \<Rightarrow> string \<Rightarrow> nat \<Rightarrow> acquire_env \<Rightarrow> ConnectionPool \<Rightarrow>
    (goerr + nat) \<times> ConnectionPool" where
  "connect_new appKey workspaceID connectErr receiveErr whatC whatB s e p =
     (let p1 = upd_conn s (client_connect connectErr) p
      in case connectErr of
           Some err \<Rightarrow> fail_release appKey whatC err p1
         | None \<Rightarrow>
             (case bootstrapNew s receiveErr e p1 of
                (Inl err, p2) \<Rightarrow> fail_release appKey whatB err p2
              | (Inr loopID, p2) \<Rightarrow>
                  acquire_done appKey workspaceID loopID s e
                    (store_write (StoreCreateSession workspaceID appKey loopID (sessionTypeFor e)) p2)))"

definition acquire_connect :: "string \<Rightarrow> string \<Rightarrow> nat \<Rightarrow> acquire_env \<Rightarrow> ConnectionPool \<Rightarrow> (goerr + nat) \<times> ConnectionPool" where
  "acquire_connect appKey workspaceID s e p =
     (case loopIDFor e of
        None \<Rightarrow> connect_new appKey workspaceID (ae_connect1 e) (ae_receive1 e) ''connect'' ''bootstrap new loop'' s e p
      | Some loopID \<Rightarrow>
          (case resumeAndReattach s e p of
             (None, p1) \<Rightarrow> acquire_done appKey workspaceID loopID s e p1
           | (Some _, p1) \<Rightarrow>
               connect_new appKey workspaceID (ae_connect2 e) (ae_receive2 e) ''connect after reattach fail''
                 ''bootstrap after reattach fail'' s e p1))"

definition pool_Acquire :: "string \<Rightarrow> string \<Rightarrow> acquire_env \<Rightarrow> ConnectionPool \<Rightarrow> (goerr + nat) \<times> ConnectionPool" where
  "pool_Acquire appKey workspaceID e p =
     (case acquire_lookup appKey e p of
        (Some s, p1) \<Rightarrow> (Inr s, p1)
      | (None, p1) \<Rightarrow>
          (case acquire_pull appKey e p1 of
             (Inl err, p2) \<Rightarrow> (Inl err, p2)
           | (Inr s, p2) \<Rightarrow> acquire_connect appKey workspaceID s e p2))"

definition getLoopID :: "nat \<Rightarrow> ConnectionPool \<Rightarrow> string" where
  "getLoopID s p = pn_loopID (cp_conns p s)"

section \<open>Invariant\<close>

definition slot_of :: "ConnectionPool \<Rightarrow> string \<Rightarrow> nat option" where
  "slot_of p k = map_of (cp_activeSlots p) k"

text \<open>Every slot is idle or belongs to one key, there are as many as the pool's size, idle slots are
  unused, no active client has been closed, and the registry is the inverse of the active map.\<close>

definition pool_inv :: "ConnectionPool \<Rightarrow> bool" where
  "pool_inv p \<longleftrightarrow>
     distinct (cp_pool p) \<and> distinct (map fst (cp_activeSlots p))
     \<and> (\<forall>k k' s. slot_of p k = Some s \<longrightarrow> slot_of p k' = Some s \<longrightarrow> k = k')
     \<and> (\<forall>k s. slot_of p k = Some s \<longrightarrow> s \<notin> set (cp_pool p) \<and> s < cp_nextSlotID p \<and> \<not> pn_closed (cp_conns p s))
     \<and> (\<forall>s\<in>set (cp_pool p). s < cp_nextSlotID p \<and> cp_conns p s = fresh_slot)
     \<and> length (cp_pool p) + length (cp_activeSlots p) = cp_PoolSize p
     \<and> (\<forall>s k. map_of (cp_registry p) s = Some k \<longleftrightarrow> slot_of p k = Some s)"

lemma length_update: "length (AList.update k v al) = (if map_of al k = None then length al + 1 else length al)"
proof -
  have "length (AList.update k v al) = length (map fst (AList.update k v al))" by simp
  also have "\<dots> = (if k \<in> set (map fst al) then length al else length al + 1)" unfolding update_keys by simp
  finally show ?thesis by (simp add: map_of_eq_None_iff)
qed

lemma length_delete: "distinct (map fst al) \<Longrightarrow> map_of al k \<noteq> None \<Longrightarrow> Suc (length (AList.delete k al)) = length al"
proof (induction al)
  case (Cons x al)
  obtain k' v where x: "x = (k', v)" by fastforce
  show ?case
  proof (cases "k' = k")
    case True
    then show ?thesis using Cons.prems(1) x by simp
  next
    case False
    then show ?thesis using Cons x by simp
  qed
qed simp

lemma upd_conn_simps [simp]:
  "cp_pool (upd_conn s f p) = cp_pool p" "cp_activeSlots (upd_conn s f p) = cp_activeSlots p"
  "cp_registry (upd_conn s f p) = cp_registry p" "cp_nextSlotID (upd_conn s f p) = cp_nextSlotID p"
  "cp_PoolSize (upd_conn s f p) = cp_PoolSize p" "cp_MaxIdleTime (upd_conn s f p) = cp_MaxIdleTime p"
  "cp_conns (upd_conn s f p) = (cp_conns p)(s := f (cp_conns p s))" "slot_of (upd_conn s f p) k = slot_of p k"
  by (simp_all add: upd_conn_def slot_of_def)

lemma store_write_simps [simp]:
  "cp_pool (store_write c p) = cp_pool p" "cp_activeSlots (store_write c p) = cp_activeSlots p"
  "cp_registry (store_write c p) = cp_registry p" "cp_nextSlotID (store_write c p) = cp_nextSlotID p"
  "cp_PoolSize (store_write c p) = cp_PoolSize p" "cp_conns (store_write c p) = cp_conns p"
  "slot_of (store_write c p) k = slot_of p k"
  by (simp_all add: store_write_def slot_of_def)

lemma pool_inv_store [simp]: "pool_inv (store_write c p) = pool_inv p"
  by (simp add: pool_inv_def)

lemma pool_invD:
  assumes "pool_inv p"
  shows "distinct (cp_pool p)" "distinct (map fst (cp_activeSlots p))"
    "slot_of p k = Some s \<Longrightarrow> slot_of p k' = Some s \<Longrightarrow> k = k'"
    "slot_of p k = Some s \<Longrightarrow> s \<notin> set (cp_pool p) \<and> s < cp_nextSlotID p \<and> \<not> pn_closed (cp_conns p s)"
    "s \<in> set (cp_pool p) \<Longrightarrow> s < cp_nextSlotID p \<and> cp_conns p s = fresh_slot"
    "length (cp_pool p) + length (cp_activeSlots p) = cp_PoolSize p"
    "map_of (cp_registry p) s = Some k \<longleftrightarrow> slot_of p k = Some s"
  using assms unfolding pool_inv_def by blast+

text \<open>Updating the connection of an active slot keeps the invariant when it does not close it.\<close>

lemma pool_inv_upd:
  assumes "pool_inv p" "slot_of p k = Some s" "\<And>c. pn_closed (f c) = pn_closed c"
  shows "pool_inv (upd_conn s f p)"
proof -
  have op: "\<not> pn_closed (cp_conns (upd_conn s f p) s')" if "slot_of p k' = Some s'" for k' s'
    using pool_invD(4) [OF assms(1) that] assms(3) by auto
  have idle: "cp_conns (upd_conn s f p) s' = fresh_slot" if "s' \<in> set (cp_pool p)" for s'
    using that pool_invD(4) [OF assms(1,2)] pool_invD(5) [OF assms(1) that] by auto
  show ?thesis
    using assms(1) op idle unfolding pool_inv_def upd_conn_simps(1-6,8) by blast
qed

text \<open>A slot that leaves the active map is replaced by a fresh one.\<close>

lemma Release_active:
  assumes inv: "pool_inv p" and s: "slot_of p k = Some s"
  defines "p' \<equiv> pool_Release k p"
  shows "pool_inv p' \<and> (\<forall>k'. slot_of p' k' = (if k' = k then None else slot_of p k'))
    \<and> cp_pool p' = cp_pool p @ [cp_nextSlotID p] \<and> cp_nextSlotID p' = cp_nextSlotID p + 1
    \<and> cp_conns p' = (cp_conns p)(s := teardown (cp_conns p s), cp_nextSlotID p := fresh_slot)
    \<and> cp_PoolSize p' = cp_PoolSize p"
proof -
  let ?n = "cp_nextSlotID p"
  have len: "Suc (length (AList.delete k (cp_activeSlots p))) = length (cp_activeSlots p)"
    using length_delete [OF pool_invD(2) [OF inv], of k] s by (simp add: slot_of_def)
  have room: "length (cp_pool p) < cp_PoolSize p" using pool_invD(6) [OF inv] len by linarith
  have p': "p' = p\<lparr>cp_activeSlots := AList.delete k (cp_activeSlots p), cp_registry := AList.delete s (cp_registry p),
      cp_conns := (cp_conns p)(s := teardown (cp_conns p s), ?n := fresh_slot), cp_nextSlotID := ?n + 1,
      cp_pool := cp_pool p @ [?n]\<rparr>"
    using s room by (simp add: p'_def pool_Release_def slot_of_def return_slot_def newSlot_def upd_conn_def Let_def)
  have sl: "slot_of p' k' = (if k' = k then None else slot_of p k')" for k'
    by (simp add: p' slot_of_def delete_conv')
  note D = pool_invD [OF inv]
  have "distinct (cp_pool p')" using D(1,5) by (auto simp: p')
  moreover have "distinct (map fst (cp_activeSlots p'))" using D(2) by (simp add: p' distinct_delete)
  moreover have "k1 = k2" if "slot_of p' k1 = Some t" "slot_of p' k2 = Some t" for k1 k2 t
    using that D(3) by (auto simp: sl split: if_splits)
  moreover have "t \<notin> set (cp_pool p') \<and> t < cp_nextSlotID p' \<and> \<not> pn_closed (cp_conns p' t)" if "slot_of p' k1 = Some t" for k1 t
  proof -
    from that have k1: "k1 \<noteq> k" "slot_of p k1 = Some t" by (auto simp: sl split: if_splits)
    with D(3) [OF _ s] have "t \<noteq> s" by blast
    with D(4) [OF k1(2)] show ?thesis by (auto simp: p')
  qed
  moreover have "t < cp_nextSlotID p' \<and> cp_conns p' t = fresh_slot" if "t \<in> set (cp_pool p')" for t
    using that D(4) [OF s] D(5) [of t] by (auto simp: p')
  moreover have "length (cp_pool p') + length (cp_activeSlots p') = cp_PoolSize p'" using D(6) len by (simp add: p')
  moreover have "map_of (cp_registry p') t = Some k1 \<longleftrightarrow> slot_of p' k1 = Some t" for t k1
  proof -
    have "map_of (cp_registry p') t = (if t = s then None else map_of (cp_registry p) t)" by (simp add: p' delete_conv')
    then have r: "map_of (cp_registry p') t = Some k1 \<longleftrightarrow> t \<noteq> s \<and> slot_of p k1 = Some t" using D(7) [of t k1] by auto
    show ?thesis
    proof (cases "k1 = k")
      case True
      then show ?thesis using r s sl [of k1] by auto
    next
      case False
      then have "slot_of p k1 \<noteq> Some s" using D(3) [OF _ s] by blast
      then show ?thesis using r sl [of k1] False by auto
    qed
  qed
  ultimately have "pool_inv p'" unfolding pool_inv_def by blast
  then show ?thesis using sl by (simp add: p')
qed

lemma Release_idle: "slot_of p k = None \<Longrightarrow> pool_Release k p = p"
  by (simp add: pool_Release_def slot_of_def)

lemma Release_inv: "pool_inv p \<Longrightarrow> pool_inv (pool_Release k p)"
  using Release_active [of p k] Release_idle [of p k] by (cases "slot_of p k") auto

text \<open>Pulling an idle slot for a key that has none.\<close>

lemma pull_inv:
  assumes inv: "pool_inv p" and k: "slot_of p k = None" and r: "acquire_pull k e p = (Inr s, p')"
  shows "pool_inv p' \<and> (\<forall>k'. slot_of p' k' = (if k' = k then Some s else slot_of p k')) \<and> cp_conns p' = cp_conns p
    \<and> cp_conns p s = fresh_slot \<and> (\<forall>k'. slot_of p k' \<noteq> Some s) \<and> cp_PoolSize p' = cp_PoolSize p"
proof -
  obtain rest where pool: "cp_pool p = s # rest"
    and p': "p' = p\<lparr>cp_pool := rest, cp_activeSlots := AList.update k s (cp_activeSlots p), cp_registry := AList.update s k (cp_registry p)\<rparr>"
    using r by (auto simp: acquire_pull_def split: option.splits list.splits)
  note D = pool_invD [OF inv]
  have sl: "slot_of p' k' = (if k' = k then Some s else slot_of p k')" for k'
    by (simp add: p' slot_of_def update_conv')
  have fs: "slot_of p k' \<noteq> Some s" for k' using D(4) [of k' s] by (auto simp: pool)
  have s: "s < cp_nextSlotID p" "cp_conns p s = fresh_slot" "s \<notin> set rest" "distinct rest"
    using D(1,5) by (auto simp: pool)
  have "distinct (cp_pool p')" using s by (simp add: p')
  moreover have "distinct (map fst (cp_activeSlots p'))" using D(2) by (simp add: p' distinct_update)
  moreover have "k1 = k2" if "slot_of p' k1 = Some t" "slot_of p' k2 = Some t" for k1 k2 t
    using that D(3) fs by (auto simp: sl split: if_splits)
  moreover have "t \<notin> set (cp_pool p') \<and> t < cp_nextSlotID p' \<and> \<not> pn_closed (cp_conns p' t)" if "slot_of p' k1 = Some t" for k1 t
  proof (cases "k1 = k")
    case True
    then have "t = s" using that sl by simp
    then show ?thesis using s by (simp add: p' fresh_slot_def)
  next
    case False
    then have "slot_of p k1 = Some t" using that sl by simp
    from D(4) [OF this] show ?thesis by (simp add: p' pool)
  qed
  moreover have "t < cp_nextSlotID p' \<and> cp_conns p' t = fresh_slot" if "t \<in> set (cp_pool p')" for t
    using that D(5) [of t] by (auto simp: p' pool)
  moreover have "length (cp_pool p') + length (cp_activeSlots p') = cp_PoolSize p'"
    using D(6) k by (simp add: p' pool length_update slot_of_def)
  moreover have "map_of (cp_registry p') t = Some k1 \<longleftrightarrow> slot_of p' k1 = Some t" for t k1
  proof -
    have "map_of (cp_registry p') t = (if t = s then Some k else map_of (cp_registry p) t)" by (simp add: p' update_conv')
    then show ?thesis using D(7) [of t k1] fs [of k1] k by (auto simp: sl)
  qed
  ultimately have "pool_inv p'" unfolding pool_inv_def by blast
  then show ?thesis using sl fs s by (simp add: p')
qed

text \<open>The footprint of an operation for one key: slots and connections of other keys stay.\<close>

definition keeps_others :: "string \<Rightarrow> ConnectionPool \<Rightarrow> ConnectionPool \<Rightarrow> bool" where
  "keeps_others k p p' \<longleftrightarrow>
     (\<forall>k'. k' \<noteq> k \<longrightarrow> slot_of p' k' = slot_of p k')
     \<and> (\<forall>k' s. k' \<noteq> k \<longrightarrow> slot_of p k' = Some s \<longrightarrow> cp_conns p' s = cp_conns p s)"

lemma keeps_others_refl [simp]: "keeps_others k p p"
  by (simp add: keeps_others_def)

lemma keeps_others_trans: "keeps_others k p q \<Longrightarrow> keeps_others k q r \<Longrightarrow> keeps_others k p r"
  by (simp add: keeps_others_def)

lemma keeps_others_store [simp]: "keeps_others k p (store_write c q) = keeps_others k p q"
  by (simp add: keeps_others_def)

lemma keeps_others_upd: "pool_inv p \<Longrightarrow> slot_of p k = Some s \<Longrightarrow> keeps_others k p (upd_conn s f p)"
  unfolding keeps_others_def upd_conn_simps using pool_invD(3) [of p k s] by (metis fun_upd_other)

lemma Release_others: "pool_inv p \<Longrightarrow> keeps_others k p (pool_Release k p)"
proof (cases "slot_of p k")
  case (Some s)
  assume inv: "pool_inv p"
  have "cp_conns (pool_Release k p) s' = cp_conns p s'" if "k' \<noteq> k" "slot_of p k' = Some s'" for k' s'
    using Release_active [OF inv Some] pool_invD(3) [OF inv Some] pool_invD(4) [OF inv that(2)] that by auto
  then show ?thesis using Release_active [OF inv Some] by (simp add: keeps_others_def)
qed (simp add: Release_idle)

lemma lookup_spec:
  assumes "pool_inv p" "acquire_lookup k e p = (r, p')"
  shows "pool_inv p' \<and> keeps_others k p p' \<and> cp_PoolSize p' = cp_PoolSize p
    \<and> (case r of None \<Rightarrow> slot_of p' k = None | Some s \<Rightarrow> slot_of p' k = Some s \<and> conn_isConnected (cp_conns p' s))"
proof (cases "slot_of p k")
  case None
  then show ?thesis using assms by (auto simp: acquire_lookup_def slot_of_def)
next
  case (Some s)
  then have m: "map_of (cp_activeSlots p) k = Some s" by (simp add: slot_of_def)
  have rel: "slot_of (pool_Release k p) k = None" "cp_PoolSize (pool_Release k p) = cp_PoolSize p"
    using Release_active [OF assms(1) Some] by auto
  from assms(2) m consider "r = None" "p' = pool_Release k p"
    | "r = Some s" "p' = store_write (StoreUpdateLastUsed k) (upd_conn s (\<lambda>c. c\<lparr>pn_lastUsed := Some (ae_now e)\<rparr>) p)"
      "conn_isConnected (cp_conns p s)"
    by (auto simp: acquire_lookup_def Let_def split: if_splits)
  then show ?thesis
  proof cases
    case 1
    then show ?thesis using Release_inv [OF assms(1)] Release_others [OF assms(1)] rel by simp
  next
    case 2
    then show ?thesis using Some pool_inv_upd [OF assms(1) Some] keeps_others_upd [OF assms(1) Some]
      by (simp add: conn_isConnected_def)
  qed
qed

lemma closed_kept [simp]:
  "pn_closed (startReader r c) = pn_closed c" "pn_closed (client_connect r' c) = pn_closed c"
  "conn_isConnected (startReader r c) = conn_isConnected c" "conn_isConnected (client_connect None c)"
  by (simp_all add: startReader_def client_connect_def conn_isConnected_def Let_def split: option.split)

text \<open>The outcome of an attempt to connect a pulled slot.\<close>

definition acquire_outcome :: "string \<Rightarrow> ConnectionPool \<Rightarrow> (goerr + nat) \<times> ConnectionPool \<Rightarrow> bool" where
  "acquire_outcome k p o' =
     (case o' of (r, p') \<Rightarrow>
        pool_inv p' \<and> keeps_others k p p' \<and> cp_PoolSize p' = cp_PoolSize p
        \<and> (case r of Inl _ \<Rightarrow> slot_of p' k = None
           | Inr s \<Rightarrow> slot_of p' k = Some s \<and> conn_isConnected (cp_conns p' s)))"

lemma acquire_done_outcome:
  assumes "pool_inv p" "slot_of p k = Some s" "conn_isConnected (cp_conns p s)"
  shows "acquire_outcome k p (acquire_done k w l s e p)"
  using assms pool_inv_upd [OF assms(1,2)] keeps_others_upd [OF assms(1,2)]
  by (simp add: acquire_outcome_def acquire_done_def conn_isConnected_def)

lemma fail_release_outcome:
  assumes "pool_inv p" "slot_of p k = Some s"
  shows "acquire_outcome k p (fail_release k what err p)"
  using Release_active [OF assms] Release_others [OF assms(1)] by (simp add: acquire_outcome_def fail_release_def)

lemma outcome_from:
  "acquire_outcome k q r \<Longrightarrow> keeps_others k p q \<Longrightarrow> cp_PoolSize q = cp_PoolSize p \<Longrightarrow> acquire_outcome k p r"
  by (auto simp: acquire_outcome_def intro: keeps_others_trans)

lemma connect_new_outcome:
  assumes "pool_inv p" "slot_of p k = Some s"
  shows "acquire_outcome k p (connect_new k w ce re wc wb s e p)"
proof -
  let ?p1 = "upd_conn s (client_connect ce) p"
  have 1: "pool_inv ?p1" "slot_of ?p1 k = Some s" using pool_inv_upd [OF assms] assms(2) by auto
  have k1: "keeps_others k p ?p1" using keeps_others_upd [OF assms] .
  show ?thesis
  proof (cases ce)
    case (Some err)
    from fail_release_outcome [OF 1] outcome_from [OF _ k1] Some show ?thesis by (simp add: connect_new_def)
  next
    case None
    show ?thesis
    proof (cases "ae_bootstrap e")
      case (Inl err)
      from fail_release_outcome [OF 1] outcome_from [OF _ k1] None Inl show ?thesis
        by (simp add: connect_new_def bootstrapNew_def)
    next
      case (Inr l)
      let ?p2 = "upd_conn s (startReader re) ?p1"
      have 2: "pool_inv ?p2" "slot_of ?p2 k = Some s" "conn_isConnected (cp_conns ?p2 s)"
        using pool_inv_upd [OF 1] 1(2) None by auto
      have k2: "keeps_others k p ?p2" using keeps_others_trans [OF k1 keeps_others_upd [OF 1]] .
      let ?p3 = "store_write (StoreCreateSession w k l (sessionTypeFor e)) ?p2"
      have "acquire_outcome k ?p3 (acquire_done k w l s e ?p3)"
        by (rule acquire_done_outcome) (use 2 in simp_all)
      from outcome_from [OF this] k2 None Inr show ?thesis by (simp add: connect_new_def bootstrapNew_def)
    qed
  qed
qed

lemma acquire_connect_outcome:
  assumes "pool_inv p" "slot_of p k = Some s"
  shows "acquire_outcome k p (acquire_connect k w s e p)"
proof (cases "loopIDFor e")
  case None
  then show ?thesis using connect_new_outcome [OF assms] by (simp add: acquire_connect_def)
next
  case (Some l)
  let ?p1 = "upd_conn s (client_connect (ae_connect1 e)) p"
  have 1: "pool_inv ?p1" "slot_of ?p1 k = Some s" "keeps_others k p ?p1"
    using pool_inv_upd [OF assms] assms(2) keeps_others_upd [OF assms] by auto
  show ?thesis
  proof (cases "ae_connect1 e = None \<and> ae_reattach e = None")
    case True
    let ?p2 = "upd_conn s (startReader (ae_receive1 e)) ?p1"
    have "acquire_outcome k ?p2 (acquire_done k w l s e ?p2)"
      by (rule acquire_done_outcome) (use pool_inv_upd [OF 1(1,2)] 1(2) True in simp_all)
    from outcome_from [OF this keeps_others_trans [OF 1(3) keeps_others_upd [OF 1(1,2)]]] Some True show ?thesis
      by (simp add: acquire_connect_def resumeAndReattach_def)
  next
    case False
    then have "resumeAndReattach s e p = (Some (case ae_connect1 e of Some err \<Rightarrow> err | None \<Rightarrow> the (ae_reattach e)), ?p1)"
      by (auto simp: resumeAndReattach_def split: option.split)
    then show ?thesis using Some outcome_from [OF connect_new_outcome [OF 1(1,2)] 1(3)]
      by (simp add: acquire_connect_def)
  qed
qed

lemma pool_Acquire_outcome:
  assumes "pool_inv p"
  shows "acquire_outcome k p (pool_Acquire k w e p)"
proof -
  obtain r p1 where l: "acquire_lookup k e p = (r, p1)" by fastforce
  note L = lookup_spec [OF assms l]
  show ?thesis
  proof (cases r)
    case (Some s)
    then show ?thesis using L l by (simp add: pool_Acquire_def acquire_outcome_def)
  next
    case None
    obtain x p2 where pu: "acquire_pull k e p1 = (x, p2)" by fastforce
    show ?thesis
    proof (cases x)
      case (Inl err)
      then have "p2 = p1" using pu by (auto simp: acquire_pull_def split: option.splits list.splits)
      then show ?thesis using L l pu None Inl by (simp add: pool_Acquire_def acquire_outcome_def)
    next
      case (Inr s)
      have P: "pool_inv p2" "slot_of p2 k = Some s" "keeps_others k p1 p2" "cp_PoolSize p2 = cp_PoolSize p1"
        using pull_inv [of p1 k e s p2] L None pu Inr by (auto simp: keeps_others_def)
      have "keeps_others k p p2" "cp_PoolSize p2 = cp_PoolSize p" using L P keeps_others_trans by auto
      from outcome_from [OF acquire_connect_outcome [OF P(1,2)] this] show ?thesis
        using l pu None Inr by (simp add: pool_Acquire_def)
    qed
  qed
qed

lemma return_slot_New:
  "i \<le> n \<Longrightarrow> (return_slot ^^ i) \<lparr>cp_PoolSize = n, cp_MaxIdleTime = mi, cp_pool = [], cp_activeSlots = [], cp_registry = [],
           cp_nextSlotID = 1, cp_conns = (\<lambda>_. fresh_slot), cp_storeCalls = []\<rparr>
   = \<lparr>cp_PoolSize = n, cp_MaxIdleTime = mi, cp_pool = [1..<Suc i], cp_activeSlots = [], cp_registry = [],
           cp_nextSlotID = Suc i, cp_conns = (\<lambda>_. fresh_slot), cp_storeCalls = []\<rparr>"
  by (induction i) (simp_all add: return_slot_def newSlot_def Let_def fun_eq_iff)

lemma pool_inv_New: "pool_inv (NewConnectionPool n mi)"
  unfolding NewConnectionPool_def Let_def return_slot_New [OF order_refl]
  by (simp add: pool_inv_def slot_of_def del: upt_Suc)

section \<open>Slots by key\<close>

text \<open>What the users of a pool rely on: an operation for one key keeps the invariant and the slots and
  connections of all other keys.\<close>

locale keyed_slots =
  fixes inv :: "'p \<Rightarrow> bool"
    and slot :: "'p \<Rightarrow> 'k \<Rightarrow> 's option"
    and conn :: "'p \<Rightarrow> 's \<Rightarrow> 'c"
    and exec :: "'op \<Rightarrow> 'p \<Rightarrow> 'p"
    and key_of :: "'op \<Rightarrow> 'k"
  assumes exec_inv: "inv p \<Longrightarrow> inv (exec op p)"
    and exec_slot: "inv p \<Longrightarrow> k \<noteq> key_of op \<Longrightarrow> slot (exec op p) k = slot p k"
    and exec_conn: "inv p \<Longrightarrow> k \<noteq> key_of op \<Longrightarrow> slot p k = Some s \<Longrightarrow> conn (exec op p) s = conn p s"
begin

lemma execs_inv: "inv p \<Longrightarrow> inv (fold exec ops p)"
  by (induction ops arbitrary: p) (simp_all add: exec_inv)

lemma isolation:
  "inv p \<Longrightarrow> \<forall>op\<in>set ops. key_of op \<noteq> k \<Longrightarrow>
   slot (fold exec ops p) k = slot p k \<and> (\<forall>s. slot p k = Some s \<longrightarrow> conn (fold exec ops p) s = conn p s)"
proof (induction ops arbitrary: p)
  case (Cons op ops)
  then have k: "k \<noteq> key_of op" by auto
  from Cons.IH [OF exec_inv [OF Cons.prems(1)]] Cons.prems(2)
  show ?case using exec_slot [OF Cons.prems(1) k] exec_conn [OF Cons.prems(1) k] by simp
qed simp

end

text \<open>Operations of the pool, with the loss of a connection and the end of a reader as events from
  outside.\<close>

datatype pop =
    PAcquire string string acquire_env
  | PRelease string
  | PDrop string
  | PReaderEnds string

fun pkey :: "pop \<Rightarrow> string" where
  "pkey (PAcquire k w e) = k"
| "pkey (PRelease k) = k"
| "pkey (PDrop k) = k"
| "pkey (PReaderEnds k) = k"

definition on_slot :: "string \<Rightarrow> (pooledConn \<Rightarrow> pooledConn) \<Rightarrow> ConnectionPool \<Rightarrow> ConnectionPool" where
  "on_slot k f p = (case slot_of p k of None \<Rightarrow> p | Some s \<Rightarrow> upd_conn s f p)"

fun pexec :: "pop \<Rightarrow> ConnectionPool \<Rightarrow> ConnectionPool" where
  "pexec (PAcquire k w e) p = snd (pool_Acquire k w e p)"
| "pexec (PRelease k) p = pool_Release k p"
| "pexec (PDrop k) p = on_slot k (\<lambda>c. c\<lparr>pn_connected := False, pn_notified := True\<rparr>) p"
| "pexec (PReaderEnds k) p = on_slot k (\<lambda>c. c\<lparr>pn_readerLive := False\<rparr>) p"

lemma on_slot_spec:
  assumes "pool_inv p" "\<And>c. pn_closed (f c) = pn_closed c"
  shows "pool_inv (on_slot k f p) \<and> keeps_others k p (on_slot k f p) \<and> cp_PoolSize (on_slot k f p) = cp_PoolSize p"
proof (cases "slot_of p k")
  case (Some s)
  with pool_inv_upd [OF assms(1) Some assms(2)] keeps_others_upd [OF assms(1) Some] show ?thesis by (simp add: on_slot_def)
qed (simp add: on_slot_def assms(1))

lemma pexec_spec:
  assumes "pool_inv p"
  shows "pool_inv (pexec op p) \<and> keeps_others (pkey op) p (pexec op p) \<and> cp_PoolSize (pexec op p) = cp_PoolSize p"
proof (cases op)
  case (PAcquire k w e)
  then show ?thesis using pool_Acquire_outcome [OF assms, of k w e] by (auto simp: acquire_outcome_def split: prod.splits)
next
  case (PRelease k)
  have "cp_PoolSize (pool_Release k p) = cp_PoolSize p"
    using Release_active [OF assms, of k] Release_idle [of p k] by (cases "slot_of p k") auto
  with PRelease show ?thesis using Release_inv [OF assms] Release_others [OF assms] by simp
next
  case (PDrop k)
  then show ?thesis using on_slot_spec [OF assms] by simp
next
  case (PReaderEnds k)
  then show ?thesis using on_slot_spec [OF assms] by simp
qed

interpretation slots: keyed_slots pool_inv slot_of cp_conns pexec pkey
proof unfold_locales
  fix p op k s
  show "pool_inv p \<Longrightarrow> pool_inv (pexec op p)" using pexec_spec by blast
  show "pool_inv p \<Longrightarrow> k \<noteq> pkey op \<Longrightarrow> slot_of (pexec op p) k = slot_of p k"
    using pexec_spec [of p op] by (simp add: keeps_others_def)
  show "pool_inv p \<Longrightarrow> k \<noteq> pkey op \<Longrightarrow> slot_of p k = Some s \<Longrightarrow> cp_conns (pexec op p) s = cp_conns p s"
    using pexec_spec [of p op] by (simp add: keeps_others_def)
qed

lemma pexecs_size: "pool_inv p \<Longrightarrow> cp_PoolSize (fold pexec ops p) = cp_PoolSize p"
  using pexec_spec by (induction ops arbitrary: p) auto

lemma New_size: "cp_PoolSize (NewConnectionPool n mi) = (if n \<le> 0 then 1000 else nat n)"
  unfolding NewConnectionPool_def Let_def return_slot_New [OF order_refl] by (simp add: DefaultPoolSize_def)

section \<open>Properties\<close>



definition env_ok :: acquire_env where
  "env_ok = \<lparr>ae_now = 0, ae_GetLoopID = Inl (''pending-1'', True), ae_GetSession = Inr None, ae_connect1 = None, ae_reattach = None,
     ae_connect2 = None, ae_bootstrap = Inr ''loop-1'', ae_receive1 = None, ae_receive2 = None, ae_ctxDone = None\<rparr>"

lemma acquire_env_ok:
  "pool_Acquire ''a'' ''w'' env_ok (NewConnectionPool 1 0) = (Inr 1, snd (pool_Acquire ''a'' ''w'' env_ok (NewConnectionPool 1 0)))"
proof -
  have "fst (pool_Acquire ''a'' ''w'' env_ok (NewConnectionPool 1 0)) = Inr 1" by code_simp
  then show ?thesis by (simp add: prod_eq_iff)
qed


text \<open>Isolation of keys: no sequence of operations for other keys changes the slot of a key or
  anything of its connection.\<close>

theorem pool_key_isolation:
  assumes "pool_inv p" "\<forall>op\<in>set ops. pkey op \<noteq> k" "slot_of p k = Some s"
  shows "slot_of (fold pexec ops p) k = Some s \<and> cp_conns (fold pexec ops p) s = cp_conns p s"
  using slots.isolation [OF assms(1,2)] assms(3) by simp

theorem pool_key_isolation_witness:
  "slot_of (fold pexec [PAcquire ''b'' ''w'' env_ok, PRelease ''c'', PDrop ''b'']
     (snd (pool_Acquire ''a'' ''w'' env_ok (NewConnectionPool 1 0)))) ''a'' = Some 1"
proof -
  let ?p = "snd (pool_Acquire ''a'' ''w'' env_ok (NewConnectionPool 1 0))"
  have o': "acquire_outcome ''a'' (NewConnectionPool 1 0) (Inr 1, ?p)"
    using pool_Acquire_outcome [OF pool_inv_New] acquire_env_ok by metis
  then have "pool_inv ?p" "slot_of ?p ''a'' = Some 1" by (simp_all add: acquire_outcome_def)
  from pool_key_isolation [OF this(1) _ this(2), of "[PAcquire ''b'' ''w'' env_ok, PRelease ''c'', PDrop ''b'']"] show ?thesis
    by simp
qed

text \<open>C36: Two concurrent acquires of one key lose a slot for good: when both look the key up before either
  registers its slot, the second registration overwrites the first. The first slot is then neither
  idle nor active, and releasing the key does not bring it back: the pool is one slot smaller.\<close>

theorem concurrent_acquire_leaks_slot:
  assumes "pool_inv p" "slot_of p k = None" "cp_pool p = s1 # s2 # rest" "ae_ctxDone e1 = None" "ae_ctxDone e2 = None"
  shows "(let p1 = snd (acquire_lookup k e1 p); p2 = snd (acquire_lookup k e2 p1);
              p3 = snd (acquire_pull k e1 p2); p4 = snd (acquire_pull k e2 p3); p5 = pool_Release k p4
          in slot_of p4 k = Some s2 \<and> s1 \<notin> set (cp_pool p4) \<and> (\<forall>k'. slot_of p4 k' \<noteq> Some s1)
             \<and> fst (Stats p4) + snd (Stats p4) + 1 = cp_PoolSize p
             \<and> fst (Stats p5) + snd (Stats p5) + 1 = cp_PoolSize p)"
proof -
  note D = pool_invD [OF assms(1)]
  have lk: "acquire_lookup k e1 p = (None, p)" "acquire_lookup k e2 p = (None, p)"
    using assms(2) by (simp_all add: acquire_lookup_def slot_of_def)
  let ?q = "p\<lparr>cp_pool := rest, cp_activeSlots := AList.update k s2 (cp_activeSlots p),
      cp_registry := AList.update s2 k (AList.update s1 k (cp_registry p))\<rparr>"
  have pl: "snd (acquire_pull k e2 (snd (acquire_pull k e1 p))) = ?q"
    using assms(3-5) by (simp add: acquire_pull_def)
  have nk: "map_of (cp_activeSlots p) k = None" using assms(2) by (simp add: slot_of_def)
  have sl: "slot_of ?q k' = (if k' = k then Some s2 else slot_of p k')" for k' by (simp add: slot_of_def update_conv')
  have dis: "s1 \<noteq> s2" "s1 \<notin> set rest" using D(1) assms(3) by auto
  have no: "slot_of p k' \<noteq> Some s1" for k' using D(4) [of k' s1] assms(3) by auto
  have lenq: "length rest + length (AList.update k s2 (cp_activeSlots p)) + 1 = cp_PoolSize p"
    using D(6) assms(3) nk by (simp add: length_update)
  have del: "Suc (length (AList.delete k (AList.update k s2 (cp_activeSlots p)))) = length (AList.update k s2 (cp_activeSlots p))"
    by (rule length_delete) (simp_all add: distinct_update D(2) update_conv')
  have "length (cp_pool (pool_Release k ?q)) = length rest + 1"
    "length (cp_activeSlots (pool_Release k ?q)) = length (AList.delete k (AList.update k s2 (cp_activeSlots p)))"
    using lenq by (simp_all add: pool_Release_def update_conv' return_slot_def newSlot_def upd_conn_def Let_def)
  with del lenq have "length (cp_activeSlots (pool_Release k ?q)) + length (cp_pool (pool_Release k ?q)) + 1 = cp_PoolSize p"
    by linarith
  then show ?thesis using lk pl sl dis no lenq by (simp add: Let_def Stats_def)
qed

theorem concurrent_acquire_leaks_slot_witness:
  "(let p = NewConnectionPool 2 0; p4 = snd (acquire_pull ''a'' env_ok (snd (acquire_pull ''a'' env_ok
        (snd (acquire_lookup ''a'' env_ok (snd (acquire_lookup ''a'' env_ok p)))))))
    in Stats (pool_Release ''a'' p4) = (0, 1))"
proof -
  have "cp_pool (NewConnectionPool 2 0) = [1, 2]" "slot_of (NewConnectionPool 2 0) ''a'' = None" "cp_PoolSize (NewConnectionPool 2 0) = 2"
    by code_simp+
  moreover have "ae_ctxDone env_ok = None" by (simp add: env_ok_def)
  moreover have "fst (Stats (pool_Release ''a'' (snd (acquire_pull ''a'' env_ok (snd (acquire_pull ''a'' env_ok
        (snd (acquire_lookup ''a'' env_ok (snd (acquire_lookup ''a'' env_ok (NewConnectionPool 2 0))))))))))) = 0" by code_simp
  ultimately show ?thesis
    using concurrent_acquire_leaks_slot [OF pool_inv_New, of 2 0 "''a''" 1 2 "[]" env_ok env_ok] by (simp add: Let_def prod_eq_iff)
qed

end
