(* ===== verification/Turn_Runner.thy ===== *)
theory Turn_Runner
  imports Classifier Query_Gate Broadcaster Pool
begin

text \<open>
  The turn runner (appkit/turn_runner.go). A turn is the sequence of the cases its \<^verbatim>\<open>select\<close> takes:
  an event from the connection, the close of the event stream, the idle timer, the end of the
  context. Its effects on the outside (the messages sent, the rows appended to the store, the
  events broadcast, the hooks called) are recorded in order; wall-clock fields of stored rows are
  left out. The draining of left-over events before and after a turn only discards events.
\<close>

section \<open>Configuration and effects\<close>

definition ErrQueryTimeout :: goerr where "ErrQueryTimeout = ErrText ''appkit: query timeout''"
definition ErrIdleTimeout :: goerr where "ErrIdleTimeout = ErrText ''appkit: idle timeout''"
definition ctx_Canceled :: goerr where "ctx_Canceled = ErrCtx ''context canceled''"

datatype TimeoutPolicy = TimeoutPolicyFail | TimeoutPolicySoftComplete

record TurnConfig =
  tc_QueryTimeout :: int
  tc_IdleTimeout :: int
  tc_MinIdleTimeoutWithAttachments :: int
  tc_OnIdleTimeout :: TimeoutPolicy
  tc_OnQueryTimeout :: TimeoutPolicy
  tc_OnStreamClose :: TimeoutPolicy
  tc_CompactAttachmentsBeforeSend :: bool

definition idleTimeoutForTurn :: "TurnConfig \<Rightarrow> bool \<Rightarrow> int" where
  "idleTimeoutForTurn cfg hasAttachments =
     (let idle = tc_IdleTimeout cfg
      in if idle \<le> 0 then 0
         else if hasAttachments \<and> tc_MinIdleTimeoutWithAttachments cfg > 0 \<and> idle < tc_MinIdleTimeoutWithAttachments cfg
         then tc_MinIdleTimeoutWithAttachments cfg
         else idle)"

record InputOpts =
  io_IntentHint :: string
  io_PreferredSubagent :: string
  io_IntakeScope :: string
  io_InteractionMode :: string
  io_ResponseSchema :: gmap
  io_ResponseSchemaName :: string
  io_ResponseSchemaStrict :: "bool option"

definition put_trimmed :: "string \<Rightarrow> string \<Rightarrow> gobj \<Rightarrow> gobj" where
  "put_trimmed k v m = put_if (TrimSpace v \<noteq> []) k (GStr (TrimSpace v)) m"

definition loop_input_params :: "string \<Rightarrow> string \<Rightarrow> gobj list \<Rightarrow> InputOpts option \<Rightarrow> gobj" where
  "loop_input_params text loopID attachments opts =
     (let p0 = [(''content'', GStr text)];
          p1 = put_if (loopID \<noteq> []) ''loop_id'' (GStr loopID) p0;
          p2 = put_if (attachments \<noteq> []) ''attachments'' (GMaps attachments) p1
      in case opts of
           None \<Rightarrow> p2
         | Some oo \<Rightarrow>
             (let q1 = put_trimmed ''intent_hint'' (io_IntentHint oo) p2;
                  q2 = put_trimmed ''preferred_subagent'' (io_PreferredSubagent oo) q1;
                  q3 = put_trimmed ''intake_scope'' (io_IntakeScope oo) q2;
                  q4 = put_trimmed ''interaction_mode'' (io_InteractionMode oo) q3;
                  q5 = (case io_ResponseSchema oo of Some (x # xs) \<Rightarrow> put ''response_schema'' (GMap (x # xs)) q4 | _ \<Rightarrow> q4);
                  q6 = put_trimmed ''response_schema_name'' (io_ResponseSchemaName oo) q5
              in case io_ResponseSchemaStrict oo of
                   Some b \<Rightarrow> put ''response_schema_strict'' (GBool b) q6
                 | None \<Rightarrow> q6))"

text \<open>Encoding and decoding these payloads cannot fail, so the fallbacks of the code are not reached.\<close>

definition InputMessageForLoop :: "string \<Rightarrow> string \<Rightarrow> gobj list \<Rightarrow> InputOpts option \<Rightarrow> gobj" where
  "InputMessageForLoop text loopID attachments opts =
     (case msg_map (MEnvelope (NewNotificationEnvelope ''loop_input'' (Some (loop_input_params text loopID attachments opts)))) of
        Some m \<Rightarrow> m | None \<Rightarrow> [])"

record SessionMessage =
  sm_Role :: string
  sm_Content :: string
  sm_Status :: string
  sm_CompletionEvent :: string

datatype effect =
    ESend gobj
  | EAppend string SessionMessage
  | EBroadcast string SSEEvent
  | EOnComplete string string string string
  | EOnError string string goerr

text \<open>The collaborators a runner has (a nil store, broadcaster or hook is skipped), its hooks to build
  inputs, compact attachments and format errors, and the rendering of maps in error texts.\<close>

record TurnRunner =
  tr_classifier :: ClassifierConfig
  tr_cfg :: TurnConfig
  tr_store :: bool
  tr_broadcaster :: bool
  tr_onComplete :: bool
  tr_onError :: bool
  tr_errorData :: "(goerr \<Rightarrow> gval) option"
  tr_buildInput :: "string \<Rightarrow> string \<Rightarrow> gobj list \<Rightarrow> InputOpts option \<Rightarrow> gobj"
  tr_compact :: "gobj list \<Rightarrow> gobj list"
  tr_fmt :: "gobj \<Rightarrow> string"

definition NewTurnRunner ::
  "ClassifierConfig \<Rightarrow> bool \<Rightarrow> bool \<Rightarrow> TurnConfig \<Rightarrow> (gobj list \<Rightarrow> gobj list) \<Rightarrow> (gobj \<Rightarrow> string) \<Rightarrow> TurnRunner" where
  "NewTurnRunner cl store broadcaster cfg cmp fm =
     \<lparr>tr_classifier = cl,
      tr_cfg = (if tc_QueryTimeout cfg \<le> 0 then cfg\<lparr>tc_QueryTimeout := 30 * 60 * 1000000000\<rparr> else cfg),
      tr_store = store, tr_broadcaster = broadcaster, tr_onComplete = False, tr_onError = False, tr_errorData = None,
      tr_buildInput = InputMessageForLoop, tr_compact = cmp, tr_fmt = fm\<rparr>"

definition WithInputBuilder ::
  "(string \<Rightarrow> string \<Rightarrow> gobj list \<Rightarrow> InputOpts option \<Rightarrow> gobj) option \<Rightarrow> TurnRunner \<Rightarrow> TurnRunner" where
  "WithInputBuilder f r = (case f of Some g \<Rightarrow> r\<lparr>tr_buildInput := g\<rparr> | None \<Rightarrow> r)"

definition WithErrorData :: "(goerr \<Rightarrow> gval) option \<Rightarrow> TurnRunner \<Rightarrow> TurnRunner" where
  "WithErrorData f r = (case f of Some g \<Rightarrow> r\<lparr>tr_errorData := Some g\<rparr> | None \<Rightarrow> r)"

section \<open>Effects of the ends of a turn\<close>

definition persistResponse :: "TurnRunner \<Rightarrow> string \<Rightarrow> string \<Rightarrow> string \<Rightarrow> effect list" where
  "persistResponse r appKey content completionEvent =
     (if tr_store r
      then [EAppend appKey \<lparr>sm_Role = ''assistant'', sm_Content = content, sm_Status = ''completed'', sm_CompletionEvent = completionEvent\<rparr>]
      else [])"

definition persistFailed :: "TurnRunner \<Rightarrow> string \<Rightarrow> goerr \<Rightarrow> effect list" where
  "persistFailed r appKey e =
     (if tr_store r
      then [EAppend appKey \<lparr>sm_Role = ''error'', sm_Content = Error (tr_fmt r) e, sm_Status = ''failed'', sm_CompletionEvent = []\<rparr>]
      else [])"

definition broadcast :: "TurnRunner \<Rightarrow> string \<Rightarrow> string \<Rightarrow> gval \<Rightarrow> effect list" where
  "broadcast r appKey typ data = (if tr_broadcaster r then [EBroadcast appKey \<lparr>sse_Type = typ, sse_Data = data\<rparr>] else [])"

definition broadcastThinkingStep :: "TurnRunner \<Rightarrow> string \<Rightarrow> string \<Rightarrow> effect list" where
  "broadcastThinkingStep r appKey step =
     (if TrimSpace step = [] then [] else broadcast r appKey ''thinking_step'' (GStr (TrimSpace step @ [CHR 0x0A])))"

definition broadcastDelta :: "TurnRunner \<Rightarrow> string \<Rightarrow> string \<Rightarrow> effect list" where
  "broadcastDelta r appKey delta = (if delta = [] then [] else broadcast r appKey ''delta'' (GStr delta))"

definition broadcastComplete :: "TurnRunner \<Rightarrow> string \<Rightarrow> string \<Rightarrow> effect list" where
  "broadcastComplete r appKey content = broadcast r appKey ''complete'' (GStr content)"

definition broadcastError :: "TurnRunner \<Rightarrow> string \<Rightarrow> goerr \<Rightarrow> effect list" where
  "broadcastError r appKey e =
     broadcast r appKey ''query_error'' (case tr_errorData r of Some f \<Rightarrow> f e | None \<Rightarrow> GStr (Error (tr_fmt r) e))"

definition hookError :: "TurnRunner \<Rightarrow> string \<Rightarrow> string \<Rightarrow> goerr \<Rightarrow> effect list" where
  "hookError r appKey loopID e = (if tr_onError r then [EOnError appKey loopID e] else [])"

text \<open>The three calls with which every failing branch reports.\<close>

definition fail_effects :: "TurnRunner \<Rightarrow> string \<Rightarrow> string \<Rightarrow> goerr \<Rightarrow> effect list" where
  "fail_effects r appKey loopID e = persistFailed r appKey e @ broadcastError r appKey e @ hookError r appKey loopID e"

definition completeTurn :: "TurnRunner \<Rightarrow> string \<Rightarrow> string \<Rightarrow> string \<Rightarrow> string \<Rightarrow> goerr option \<times> effect list" where
  "completeTurn r appKey loopID final completionEvent =
     (None, persistResponse r appKey final completionEvent @ broadcastComplete r appKey final
            @ (if tr_onComplete r then [EOnComplete appKey loopID final completionEvent] else []))"

definition finishTimeout :: "TurnRunner \<Rightarrow> string \<Rightarrow> string \<Rightarrow> string \<Rightarrow> goerr \<Rightarrow> string \<Rightarrow> TimeoutPolicy \<Rightarrow> goerr option \<times> effect list" where
  "finishTimeout r appKey loopID content failErr completionEvent policy =
     (if policy = TimeoutPolicySoftComplete \<and> TrimSpace content \<noteq> [] then completeTurn r appKey loopID content completionEvent
      else (Some failErr, fail_effects r appKey loopID failErr))"

definition sendLoopCancel :: "string \<Rightarrow> effect list" where
  "sendLoopCancel loopID0 =
     (let loopID = TrimSpace loopID0
      in if loopID = [] then []
         else [ESend [(''type'', GStr ''command_request''), (''command'', GStr ''cancel''), (''loop_id'', GStr loopID)]])"

section \<open>The turn loop\<close>

definition isStatusRunningEvent :: "msg \<Rightarrow> bool" where
  "isStatusRunningEvent m = (case m of MStatus st \<Rightarrow> EqualFold (TrimSpace (st_State st)) ''running'' | _ \<Rightarrow> False)"

definition isStaleTurnEndEvent :: "msg \<Rightarrow> bool" where
  "isStaleTurnEndEvent m =
     (case m of
        MStatus st \<Rightarrow> EqualFold (TrimSpace (st_State st)) ''idle'' \<or> EqualFold (TrimSpace (st_State st)) ''stopped''
      | MEvent e \<Rightarrow> ev_Mode e = ''custom'' \<and> IsTurnEndCustomData (ev_Data e)
      | _ \<Rightarrow> False)"

record turn_state =
  ts_content :: string
  ts_boundary :: TurnBoundary
  ts_armed :: bool

definition start_state :: turn_state where
  "start_state = \<lparr>ts_content = [], ts_boundary = zero_boundary, ts_armed = False\<rparr>"

datatype turn_input =
    ICtxCancelled
  | ICtxDeadline
  | IIdle
  | IEvent msg
  | IStreamClosed

text \<open>The new content and the delta that is broadcast: a text that extends the content so far
  replaces it, any other text is appended.\<close>

definition absorb :: "string \<Rightarrow> string \<Rightarrow> string \<times> string" where
  "absorb content new =
     (if new = [] then (content, [])
      else if HasPrefix new content then (new, TrimPrefix new content)
      else (content @ new, new))"

text \<open>One event after the turn is armed: either the turn ends, with its result, or it goes on.\<close>

definition armed_event ::
  "TurnRunner \<Rightarrow> string \<Rightarrow> string \<Rightarrow> msg \<Rightarrow> turn_state \<Rightarrow> (goerr option option \<times> effect list) \<times> turn_state" where
  "armed_event r appKey loopID m st =
     (case Feed m (ts_boundary st) of ((ended, endReason), b) \<Rightarrow>
        (let er = Classify (tr_classifier r) (Some m) (ts_content st);
             st1 = st\<lparr>ts_boundary := b\<rparr>
         in case (cr_Err er, cr_Terminal er) of
              (Some e, ChatEventFailedComplete) \<Rightarrow>
                ((Some (Some (ErrWrap ''process event'' e)), fail_effects r appKey loopID e), st1)
            | _ \<Rightarrow>
                (let step = broadcastThinkingStep r appKey (cr_ThinkingStep er);
                     content = fst (absorb (ts_content st) (cr_Content er));
                     delta = broadcastDelta r appKey (snd (absorb (ts_content st) (cr_Content er)));
                     st2 = st1\<lparr>ts_content := content\<rparr>;
                     pre = step @ delta;
                     early = (case ResolveDeliverableFinalContent (tr_classifier r) er content of
                                Some final \<Rightarrow> if IsDaemonTurnEndEvent (cr_CompletionEvent er) then None else Some final
                              | None \<Rightarrow> None)
                 in case early of
                      Some final \<Rightarrow>
                        (case completeTurn r appKey loopID final (cr_CompletionEvent er) of
                           (res, es) \<Rightarrow> ((Some res, pre @ es), st2))
                    | None \<Rightarrow>
                        if ended then
                          (if IsSubstantiveAssistantReply (tr_classifier r) content then
                             (case completeTurn r appKey loopID (TrimSpace content) endReason of
                                (res, es) \<Rightarrow> ((Some res, pre @ es), st2))
                           else
                             (let e = ErrText (''turn ended ('' @ endReason @ '') with no assistant content'')
                              in ((Some (Some e), pre @ fail_effects r appKey loopID e), st2)))
                        else ((None, pre), st2))))"

definition handle_input ::
  "TurnRunner \<Rightarrow> string \<Rightarrow> string \<Rightarrow> bool \<Rightarrow> turn_input \<Rightarrow> turn_state \<Rightarrow> (goerr option option \<times> effect list) \<times> turn_state" where
  "handle_input r appKey loopID hasAtts i st =
     (case i of
        ICtxCancelled \<Rightarrow> ((Some (Some ctx_Canceled), fail_effects r appKey loopID ctx_Canceled), st)
      | ICtxDeadline \<Rightarrow>
          (case finishTimeout r appKey loopID (ts_content st) ErrQueryTimeout ''query_timeout'' (tc_OnQueryTimeout (tr_cfg r)) of
             (res, es) \<Rightarrow> ((Some res, sendLoopCancel loopID @ es), st))
      | IIdle \<Rightarrow>
          if idleTimeoutForTurn (tr_cfg r) hasAtts > 0 then
            (case finishTimeout r appKey loopID (ts_content st) ErrIdleTimeout ''idle_timeout'' (tc_OnIdleTimeout (tr_cfg r)) of
               (res, es) \<Rightarrow> ((Some res, sendLoopCancel loopID @ es), st))
          else ((None, []), st)
      | IStreamClosed \<Rightarrow>
          if tc_OnStreamClose (tr_cfg r) = TimeoutPolicySoftComplete \<and> TrimSpace (ts_content st) \<noteq> [] then
            (case completeTurn r appKey loopID (ts_content st) ''stream_closed'' of (res, es) \<Rightarrow> ((Some res, es), st))
          else
            (let e = ErrText ''event stream closed'' in ((Some (Some e), fail_effects r appKey loopID e), st))
      | IEvent m \<Rightarrow>
          if \<not> ts_armed st \<and> isStaleTurnEndEvent m then ((None, []), st)
          else if \<not> ts_armed st \<and> isStatusRunningEvent m then
            ((None, []), st\<lparr>ts_boundary := snd (Feed m (ts_boundary st))\<rparr>)
          else armed_event r appKey loopID m (st\<lparr>ts_armed := True\<rparr>))"

text \<open>The loop over a sequence of inputs; \<open>None\<close> means the turn is still waiting.\<close>

fun turn_loop ::
  "TurnRunner \<Rightarrow> string \<Rightarrow> string \<Rightarrow> bool \<Rightarrow> turn_input list \<Rightarrow> turn_state \<Rightarrow> (goerr option option \<times> effect list) \<times> turn_state" where
  "turn_loop r appKey loopID hasAtts [] st = ((None, []), st)"
| "turn_loop r appKey loopID hasAtts (i # is) st =
     (case handle_input r appKey loopID hasAtts i st of
        ((Some res, es), st') \<Rightarrow> ((Some res, es), st')
      | ((None, es), st') \<Rightarrow>
          (case turn_loop r appKey loopID hasAtts is st' of ((res, es'), st'') \<Rightarrow> ((res, es @ es'), st'')))"

definition runTurn ::
  "TurnRunner \<Rightarrow> bool \<Rightarrow> goerr option \<Rightarrow> string \<Rightarrow> string \<Rightarrow> string \<Rightarrow> gobj list \<Rightarrow> InputOpts option \<Rightarrow> turn_input list \<Rightarrow>
     goerr option option \<times> effect list" where
  "runTurn r hasEventCh sendErr appKey loopID message attachments opts is =
     (let atts = (if tc_CompactAttachmentsBeforeSend (tr_cfg r) \<and> attachments \<noteq> [] then tr_compact r attachments else attachments)
      in if \<not> hasEventCh then
           (let e = ErrText (''missing event stream for app key '' @ appKey @ '' (loop '' @ loopID @ '')'')
            in (Some (Some e), fail_effects r appKey loopID e))
         else
           (let send = ESend (tr_buildInput r message loopID atts opts)
            in case sendErr of
                 Some e \<Rightarrow> (Some (Some (ErrWrap ''send message'' e)), send # fail_effects r appKey loopID e)
               | None \<Rightarrow>
                   (case turn_loop r appKey loopID (attachments \<noteq> []) is start_state of
                      ((res, es), _) \<Rightarrow> (res, send # es))))"

section \<open>Execute\<close>

text \<open>The part before the turn: a pooled connection, then the gate. A refused gate releases the
  connection of the key. Everything between this and \<open>execute_end\<close> may interleave with other
  calls on the pool and the gate.\<close>

definition execute_begin ::
  "TurnRunner \<Rightarrow> string \<Rightarrow> string \<Rightarrow> nat \<Rightarrow> nat \<Rightarrow> acquire_env \<Rightarrow> ConnectionPool \<times> QueryGate \<Rightarrow>
     ((goerr \<times> effect list) + nat) \<times> (ConnectionPool \<times> QueryGate)" where
  "execute_begin r appKey workspaceID cancel sendCancel e pg =
     (case pg of (p, g) \<Rightarrow>
        (case pool_Acquire appKey workspaceID e p of
           (Inl err, p1) \<Rightarrow> (Inl (err, fail_effects r appKey [] err), (p1, g))
         | (Inr s, p1) \<Rightarrow>
             (let loopID = getLoopID s p1
              in case Acquire appKey (Some cancel) (Some sendCancel) g of
                   (Some err, g1) \<Rightarrow> (Inl (err, fail_effects r appKey loopID err), (pool_Release appKey p1, g1))
                 | (None, g1) \<Rightarrow> (Inr s, (p1, g1)))))"

definition execute_end :: "string \<Rightarrow> ConnectionPool \<times> QueryGate \<Rightarrow> ConnectionPool \<times> QueryGate" where
  "execute_end appKey pg = (fst pg, Release appKey (snd pg))"

definition Execute ::
  "TurnRunner \<Rightarrow> string \<Rightarrow> string \<Rightarrow> string \<Rightarrow> gobj list \<Rightarrow> InputOpts option \<Rightarrow> nat \<Rightarrow> nat \<Rightarrow> acquire_env \<Rightarrow> goerr option \<Rightarrow> turn_input list \<Rightarrow>
     ConnectionPool \<times> QueryGate \<Rightarrow> (goerr option option \<times> effect list) \<times> (ConnectionPool \<times> QueryGate)" where
  "Execute r appKey message workspaceID attachments opts cancel sendCancel e sendErr is pg =
     (case execute_begin r appKey workspaceID cancel sendCancel e pg of
        (Inl (err, es), pg1) \<Rightarrow> ((Some (Some err), es), pg1)
      | (Inr s, pg1) \<Rightarrow>
          (let c = cp_conns (fst pg1) s
           in case runTurn r (pn_eventCh c) sendErr appKey (pn_loopID c) message attachments opts is of
                (None, es) \<Rightarrow> ((None, es), pg1)
              | (Some res, es) \<Rightarrow> ((Some res, es), execute_end appKey pg1)))"

text \<open>A turn whose gate the caller has reserved: no gate acquire, but the cancel functions are
  replaced, and the gate is released when the connection fails.\<close>

definition ExecuteReserved ::
  "TurnRunner \<Rightarrow> string \<Rightarrow> string \<Rightarrow> string \<Rightarrow> gobj list \<Rightarrow> InputOpts option \<Rightarrow> nat \<Rightarrow> nat \<Rightarrow> acquire_env \<Rightarrow> goerr option \<Rightarrow> turn_input list \<Rightarrow>
     ConnectionPool \<times> QueryGate \<Rightarrow> (goerr option option \<times> effect list) \<times> (ConnectionPool \<times> QueryGate)" where
  "ExecuteReserved r appKey message workspaceID attachments opts cancel sendCancel e sendErr is pg =
     (case pg of (p, g) \<Rightarrow>
        if \<not> IsActive appKey g then
          ((Some (Some (ErrText (''appkit: ExecuteReserved requires an active QueryGate reservation for '' @ appKey))), []), pg)
        else
          (case pool_Acquire appKey workspaceID e p of
             (Inl err, p1) \<Rightarrow> ((Some (Some err), fail_effects r appKey [] err), (p1, Release appKey g))
           | (Inr s, p1) \<Rightarrow>
               (let c = cp_conns p1 s;
                    g1 = SetSendCancel appKey (Some sendCancel) (ReplaceCancel appKey (Some cancel) g)
                in case runTurn r (pn_eventCh c) sendErr appKey (pn_loopID c) message attachments opts is of
                     (None, es) \<Rightarrow> ((None, es), (p1, g1))
                   | (Some res, es) \<Rightarrow> ((Some res, es), execute_end appKey (p1, g1)))))"

section \<open>Lemmas\<close>

text \<open>Effects of a turn that goes on: broadcasts of deltas and thinking steps.\<close>

definition streaming :: "effect \<Rightarrow> bool" where
  "streaming x = (case x of EBroadcast k ev \<Rightarrow> sse_Type ev = ''delta'' \<or> sse_Type ev = ''thinking_step'' | _ \<Rightarrow> False)"

definition deltas :: "effect list \<Rightarrow> string" where
  "deltas es = concat (map (\<lambda>x. case x of EBroadcast k ev \<Rightarrow> if sse_Type ev = ''delta'' then asString (sse_Data ev) else [] | _ \<Rightarrow> []) es)"

lemma deltas_append [simp]: "deltas (a @ b) = deltas a @ deltas b"
  by (simp add: deltas_def)

lemma deltas_Nil [simp]: "deltas [] = []"
  by (simp add: deltas_def)

lemma absorb_content: "fst (absorb c n) = c @ snd (absorb c n)"
  by (auto simp: absorb_def HasPrefix_def prefix_def)

lemma step_streaming: "list_all streaming (broadcastThinkingStep r k t)" "deltas (broadcastThinkingStep r k t) = []"
  by (simp_all add: broadcastThinkingStep_def broadcast_def streaming_def deltas_def)

lemma delta_streaming:
  "list_all streaming (broadcastDelta r k d)" "tr_broadcaster r \<Longrightarrow> deltas (broadcastDelta r k d) = d"
  by (simp_all add: broadcastDelta_def broadcast_def streaming_def deltas_def)

lemma fail_deltas [simp]: "deltas (fail_effects r k l e) = []"
  by (simp add: fail_effects_def persistFailed_def broadcastError_def hookError_def broadcast_def deltas_def)

lemma complete_deltas [simp]: "deltas (snd (completeTurn r k l f ce)) = []"
  by (simp add: completeTurn_def persistResponse_def broadcastComplete_def broadcast_def deltas_def)

lemma cancel_deltas [simp]: "deltas (sendLoopCancel l) = []"
  by (simp add: sendLoopCancel_def deltas_def Let_def)

text \<open>How a turn ends: one report, after streaming broadcasts and at most a cancel request.\<close>

definition ends_with :: "TurnRunner \<Rightarrow> string \<Rightarrow> string \<Rightarrow> goerr option \<Rightarrow> effect list \<Rightarrow> bool" where
  "ends_with r k l res es \<longleftrightarrow>
     (case res of
        None \<Rightarrow> \<exists>f ce. es = snd (completeTurn r k l f ce)
      | Some e \<Rightarrow> \<exists>e'. es = fail_effects r k l e' \<and> (e = e' \<or> (\<exists>w. e = ErrWrap w e')))"

lemma finishTimeout_ends: "finishTimeout r k l c fe ce pol = (res, es) \<Longrightarrow> ends_with r k l res es"
  by (auto simp: finishTimeout_def ends_with_def completeTurn_def split: if_splits)

lemma finishTimeout_deltas: "finishTimeout r k l c fe ce pol = (res, es) \<Longrightarrow> deltas es = []"
  unfolding finishTimeout_def by (metis complete_deltas fail_deltas snd_conv)

definition turn_spec :: "TurnRunner \<Rightarrow> string \<Rightarrow> string \<Rightarrow> turn_state \<Rightarrow> (goerr option option \<times> effect list) \<times> turn_state \<Rightarrow> bool" where
  "turn_spec r k l st o' =
     (case o' of ((res, es), st') \<Rightarrow>
        (tr_broadcaster r \<longrightarrow> ts_content st' = ts_content st @ deltas es)
        \<and> (case res of
             None \<Rightarrow> list_all streaming es
           | Some x \<Rightarrow> \<exists>pre c fin. es = pre @ c @ fin \<and> list_all streaming pre \<and> c \<in> {[], sendLoopCancel l} \<and> ends_with r k l x fin))"

lemma turn_specI:
  assumes "list_all streaming pre" "c \<in> {[], sendLoopCancel l}" "ends_with r k l x fin" "deltas fin = []"
    "tr_broadcaster r \<Longrightarrow> ts_content st' = ts_content st @ deltas pre"
  shows "turn_spec r k l st ((Some x, pre @ c @ fin), st')"
proof -
  have "deltas c = []" using assms(2) by auto
  then have "tr_broadcaster r \<longrightarrow> ts_content st' = ts_content st @ deltas (pre @ c @ fin)" using assms(4,5) by simp
  moreover have "\<exists>pre' c' fin'. pre @ c @ fin = pre' @ c' @ fin' \<and> list_all streaming pre' \<and> c' \<in> {[], sendLoopCancel l}
      \<and> ends_with r k l x fin'" using assms(1-3) by blast
  ultimately show ?thesis unfolding turn_spec_def by simp
qed

lemma armed_event_spec: "turn_spec r k l st (armed_event r k l m st)"
proof -
  obtain ended er' b where F: "Feed m (ts_boundary st) = ((ended, er'), b)" by (metis prod.exhaust)
  let ?er = "Classify (tr_classifier r) (Some m) (ts_content st)"
  let ?c = "fst (absorb (ts_content st) (cr_Content ?er))" and ?d = "snd (absorb (ts_content st) (cr_Content ?er))"
  let ?pre = "broadcastThinkingStep r k (cr_ThinkingStep ?er) @ broadcastDelta r k ?d"
  have pre: "list_all streaming ?pre" "tr_broadcaster r \<Longrightarrow> ?c = ts_content st @ deltas ?pre"
    using step_streaming delta_streaming absorb_content [of "ts_content st" "cr_Content ?er"] by auto
  have fin: "turn_spec r k l st ((Some x, ?pre @ es), st\<lparr>ts_boundary := b, ts_content := ?c\<rparr>)"
    if "ends_with r k l x es" "deltas es = []" for x es
    using turn_specI [OF pre(1), of "[]" l r k x es "st\<lparr>ts_boundary := b, ts_content := ?c\<rparr>" st] pre(2) that by simp
  have comp: "ends_with r k l (fst (completeTurn r k l f ce)) (snd (completeTurn r k l f ce))" for f ce
    by (auto simp: ends_with_def completeTurn_def)
  have failed: "ends_with r k l (Some e) (fail_effects r k l e)" "ends_with r k l (Some (ErrWrap w e)) (fail_effects r k l e)" for e w
    by (auto simp: ends_with_def)
  show ?thesis
  proof (cases "\<exists>e. cr_Err ?er = Some e \<and> cr_Terminal ?er = ChatEventFailedComplete")
    case True
    then obtain e where "cr_Err ?er = Some e" "cr_Terminal ?er = ChatEventFailedComplete" by blast
    then have "armed_event r k l m st = ((Some (Some (ErrWrap ''process event'' e)), fail_effects r k l e), st\<lparr>ts_boundary := b\<rparr>)"
      using F by (simp add: armed_event_def)
    then show ?thesis
      using turn_specI [of "[]" "[]" l r k _ "fail_effects r k l e" "st\<lparr>ts_boundary := b\<rparr>" st] failed by simp
  next
    case False
    let ?early = "case ResolveDeliverableFinalContent (tr_classifier r) ?er ?c of
        Some final \<Rightarrow> if IsDaemonTurnEndEvent (cr_CompletionEvent ?er) then None else Some final | None \<Rightarrow> None"
    let ?st2 = "st\<lparr>ts_boundary := b, ts_content := ?c\<rparr>"
    have ev: "armed_event r k l m st =
      (case ?early of
         Some final \<Rightarrow> ((Some (fst (completeTurn r k l final (cr_CompletionEvent ?er))),
             ?pre @ snd (completeTurn r k l final (cr_CompletionEvent ?er))), ?st2)
       | None \<Rightarrow>
           if ended then
             (if IsSubstantiveAssistantReply (tr_classifier r) ?c then
                ((Some (fst (completeTurn r k l (TrimSpace ?c) er')), ?pre @ snd (completeTurn r k l (TrimSpace ?c) er')), ?st2)
              else ((Some (Some (ErrText (''turn ended ('' @ er' @ '') with no assistant content''))),
                ?pre @ fail_effects r k l (ErrText (''turn ended ('' @ er' @ '') with no assistant content''))), ?st2))
           else ((None, ?pre), ?st2))"
      using False F
      by (cases "cr_Err ?er"; cases "cr_Terminal ?er") (simp_all add: armed_event_def Let_def split_beta split: option.split)
    have go: "turn_spec r k l st ((None, ?pre), ?st2)" using pre by (simp add: turn_spec_def del: append_assoc)
    show ?thesis
    proof (cases ?early)
      case (Some final)
      show ?thesis unfolding ev Some using fin [OF comp] by simp
    next
      case None
      show ?thesis unfolding ev None using fin [OF comp] fin [OF failed(1)] go by simp
    qed
  qed
qed

lemma handle_input_spec: "turn_spec r k l st (handle_input r k l a i st)"
proof -
  have plain: "turn_spec r k l st ((Some x, fin), st)" if "ends_with r k l x fin" "deltas fin = []" for x fin
    using turn_specI [of "[]" "[]" l r k x fin st st] that by simp
  have cancel: "turn_spec r k l st ((Some x, sendLoopCancel l @ fin), st)" if "ends_with r k l x fin" "deltas fin = []" for x fin
    using turn_specI [of "[]" "sendLoopCancel l" l r k x fin st st] that by simp
  have failed: "ends_with r k l (Some e) (fail_effects r k l e)" for e by (auto simp: ends_with_def)
  have go: "turn_spec r k l st ((None, []), st)" by (simp add: turn_spec_def)
  show ?thesis
  proof (cases i)
    case (IEvent m)
    have "turn_spec r k l st (armed_event r k l m (st\<lparr>ts_armed := True\<rparr>))"
      using armed_event_spec [of r k l "st\<lparr>ts_armed := True\<rparr>" m] by (simp add: turn_spec_def)
    with IEvent show ?thesis by (simp add: handle_input_def) (simp add: turn_spec_def)
  next
    case ICtxCancelled
    then show ?thesis using plain [OF failed] by (simp add: handle_input_def)
  next
    case ICtxDeadline
    obtain res es where f: "finishTimeout r k l (ts_content st) ErrQueryTimeout ''query_timeout'' (tc_OnQueryTimeout (tr_cfg r)) = (res, es)"
      by fastforce
    from cancel [OF finishTimeout_ends [OF f] finishTimeout_deltas [OF f]] f ICtxDeadline show ?thesis
      by (simp add: handle_input_def)
  next
    case IIdle
    obtain res es where f: "finishTimeout r k l (ts_content st) ErrIdleTimeout ''idle_timeout'' (tc_OnIdleTimeout (tr_cfg r)) = (res, es)"
      by fastforce
    from cancel [OF finishTimeout_ends [OF f] finishTimeout_deltas [OF f]] f IIdle go show ?thesis
      by (simp add: handle_input_def)
  next
    case IStreamClosed
    have "ends_with r k l (fst (completeTurn r k l c e)) (snd (completeTurn r k l c e))" for c e
      by (auto simp: ends_with_def completeTurn_def)
    from plain [OF this] plain [OF failed] IStreamClosed show ?thesis
      by (simp add: handle_input_def split_beta Let_def)
  qed
qed

lemma turn_loop_spec: "turn_spec r k l st (turn_loop r k l a is st)"
proof (induction "is" arbitrary: st)
  case Nil
  then show ?case by (simp add: turn_spec_def)
next
  case (Cons i "is")
  obtain x es st1 where h: "handle_input r k l a i st = ((x, es), st1)" by (metis prod.exhaust)
  note S = handle_input_spec [of r k l st a i, unfolded h]
  show ?case
  proof (cases x)
    case (Some y)
    then show ?thesis using S h by simp
  next
    case None
    obtain y es' st2 where t: "turn_loop r k l a is st1 = ((y, es'), st2)" by (metis prod.exhaust)
    from Cons.IH [of st1] t have T: "turn_spec r k l st1 ((y, es'), st2)" by simp
    have st: "list_all streaming es" "tr_broadcaster r \<Longrightarrow> ts_content st1 = ts_content st @ deltas es"
      using S None by (simp_all add: turn_spec_def)
    have res: "turn_loop r k l a (i # is) st = ((y, es @ es'), st2)" using h t None by simp
    show ?thesis
    proof (cases y)
      case None
      then show ?thesis unfolding res using T st by (simp add: turn_spec_def)
    next
      case (Some z)
      from T Some obtain pre c fin where "es' = pre @ c @ fin" "list_all streaming pre" "c \<in> {[], sendLoopCancel l}" "ends_with r k l z fin"
        by (auto simp: turn_spec_def)
      then have "\<exists>pre c fin. es @ es' = pre @ c @ fin \<and> list_all streaming pre \<and> c \<in> {[], sendLoopCancel l} \<and> ends_with r k l z fin"
        using st(1) by (intro exI [of _ "es @ pre"] exI [of _ c] exI [of _ fin]) auto
      then show ?thesis unfolding res using T st(2) Some by (simp add: turn_spec_def)
    qed
  qed
qed

text \<open>Reports are the effects other than streaming broadcasts and sent messages.\<close>

definition reporting :: "effect \<Rightarrow> bool" where
  "reporting x \<longleftrightarrow> \<not> streaming x \<and> (case x of ESend m \<Rightarrow> False | _ \<Rightarrow> True)"

lemma filter_reporting:
  "list_all streaming pre \<Longrightarrow> filter reporting pre = []"
  "filter reporting (sendLoopCancel l) = []"
  "filter reporting (fail_effects r k l e) = fail_effects r k l e"
  "filter reporting (snd (completeTurn r k l f ce)) = snd (completeTurn r k l f ce)"
proof -
  show "list_all streaming pre \<Longrightarrow> filter reporting pre = []" by (auto simp: list_all_iff reporting_def)
qed (simp_all add: reporting_def streaming_def sendLoopCancel_def fail_effects_def persistFailed_def broadcastError_def hookError_def
    completeTurn_def persistResponse_def broadcastComplete_def broadcast_def Let_def)

lemma ends_with_reporting: "ends_with r k l x fin \<Longrightarrow> filter reporting fin = fin"
  by (auto simp: ends_with_def filter_reporting split: option.splits)

lemma turn_loop_append:
  "turn_loop r k l a is st = ((None, es), st1) \<Longrightarrow>
   turn_loop r k l a (is @ js) st = (case turn_loop r k l a js st1 of ((res, es'), st2) \<Rightarrow> ((res, es @ es'), st2))"
proof (induction "is" arbitrary: st es)
  case (Cons i "is")
  obtain x es1 st' where h: "handle_input r k l a i st = ((x, es1), st')" by (metis prod.exhaust)
  with Cons.prems have x: "x = None" by (cases x) auto
  obtain y es2 st'' where t: "turn_loop r k l a is st' = ((y, es2), st'')" by (metis prod.exhaust)
  with Cons.prems h x have "y = None" "es = es1 @ es2" "st'' = st1" by auto
  with Cons.IH [of st' es2] t h x show ?case by (simp split: prod.split)
qed (simp split: prod.split)

text \<open>Messages before the turn is armed.\<close>

lemma running_not_stale: "isStatusRunningEvent m \<Longrightarrow> \<not> isStaleTurnEndEvent m"
proof -
  have "fold_case ''running'' \<noteq> fold_case ''idle''" "fold_case ''running'' \<noteq> fold_case ''stopped''" by code_simp+
  then show "isStatusRunningEvent m \<Longrightarrow> \<not> isStaleTurnEndEvent m"
    by (auto simp: isStatusRunningEvent_def isStaleTurnEndEvent_def EqualFold_def split: msg.splits)
qed

lemma unarmed_leftovers:
  "\<not> ts_armed st \<Longrightarrow> \<forall>m\<in>set ms. isStaleTurnEndEvent m \<or> isStatusRunningEvent m \<Longrightarrow>
   \<exists>b. turn_loop r k l a (map IEvent ms) st = ((None, []), st\<lparr>ts_boundary := b\<rparr>)"
proof (induction ms arbitrary: st)
  case (Cons m ms)
  have "\<exists>b. handle_input r k l a (IEvent m) st = ((None, []), st\<lparr>ts_boundary := b\<rparr>)"
    using Cons.prems by (auto simp: handle_input_def intro: exI [of _ "ts_boundary st"])
  then obtain b where b: "handle_input r k l a (IEvent m) st = ((None, []), st\<lparr>ts_boundary := b\<rparr>)" by blast
  from Cons.IH [of "st\<lparr>ts_boundary := b\<rparr>"] Cons.prems b show ?case by auto
next
  case Nil
  show ?case by (intro exI [of _ "ts_boundary st"]) simp
qed

text \<open>A streaming text chunk.\<close>

definition chunk_text :: "EventMessage \<Rightarrow> string \<Rightarrow> bool" where
  "chunk_text m c \<longleftrightarrow> ev_Mode m = ''messages'' \<and> c \<noteq> []
     \<and> (case first_map (ev_Data m) of
          Some mm \<Rightarrow> isStreamingMessageType (asString (idx mm ''type'')) \<and> idx mm ''content'' = GStr c
        | None \<Rightarrow> False)"

lemma classify_chunk: "chunk_text m c \<Longrightarrow> Classify cl (Some (MEvent m)) acc = continueResult c"
proof -
  assume c: "chunk_text m c"
  then obtain mm where mm: "first_map (ev_Data m) = Some mm" "isStreamingMessageType (asString (idx mm ''type''))" "idx mm ''content'' = GStr c"
    "ev_Mode m = ''messages''" "c \<noteq> []" by (auto simp: chunk_text_def split: option.splits)
  then obtain xs where d: "ev_Data m = GList xs" by (auto simp: first_map_def split: option.splits)
  have "messages_branch cl m = Some (continueResult c)"
    using mm by (simp add: messages_branch_def firstMessagePayload_def extractContentFromMessage_def nonempty_str_def)
  then show ?thesis using Classify_messages [OF mm(4) d] by simp
qed

lemma handle_chunk:
  assumes "chunk_text m c" "\<not> b_Ended (ts_boundary st)"
  shows "handle_input r k l a (IEvent (MEvent m)) st
    = ((None, broadcastDelta r k (snd (absorb (ts_content st) c))),
       st\<lparr>ts_armed := True, ts_boundary := (ts_boundary st)\<lparr>b_Gate := (b_Gate (ts_boundary st))\<lparr>g_SawTurnProgress := True\<rparr>\<rparr>,
          ts_content := fst (absorb (ts_content st) c)\<rparr>)"
proof -
  have mo: "ev_Mode m = ''messages''" using assms(1) by (simp add: chunk_text_def)
  have ns: "\<not> isStaleTurnEndEvent (MEvent m)" "\<not> isStatusRunningEvent (MEvent m)"
    using mo by (simp_all add: isStaleTurnEndEvent_def isStatusRunningEvent_def)
  have F: "Feed (MEvent m) (ts_boundary st)
     = ((False, []), (ts_boundary st)\<lparr>b_Gate := (b_Gate (ts_boundary st))\<lparr>g_SawTurnProgress := True\<rparr>\<rparr>)"
    using assms(2) mo by (simp add: Feed_def Observe_def end_reason_def IsTurnProgressChunk_def Let_def)
  show ?thesis using ns F classify_chunk [OF assms(1)]
    by (simp add: handle_input_def armed_event_def broadcastThinkingStep_def ResolveDeliverableFinalContent_def Let_def
        continueResult_def emptyResult_def)
qed

lemma chunks_loop:
  "list_all2 chunk_text ms cs \<Longrightarrow> \<not> b_Ended (ts_boundary st) \<Longrightarrow>
   \<exists>es st'. turn_loop r k l a (map (\<lambda>m. IEvent (MEvent m)) ms) st = ((None, es), st')
     \<and> ts_content st' = fold (\<lambda>c acc. fst (absorb acc c)) cs (ts_content st)
     \<and> ts_boundary st' = (if ms = [] then ts_boundary st
          else (ts_boundary st)\<lparr>b_Gate := (b_Gate (ts_boundary st))\<lparr>g_SawTurnProgress := True\<rparr>\<rparr>)
     \<and> (ms = [] \<or> ts_armed st')"
proof (induction ms cs arbitrary: st rule: list_all2_induct)
  case Nil
  then show ?case by auto
next
  case (Cons m ms c cs)
  note h = handle_chunk [OF Cons(1) Cons.prems]
  let ?st = "st\<lparr>ts_armed := True, ts_boundary := (ts_boundary st)\<lparr>b_Gate := (b_Gate (ts_boundary st))\<lparr>g_SawTurnProgress := True\<rparr>\<rparr>,
          ts_content := fst (absorb (ts_content st) c)\<rparr>"
  obtain es st' where t: "turn_loop r k l a (map (\<lambda>m. IEvent (MEvent m)) ms) ?st = ((None, es), st')"
     "ts_content st' = fold (\<lambda>c acc. fst (absorb acc c)) cs (ts_content ?st)"
     "ts_boundary st' = (if ms = [] then ts_boundary ?st else (ts_boundary ?st)\<lparr>b_Gate := (b_Gate (ts_boundary ?st))\<lparr>g_SawTurnProgress := True\<rparr>\<rparr>)"
     "ms = [] \<or> ts_armed st'"
    using Cons(3) [of ?st] Cons.prems by auto
  have "ts_armed st'" using t(1,4) by (cases "ms = []") auto
  with h t show ?case by (cases "ms = []") auto
qed

text \<open>The end marker of a turn carries no content for the classifier.\<close>

lemma turn_end_types_silent:
  "t \<in> set turnEndCustomTypes \<Longrightarrow> step_line t d = None \<and> t \<noteq> eventLoopHistoryReplayed"
proof -
  have "list_all (\<lambda>t. t \<notin> {''soothe.cognition.plan.step.started'', ''soothe.cognition.plan.step.completed'',
      ''soothe.cognition.plan.step.failed'', ''soothe.agent.loop.step.started'', EventPlanBatchStarted, EventPlanCreated,
      ''soothe.agent.loop.started'', EventGoalCreated, ''soothe.lifecycle.iteration.started'', EventToolStarted,
      eventLoopHistoryReplayed}) turnEndCustomTypes" by code_simp
  then show "t \<in> set turnEndCustomTypes \<Longrightarrow> step_line t d = None \<and> t \<noteq> eventLoopHistoryReplayed"
    by (auto simp: list_all_iff step_line_def)
qed

lemma classify_turn_end:
  assumes "ev_Mode m = ''custom''" "IsTurnEndCustomData (ev_Data m)"
  shows "Classify cl (Some (MEvent m)) acc = emptyResult"
proof -
  obtain d where d: "ev_Data m = GMap d" and ty: "TrimSpace (asString (idx d ''type'')) \<in> set turnEndCustomTypes"
    using assms(2) by (auto simp: IsTurnEndCustomData_def Let_def split: option.splits if_splits)
  then have ne: "asString (idx d ''type'') \<noteq> []" using turn_end_type_nonempty by fastforce
  then have dt: "data_type_or (Some d) (EventType m) = asString (idx d ''type'')"
    by (cases "idx d ''type''") (auto simp: data_type_or_def nonempty_str_def)
  have neq: "asString (idx d ''type'') \<noteq> eventLoopHistoryReplayed"
  proof
    assume h: "asString (idx d ''type'') = eventLoopHistoryReplayed"
    have "TrimSpace eventLoopHistoryReplayed = eventLoopHistoryReplayed" by code_simp
    with h ty turn_end_types_silent show False by metis
  qed
  have th: "thinking_branch cl m = None"
    using d dt neq turn_end_types_silent [OF ty]
    by (simp add: thinking_branch_def normalizeEventData_def extractThinkingStep_def Let_def)
  have "stream_end_branch cl m acc None = Some emptyResult"
    using assms by (simp add: stream_end_branch_def allows_def Let_def)
  with th show ?thesis by (simp add: Classify_event)
qed

lemma handle_turn_end:
  assumes "ts_armed st" "\<not> b_Ended (ts_boundary st)" "ev_Mode m = ''custom''" "IsTurnEndCustomData (ev_Data m)"
    "AllowStreamEnd (event_turn (TrimSpace (ev_TurnID m)) (ev_Data m)) (b_Gate (ts_boundary st))"
    "IsSubstantiveAssistantReply (tr_classifier r) (ts_content st)"
  shows "\<exists>st'. handle_input r k l a (IEvent (MEvent m)) st
    = ((Some None, snd (completeTurn r k l (TrimSpace (ts_content st)) TurnEndStreamEnd)), st') \<and> ts_content st' = ts_content st"
proof -
  have np: "\<not> IsTurnProgressChunk (ev_Mode m) (ev_Data m)" using terminal_not_progress [OF assms(4)] assms(3) by simp
  have F: "Feed (MEvent m) (ts_boundary st) = ((True, TurnEndStreamEnd), (ts_boundary st)\<lparr>b_Ended := True, b_Reason := TurnEndStreamEnd\<rparr>)"
    using assms(2-5) np by (simp add: Feed_def Observe_def end_reason_def mark_def Let_def)
  show ?thesis using assms(1,6) F classify_turn_end [OF assms(3,4)]
    by (simp add: handle_input_def armed_event_def broadcastThinkingStep_def broadcastDelta_def absorb_def
        ResolveDeliverableFinalContent_def completeTurn_def emptyResult_def Let_def)
qed

text \<open>A whole turn: running, chunks of text, end of the turn.\<close>

lemma streamed_turn:
  assumes run: "EqualFold (TrimSpace (st_State s)) ''running''" "TrimSpace (st_TurnID s) = tid" "tid \<noteq> []"
    and chunks: "list_all2 chunk_text ms cs" "ms \<noteq> []"
    and fin: "ev_Mode m = ''custom''" "IsTurnEndCustomData (ev_Data m)" "event_turn (TrimSpace (ev_TurnID m)) (ev_Data m) = tid"
    and sub: "IsSubstantiveAssistantReply (tr_classifier r) (fold (\<lambda>c acc. fst (absorb acc c)) cs [])"
  shows "\<exists>es st'. turn_loop r k l a (IEvent (MStatus s) # map (\<lambda>m. IEvent (MEvent m)) ms @ IEvent (MEvent m) # later) start_state
      = ((Some None, es), st')
    \<and> filter reporting es = snd (completeTurn r k l (TrimSpace (fold (\<lambda>c acc. fst (absorb acc c)) cs [])) TurnEndStreamEnd)
    \<and> ts_content st' = fold (\<lambda>c acc. fst (absorb acc c)) cs []"
proof -
  have rs: "isStatusRunningEvent (MStatus s)" using run(1) by (simp add: isStatusRunningEvent_def del: EqualFold_lower)
  let ?b = "zero_boundary\<lparr>b_Gate := zero_gate\<lparr>g_SawRunning := True, g_ExpectedTurnID := tid\<rparr>\<rparr>"
  have st: "\<not> EqualFold (TrimSpace (st_State s)) ''idle''" "\<not> EqualFold (TrimSpace (st_State s)) ''stopped''"
    using running_not_stale [OF rs] by (simp_all add: isStaleTurnEndEvent_def del: EqualFold_lower)
  have "snd (Feed (MStatus s) zero_boundary) = ?b"
    using run st by (simp add: Feed_def zero_boundary_def zero_gate_def Observe_def bind_turn_def end_reason_def Let_def del: EqualFold_lower)
  then have h1: "handle_input r k l a (IEvent (MStatus s)) start_state = ((None, []), start_state\<lparr>ts_boundary := ?b\<rparr>)"
    using rs running_not_stale [OF rs] by (simp add: handle_input_def start_state_def)
  obtain es1 st1 where c: "turn_loop r k l a (map (\<lambda>m. IEvent (MEvent m)) ms) (start_state\<lparr>ts_boundary := ?b\<rparr>) = ((None, es1), st1)"
    "ts_content st1 = fold (\<lambda>c acc. fst (absorb acc c)) cs []"
    "ts_boundary st1 = ?b\<lparr>b_Gate := (b_Gate ?b)\<lparr>g_SawTurnProgress := True\<rparr>\<rparr>" "ts_armed st1"
    using chunks_loop [OF chunks(1), of "start_state\<lparr>ts_boundary := ?b\<rparr>" r k l a] chunks(2)
    by (auto simp: start_state_def zero_boundary_def)
  have ne: "\<not> b_Ended (ts_boundary st1)" unfolding c(3) by (simp add: zero_boundary_def)
  have al: "AllowStreamEnd (event_turn (TrimSpace (ev_TurnID m)) (ev_Data m)) (b_Gate (ts_boundary st1))"
    using run(2,3) fin(3) TrimSpace_idem [of "st_TurnID s"] unfolding c(3)
    by (auto simp: AllowStreamEnd_def IsTurnTerminalAllowed_iff TurnIDsMatch_iff zero_boundary_def zero_gate_def)
  obtain st2 where e: "handle_input r k l a (IEvent (MEvent m)) st1
      = ((Some None, snd (completeTurn r k l (TrimSpace (ts_content st1)) TurnEndStreamEnd)), st2)" "ts_content st2 = ts_content st1"
    using handle_turn_end [OF c(4) ne fin(1,2) al, of r k l a] sub c(2) by (metis (no_types, lifting))
  have "list_all streaming es1"
    using turn_loop_spec [of r k l "start_state\<lparr>ts_boundary := ?b\<rparr>" a "map (\<lambda>m. IEvent (MEvent m)) ms"] c(1)
    by (simp add: turn_spec_def)
  then show ?thesis
    using h1 turn_loop_append [OF c(1), of "IEvent (MEvent m) # later"] e c(2) by (simp add: filter_reporting)
qed

text \<open>A concrete turn for the examples below.\<close>

definition demo_runner :: TurnRunner where
  "demo_runner = NewTurnRunner demo_cfg True True
     \<lparr>tc_QueryTimeout = 0, tc_IdleTimeout = 0, tc_MinIdleTimeoutWithAttachments = 0, tc_OnIdleTimeout = TimeoutPolicyFail,
      tc_OnQueryTimeout = TimeoutPolicyFail, tc_OnStreamClose = TimeoutPolicyFail, tc_CompactAttachmentsBeforeSend = False\<rparr>
     (\<lambda>x. x) (\<lambda>_. [])"

definition demo_status :: StatusResponse where
  "demo_status = \<lparr>st_RequestID = [], st_Type = ''status'', st_State = ''running'', st_LoopID = [], st_TurnID = ''l:1'', st_Seq = 0,
     st_Workspace = [], st_InputHistory = None, st_ConversationHistory = None\<rparr>"

definition demo_chunk :: "string \<Rightarrow> EventMessage" where
  "demo_chunk c = zero_event\<lparr>ev_Mode := ''messages'', ev_Data := GList [GMap [(''type'', GStr ''ai_chunk''), (''content'', GStr c)]]\<rparr>"

definition demo_end :: EventMessage where
  "demo_end = zero_event\<lparr>ev_Mode := ''custom'', ev_TurnID := ''l:1'', ev_Data := GMap [(''type'', GStr ''soothe.stream.end'')]\<rparr>"

lemma demo_facts:
  "EqualFold (TrimSpace (st_State demo_status)) ''running''" "TrimSpace (st_TurnID demo_status) = ''l:1''"
  "ev_Mode demo_end = ''custom''" "IsTurnEndCustomData (ev_Data demo_end)"
  "event_turn (TrimSpace (ev_TurnID demo_end)) (ev_Data demo_end) = ''l:1''"
  by code_simp+

lemma demo_chunk_text: "c \<noteq> [] \<Longrightarrow> chunk_text (demo_chunk c) c"
  by (simp add: chunk_text_def demo_chunk_def first_map_def isStreamingMessageType_def)

section \<open>Properties\<close>

text \<open>C3: A turn reports exactly once, and last: a finished turn ends with one report, either the complete
  one (stored assistant reply, complete event, completion hook) when it returns nil, or the failed
  one (stored error, error event, error hook) when it returns an error; everything before it is the
  sent input, deltas, thinking steps and at most a cancel request.\<close>

theorem turn_reports_once:
  assumes "runTurn r hasCh sendErr k l message atts opts is = (Some res, es)"
  shows "ends_with r k l res (filter reporting es)
    \<and> (\<exists>pre. es = pre @ filter reporting es \<and> (\<forall>x\<in>set pre. streaming x \<or> (\<exists>m. x = ESend m)))"
proof -
  have base: ?thesis if "es = pre @ fin" "\<forall>x\<in>set pre. streaming x \<or> (\<exists>m. x = ESend m)" "ends_with r k l res fin" for pre fin
  proof -
    have "filter reporting pre = []" using that(2) by (auto simp: filter_empty_conv reporting_def)
    then have "filter reporting es = fin" using that(1) ends_with_reporting [OF that(3)] by simp
    with that show ?thesis by (intro conjI exI [of _ pre]) simp_all
  qed
  show ?thesis
  proof (cases "hasCh \<and> sendErr = None")
    case False
    show ?thesis
    proof (cases hasCh)
      case True
      then obtain e where "sendErr = Some e" using False by auto
      then obtain m where es: "es = [ESend m] @ fail_effects r k l e" "res = Some (ErrWrap ''send message'' e)"
        using assms True by (auto simp: runTurn_def Let_def)
      have "ends_with r k l res (fail_effects r k l e)" unfolding es(2) by (auto simp: ends_with_def)
      from base [OF es(1) _ this] show ?thesis by simp
    next
      case False
      then obtain e where es: "es = [] @ fail_effects r k l e" "res = Some e" using assms by (auto simp: runTurn_def Let_def)
      have "ends_with r k l res (fail_effects r k l e)" unfolding es(2) by (auto simp: ends_with_def)
      from base [OF es(1) _ this] show ?thesis by simp
    qed
  next
    case True
    obtain m es' st' where t: "turn_loop r k l (atts \<noteq> []) is start_state = ((Some res, es'), st')" "es = ESend m # es'"
      using assms True by (auto simp: runTurn_def Let_def split: prod.splits)
    obtain pre c fin where p: "es' = pre @ c @ fin" "list_all streaming pre" "c \<in> {[], sendLoopCancel l}" "ends_with r k l res fin"
      using turn_loop_spec [of r k l start_state "atts \<noteq> []" "is"] t(1) by (auto simp: turn_spec_def)
    have "\<forall>x\<in>set (ESend m # pre @ c). streaming x \<or> (\<exists>m. x = ESend m)"
      using p(2,3) by (auto simp: list_all_iff sendLoopCancel_def Let_def split: if_splits)
    then show ?thesis using base [of "ESend m # pre @ c" fin] p(1,4) t(2) by simp
  qed
qed

theorem turn_reports_once_witness:
  "\<exists>es. runTurn demo_runner True None ''k'' ''l'' ''hi'' [] None [ICtxDeadline] = (Some (Some ErrQueryTimeout), es)
    \<and> ends_with demo_runner ''k'' ''l'' (Some ErrQueryTimeout) (filter reporting es)"
proof -
  have "\<exists>es. runTurn demo_runner True None ''k'' ''l'' ''hi'' [] None [ICtxDeadline] = (Some (Some ErrQueryTimeout), es)"
    by (simp add: runTurn_def demo_runner_def NewTurnRunner_def handle_input_def finishTimeout_def Let_def)
  then show ?thesis using turn_reports_once [of demo_runner True None "''k''" "''l''" "''hi''" "[]" None "[ICtxDeadline]"] by blast
qed

text \<open>The deltas are the content: at every point of a turn with a broadcaster, the deltas broadcast so
  far, joined, are exactly the content accumulated so far.\<close>

theorem deltas_are_content:
  assumes "tr_broadcaster r" "turn_loop r k l a is start_state = ((res, es), st)"
  shows "ts_content st = deltas es"
  using turn_loop_spec [of r k l start_state a "is"] assms by (simp add: turn_spec_def start_state_def)

theorem deltas_are_content_witness:
  "\<exists>es st. turn_loop demo_runner ''k'' ''l'' False [IEvent (MEvent (demo_chunk ''hello''))] start_state = ((None, es), st)
    \<and> ts_content st = ''hello'' \<and> ts_content st = deltas es"
proof -
  have c: "chunk_text (demo_chunk ''hello'') ''hello''" by (rule demo_chunk_text) simp
  have r: "tr_broadcaster demo_runner" by (simp add: demo_runner_def NewTurnRunner_def)
  obtain es st where t: "turn_loop demo_runner ''k'' ''l'' False [IEvent (MEvent (demo_chunk ''hello''))] start_state = ((None, es), st)"
    "ts_content st = ''hello''"
    using handle_chunk [OF c, of start_state demo_runner "''k''" "''l''" False]
    by (simp add: start_state_def zero_boundary_def absorb_def HasPrefix_def)
  with deltas_are_content [OF r t(1)] show ?thesis by blast
qed

text \<open>Leftovers do not end a turn: whatever mix of running, idle and stopped statuses and turn ends a
  previous turn left in the stream, a turn that has not yet seen anything else goes on, reports
  nothing and has no content.\<close>

theorem leftovers_never_end_turn:
  assumes "\<forall>m\<in>set ms. isStaleTurnEndEvent m \<or> isStatusRunningEvent m"
  shows "\<exists>b. turn_loop r k l a (map IEvent ms) start_state = ((None, []), start_state\<lparr>ts_boundary := b\<rparr>)"
  using unarmed_leftovers [OF _ assms, of start_state r k l a] by (simp add: start_state_def)

theorem leftovers_never_end_turn_witness:
  "fst (turn_loop demo_runner ''k'' ''l'' False (map IEvent
     [MEvent (zero_event\<lparr>ev_Mode := ''custom'', ev_Data := GMap [(''type'', GStr ''soothe.stream.end'')]\<rparr>)]) start_state) = (None, [])"
proof -
  have "isStaleTurnEndEvent (MEvent (zero_event\<lparr>ev_Mode := ''custom'', ev_Data := GMap [(''type'', GStr ''soothe.stream.end'')]\<rparr>))"
    by code_simp
  then show ?thesis using leftovers_never_end_turn [of "[MEvent (zero_event\<lparr>ev_Mode := ''custom'', ev_Data := GMap [(''type'', GStr ''soothe.stream.end'')]\<rparr>)]"
      demo_runner "''k''" "''l''" False] by auto
qed



text \<open>A chunk that repeats the text so far is lost: when the next chunk of a token stream equals the
  text accumulated so far it is taken for a cumulative update, so that text is delivered once
  instead of twice.\<close>

theorem repeated_chunk_lost:
  assumes "EqualFold (TrimSpace (st_State s)) ''running''" "TrimSpace (st_TurnID s) = tid" "tid \<noteq> []"
    "chunk_text m1 c" "chunk_text m2 c"
    "ev_Mode m = ''custom''" "IsTurnEndCustomData (ev_Data m)" "event_turn (TrimSpace (ev_TurnID m)) (ev_Data m) = tid"
    "IsSubstantiveAssistantReply (tr_classifier r) c"
  shows "\<exists>es. runTurn r True None k l message atts opts [IEvent (MStatus s), IEvent (MEvent m1), IEvent (MEvent m2), IEvent (MEvent m)]
      = (Some None, es)
    \<and> filter reporting es = snd (completeTurn r k l (TrimSpace c) TurnEndStreamEnd)"
proof -
  have "c \<noteq> []" using assms(4) by (simp add: chunk_text_def)
  then have f: "fold (\<lambda>c acc. fst (absorb acc c)) [c, c] [] = c" by (simp add: absorb_def HasPrefix_def)
  have l: "list_all2 chunk_text [m1, m2] [c, c]" "[m1, m2] \<noteq> []" using assms(4,5) by simp_all
  obtain es st' where "turn_loop r k l (atts \<noteq> []) [IEvent (MStatus s), IEvent (MEvent m1), IEvent (MEvent m2), IEvent (MEvent m)] start_state
      = ((Some None, es), st')" "filter reporting es = snd (completeTurn r k l (TrimSpace c) TurnEndStreamEnd)"
    using streamed_turn [OF assms(1-3) l assms(6-8), of r k l "atts \<noteq> []" "[]"] assms(9) unfolding f by auto
  then show ?thesis by (simp add: runTurn_def Let_def reporting_def)
qed

theorem repeated_chunk_lost_witness:
  "\<exists>es. runTurn demo_runner True None ''k'' ''l'' ''hi'' [] None
      [IEvent (MStatus demo_status), IEvent (MEvent (demo_chunk ''very very '')), IEvent (MEvent (demo_chunk ''very very '')), IEvent (MEvent demo_end)]
      = (Some None, es)
    \<and> filter reporting es = snd (completeTurn demo_runner ''k'' ''l'' ''very very'' TurnEndStreamEnd)"
proof -
  have c: "chunk_text (demo_chunk ''very very '') ''very very ''" by (rule demo_chunk_text) simp
  have cl: "tr_classifier demo_runner = demo_cfg" by (simp add: demo_runner_def NewTurnRunner_def)
  have s: "IsSubstantiveAssistantReply (tr_classifier demo_runner) ''very very ''" "TrimSpace ''very very '' = ''very very''"
    unfolding cl by code_simp+
  from repeated_chunk_lost [OF demo_facts(1,2) _ c c demo_facts(3-5) s(1), of "''k''" "''l''" "''hi''" "[]" None] s(2) show ?thesis by simp
qed



end
