(* ===== verification/Card_Projection.thy ===== *)
theory Card_Projection
  imports Wire_Names Json
begin

text \<open>
  The card projection (card_projection.go): parsing of \<^verbatim>\<open>soothe.card.*\<close> payloads and the in-memory
  map of cards in insertion order that those frames drive. Every write stores a freshly built map,
  so the cards share no storage and a map is a value here; a caller that mutates a map returned by
  \<^verbatim>\<open>Get\<close> or \<^verbatim>\<open>Snapshot\<close> is outside the model.
\<close>

section \<open>Parsing\<close>

record ParsedCardFrame =
  pf_WireType :: string
  pf_Card :: gmap
  pf_Patch :: gobj

definition cardMutationTypes :: "string list" where
  "cardMutationTypes =
     [EventCardCreated, EventCardUpdated, EventCardFinalized, EventCardReplayBegin, EventCardReplayEnd]"

definition trimmed_id :: "gobj \<Rightarrow> string" where
  "trimmed_id m = TrimSpace (asString (idx m ''id''))"

text \<open>A copy of the nested \<^verbatim>\<open>data\<close> object, and the payload with an id filled in from the frame.\<close>

definition card_payload :: "gobj \<Rightarrow> gobj" where
  "card_payload m = (case as_map (idx m ''data'') of Some raw \<Rightarrow> copy_into raw [] | None \<Rightarrow> [])"

definition with_card_id :: "gobj \<Rightarrow> gobj \<Rightarrow> gobj" where
  "with_card_id m payload =
     (let c0 = TrimSpace (asString (idx m ''card_id''));
          cardID = (if c0 = [] then trimmed_id payload else c0)
      in put_if (trimmed_id payload = [] \<and> cardID \<noteq> []) ''id'' (GStr cardID) payload)"

definition ParseCardCustomPayload :: "gval \<Rightarrow> ParsedCardFrame option" where
  "ParseCardCustomPayload data =
     (case as_map data of
        None \<Rightarrow> None
      | Some m \<Rightarrow>
          (let wireType = TrimSpace (asString (idx m ''type''))
           in if wireType \<notin> set cardMutationTypes then None
              else if wireType = EventCardReplayBegin \<or> wireType = EventCardReplayEnd then
                Some \<lparr>pf_WireType = wireType, pf_Card = None, pf_Patch = []\<rparr>
              else
                (let payload = card_payload m
                 in if wireType = EventCardCreated then
                      (if idx payload ''type'' = GNil \<or> idx payload ''content'' = GNil then None
                       else Some \<lparr>pf_WireType = wireType, pf_Card = Some (with_card_id m payload), pf_Patch = []\<rparr>)
                    else Some \<lparr>pf_WireType = wireType, pf_Card = None, pf_Patch = with_card_id m payload\<rparr>)))"

section \<open>The projection\<close>

record CardProjection =
  cp_cards :: "string \<Rightarrow> gobj option"
  cp_order :: "string list"
  cp_replaying :: bool

definition NewCardProjection :: CardProjection where
  "NewCardProjection = \<lparr>cp_cards = Map.empty, cp_order = [], cp_replaying = False\<rparr>"

definition Replaying :: "CardProjection \<Rightarrow> bool" where
  "Replaying p = cp_replaying p"

definition Snapshot :: "CardProjection \<Rightarrow> gobj list" where
  "Snapshot p = List.map_filter (cp_cards p) (cp_order p)"

definition Get :: "string \<Rightarrow> CardProjection \<Rightarrow> gmap" where
  "Get cardID p = cp_cards p cardID"

text \<open>The merge of a patch into a card: the keys \<^verbatim>\<open>id\<close> and \<^verbatim>\<open>type\<close> are skipped.\<close>

definition merge_patch :: "gobj \<Rightarrow> gobj \<Rightarrow> gobj" where
  "merge_patch patch existing =
     copy_into (filter (\<lambda>(k, v). \<not> (k = ''id'' \<or> k = ''type'')) patch) (copy_into existing [])"

definition Apply :: "gval \<Rightarrow> CardProjection \<Rightarrow> bool \<times> CardProjection" where
  "Apply data p =
     (case ParseCardCustomPayload data of
        None \<Rightarrow> (False, p)
      | Some parsed \<Rightarrow>
          if pf_WireType parsed = EventCardReplayBegin then
            (True, p\<lparr>cp_replaying := True, cp_cards := Map.empty, cp_order := []\<rparr>)
          else if pf_WireType parsed = EventCardReplayEnd then (True, p\<lparr>cp_replaying := False\<rparr>)
          else if pf_WireType parsed = EventCardCreated then
            (case pf_Card parsed of
               None \<Rightarrow> (True, p)
             | Some cd \<Rightarrow>
                 (let cid = trimmed_id cd
                  in if cid = [] then (True, p)
                     else
                       (let p1 = (if cp_cards p cid = None then p\<lparr>cp_order := cp_order p @ [cid]\<rparr> else p)
                        in (True, p1\<lparr>cp_cards := (cp_cards p1)(cid \<mapsto> copy_into cd [])\<rparr>))))
          else if pf_WireType parsed = EventCardUpdated \<or> pf_WireType parsed = EventCardFinalized then
            (let cid = trimmed_id (pf_Patch parsed)
             in if cid = [] then (True, p)
                else case cp_cards p cid of
                  None \<Rightarrow> (True, p)
                | Some existing \<Rightarrow>
                    (True, p\<lparr>cp_cards := (cp_cards p)(cid \<mapsto> merge_patch (pf_Patch parsed) existing)\<rparr>))
          else (True, p))"

definition apply_all :: "gval list \<Rightarrow> CardProjection \<Rightarrow> CardProjection" where
  "apply_all ds p = fold (\<lambda>d p. snd (Apply d p)) ds p"

section \<open>The ordered list it implements\<close>

text \<open>The specification: a list of cards named by id. A created card replaces the card of its id in
  place or is appended, a patch changes the card of its id, a replay starts from nothing.\<close>

type_synonym cards = "(string \<times> gobj) list"

definition set_card :: "string \<Rightarrow> gobj \<Rightarrow> cards \<Rightarrow> cards" where
  "set_card cid c cs =
     (if cid \<in> fst ` set cs then map (\<lambda>(i, x). if i = cid then (i, c) else (i, x)) cs else cs @ [(cid, c)])"

definition patch_card :: "string \<Rightarrow> gobj \<Rightarrow> cards \<Rightarrow> cards" where
  "patch_card cid patch cs = map (\<lambda>(i, x). if i = cid then (i, merge_patch patch x) else (i, x)) cs"

definition spec_apply :: "ParsedCardFrame \<Rightarrow> cards \<Rightarrow> cards" where
  "spec_apply f cs =
     (if pf_WireType f = EventCardReplayBegin then []
      else if pf_WireType f = EventCardReplayEnd then cs
      else case pf_Card f of
        Some cd \<Rightarrow> if trimmed_id cd = [] then cs else set_card (trimmed_id cd) cd cs
      | None \<Rightarrow> if trimmed_id (pf_Patch f) = [] then cs else patch_card (trimmed_id (pf_Patch f)) (pf_Patch f) cs)"

definition entries :: "CardProjection \<Rightarrow> cards" where
  "entries p = map (\<lambda>i. (i, the (cp_cards p i))) (cp_order p)"

text \<open>The invariant: the order lists exactly the ids of the cards, once each, and every card is
  stored under its own trimmed id and has a type.\<close>

definition card_inv :: "CardProjection \<Rightarrow> bool" where
  "card_inv p \<longleftrightarrow>
     distinct (cp_order p) \<and> (\<forall>i. i \<in> set (cp_order p) \<longleftrightarrow> cp_cards p i \<noteq> None)
     \<and> (\<forall>i c. cp_cards p i = Some c \<longrightarrow> i \<noteq> [] \<and> trimmed_id c = i \<and> idx c ''type'' \<noteq> GNil \<and> wf_obj c)"

section \<open>Lemmas\<close>

lemmas card_types = EventCardCreated_def EventCardUpdated_def EventCardFinalized_def EventCardReplayBegin_def
  EventCardReplayEnd_def

lemma card_types_distinct [simp]:
  "EventCardCreated \<noteq> EventCardReplayBegin" "EventCardCreated \<noteq> EventCardReplayEnd"
  "EventCardUpdated \<noteq> EventCardReplayBegin" "EventCardUpdated \<noteq> EventCardReplayEnd"
  "EventCardUpdated \<noteq> EventCardCreated" "EventCardFinalized \<noteq> EventCardReplayBegin"
  "EventCardFinalized \<noteq> EventCardReplayEnd" "EventCardFinalized \<noteq> EventCardCreated"
  "EventCardReplayEnd \<noteq> EventCardReplayBegin"
  by (simp_all add: card_types)

lemma wf_card_payload: "wf_obj (card_payload m)"
  by (simp add: card_payload_def wf_copy_into split: option.split)

lemma wf_with_card_id: "wf_obj p \<Longrightarrow> wf_obj (with_card_id m p)"
  by (simp add: with_card_id_def Let_def)

lemma with_card_id_type: "idx (with_card_id m p) ''type'' = idx p ''type''"
  by (simp add: with_card_id_def Let_def put_simps)

lemma map_of_filter_keys:
  "map_of (filter (\<lambda>(k, v). \<not> Q k) m) k = (if Q k then None else map_of m k)"
  by (induction m) auto

lemma wf_filter: "wf_obj m \<Longrightarrow> wf_obj (filter P m)"
  by (auto simp: wf_obj_def distinct_map inj_on_def)

lemma idx_merge_patch:
  assumes "wf_obj patch" "wf_obj c"
  shows "idx (merge_patch patch c) k
    = (if k \<noteq> ''id'' \<and> k \<noteq> ''type'' \<and> has_key patch k then idx patch k else idx c k)"
proof -
  let ?F = "filter (\<lambda>(k, v). \<not> (k = ''id'' \<or> k = ''type'')) patch"
  note fk = map_of_filter_keys [of "\<lambda>k. k = ''id'' \<or> k = ''type''" patch k]
  have h: "has_key ?F k \<longleftrightarrow> k \<noteq> ''id'' \<and> k \<noteq> ''type'' \<and> has_key patch k"
    unfolding has_key_def fk by (cases "k = ''id'' \<or> k = ''type''") auto
  have i: "has_key ?F k \<Longrightarrow> idx ?F k = idx patch k"
    unfolding h unfolding idx_def fk by (cases "k = ''id'' \<or> k = ''type''") auto
  have "idx (merge_patch patch c) k = (if has_key ?F k then idx ?F k else idx c k)"
    unfolding merge_patch_def using assms by (simp only: idx_copy_into wf_filter copy_into_self)
  then show ?thesis using h i by simp
qed

lemma wf_merge_patch: "wf_obj (merge_patch patch c)"
  by (simp add: merge_patch_def wf_copy_into)

lemma merge_patch_keeps:
  assumes "wf_obj patch" "wf_obj c"
  shows "trimmed_id (merge_patch patch c) = trimmed_id c"
    "idx (merge_patch patch c) ''type'' = idx c ''type''"
  using assms by (simp_all add: trimmed_id_def idx_merge_patch)

text \<open>What a parsed frame is.\<close>

lemma parsed_shape:
  assumes "ParseCardCustomPayload d = Some f"
  obtains (first) "pf_WireType f = EventCardReplayBegin" "pf_Card f = None"
  | (fin) "pf_WireType f = EventCardReplayEnd" "pf_Card f = None"
  | (created) c where "pf_WireType f = EventCardCreated" "pf_Card f = Some c" "wf_obj c" "idx c ''type'' \<noteq> GNil"
  | (patch) "pf_WireType f \<in> {EventCardUpdated, EventCardFinalized}" "pf_Card f = None" "wf_obj (pf_Patch f)"
proof -
  obtain m where m: "as_map d = Some m" using assms by (auto simp: ParseCardCustomPayload_def split: option.splits)
  let ?w = "TrimSpace (asString (idx m ''type''))" and ?q = "with_card_id m (card_payload m)"
  have wf: "wf_obj ?q" by (simp add: wf_with_card_id wf_card_payload)
  from assms m consider
    "?w = EventCardReplayBegin \<or> ?w = EventCardReplayEnd" "f = \<lparr>pf_WireType = ?w, pf_Card = None, pf_Patch = []\<rparr>"
    | "?w = EventCardCreated" "idx (card_payload m) ''type'' \<noteq> GNil"
      "f = \<lparr>pf_WireType = ?w, pf_Card = Some ?q, pf_Patch = []\<rparr>"
    | "?w \<in> {EventCardUpdated, EventCardFinalized}" "f = \<lparr>pf_WireType = ?w, pf_Card = None, pf_Patch = ?q\<rparr>"
    by (auto simp: ParseCardCustomPayload_def cardMutationTypes_def Let_def split: if_splits)
  then show thesis
  proof cases
    case 1
    then show ?thesis using first fin by auto
  next
    case 2
    then show ?thesis using created [of ?q] wf by (simp add: with_card_id_type)
  next
    case 3
    then show ?thesis using patch wf by simp
  qed
qed

lemma set_card_entries:
  assumes "card_inv p" "cid \<noteq> []"
  defines "p1 \<equiv> (if cp_cards p cid = None then p\<lparr>cp_order := cp_order p @ [cid]\<rparr> else p)"
  shows "entries (p1\<lparr>cp_cards := (cp_cards p1)(cid \<mapsto> c)\<rparr>) = set_card cid c (entries p)"
  using assms by (auto simp: card_inv_def entries_def set_card_def image_image)

lemma patch_card_entries:
  assumes "card_inv p" "cp_cards p cid = Some c"
  shows "entries (p\<lparr>cp_cards := (cp_cards p)(cid \<mapsto> merge_patch q c)\<rparr>) = patch_card cid q (entries p)"
  using assms by (auto simp: card_inv_def entries_def patch_card_def)

lemma patch_card_absent: "card_inv p \<Longrightarrow> cp_cards p cid = None \<Longrightarrow> patch_card cid q (entries p) = entries p"
  by (auto simp: card_inv_def entries_def patch_card_def)

text \<open>The simulation, and that the invariant is kept, in one case analysis.\<close>

lemma Apply_simulates:
  assumes inv: "card_inv p" and f: "ParseCardCustomPayload d = Some f"
  shows "entries (snd (Apply d p)) = spec_apply f (entries p) \<and> card_inv (snd (Apply d p))"
  using f
proof (cases rule: parsed_shape)
  case first
  then show ?thesis using f by (simp add: Apply_def spec_apply_def entries_def card_inv_def)
next
  case fin
  then show ?thesis using f inv by (simp add: Apply_def spec_apply_def entries_def card_inv_def)
next
  case (created c)
  then show ?thesis
    using f inv set_card_entries [OF inv, of "trimmed_id c" c]
    by (auto simp: Apply_def spec_apply_def Let_def copy_into_self) (auto simp: card_inv_def)
next
  case patch
  let ?q = "pf_Patch f"
  have ne: "pf_WireType f \<noteq> EventCardReplayBegin" "pf_WireType f \<noteq> EventCardReplayEnd" "pf_WireType f \<noteq> EventCardCreated"
    using patch(1) by auto
  show ?thesis
  proof (cases "cp_cards p (trimmed_id ?q)")
    case None
    then show ?thesis using f patch(1,2) ne inv by (auto simp: Apply_def spec_apply_def Let_def patch_card_absent)
  next
    case (Some c)
    have "wf_obj c" using inv Some by (auto simp: card_inv_def)
    then have "card_inv (p\<lparr>cp_cards := (cp_cards p)(trimmed_id ?q \<mapsto> merge_patch ?q c)\<rparr>)"
      using inv Some merge_patch_keeps [OF patch(3)] by (auto simp: card_inv_def wf_merge_patch)
    then show ?thesis
      using f patch(1,2) ne inv Some patch_card_entries [OF inv Some]
      by (auto simp: Apply_def spec_apply_def Let_def)
  qed
qed

lemma Apply_ignored: "ParseCardCustomPayload d = None \<Longrightarrow> Apply d p = (False, p)"
  by (simp add: Apply_def)

lemma card_inv_New: "card_inv NewCardProjection"
  by (simp add: card_inv_def NewCardProjection_def)

lemma entries_New: "entries NewCardProjection = []"
  by (simp add: entries_def NewCardProjection_def)

lemma map_filter_total: "\<forall>i\<in>set xs. m i \<noteq> None \<Longrightarrow> List.map_filter m xs = map (\<lambda>i. the (m i)) xs"
  by (induction xs) (auto simp: List.map_filter_simps)

lemma Snapshot_entries: "card_inv p \<Longrightarrow> Snapshot p = map snd (entries p)"
  unfolding Snapshot_def entries_def card_inv_def using map_filter_total [of "cp_order p" "cp_cards p"]
  by (simp add: comp_def)

lemma apply_all_simulates:
  "card_inv p \<Longrightarrow>
   card_inv (apply_all ds p)
   \<and> entries (apply_all ds p) = fold spec_apply (List.map_filter ParseCardCustomPayload ds) (entries p)"
proof (induction ds arbitrary: p)
  case (Cons d ds)
  show ?case
  proof (cases "ParseCardCustomPayload d")
    case None
    then show ?thesis using Cons by (simp add: apply_all_def Apply_ignored List.map_filter_simps)
  next
    case (Some f)
    then show ?thesis using Cons.IH [of "snd (Apply d p)"] Apply_simulates [OF Cons.prems Some]
      by (simp add: apply_all_def List.map_filter_simps)
  qed
qed (simp add: apply_all_def List.map_filter_simps)

text \<open>The frames with which a daemon replays a list of cards.\<close>

definition created_frame :: "gobj \<Rightarrow> gval" where
  "created_frame c = GMap [(''type'', GStr EventCardCreated), (''data'', GMap c)]"

definition replay_frames :: "gobj list \<Rightarrow> gval list" where
  "replay_frames cs =
     GMap [(''type'', GStr EventCardReplayBegin)] # map created_frame cs @ [GMap [(''type'', GStr EventCardReplayEnd)]]"

lemma TrimSpace_card_types:
  "TrimSpace EventCardCreated = EventCardCreated" "TrimSpace EventCardReplayBegin = EventCardReplayBegin"
  "TrimSpace EventCardReplayEnd = EventCardReplayEnd"
  by (unfold card_types) code_simp+

lemma parse_created:
  assumes "wf_obj c" "trimmed_id c \<noteq> []" "idx c ''type'' \<noteq> GNil" "idx c ''content'' \<noteq> GNil"
  shows "ParseCardCustomPayload (created_frame c) = Some \<lparr>pf_WireType = EventCardCreated, pf_Card = Some c, pf_Patch = []\<rparr>"
  using assms
  by (simp add: ParseCardCustomPayload_def created_frame_def TrimSpace_card_types cardMutationTypes_def card_payload_def
      with_card_id_def put_if_def copy_into_self Let_def)

lemma parse_markers:
  "ParseCardCustomPayload (GMap [(''type'', GStr EventCardReplayBegin)])
     = Some \<lparr>pf_WireType = EventCardReplayBegin, pf_Card = None, pf_Patch = []\<rparr>"
  "ParseCardCustomPayload (GMap [(''type'', GStr EventCardReplayEnd)])
     = Some \<lparr>pf_WireType = EventCardReplayEnd, pf_Card = None, pf_Patch = []\<rparr>"
  by (simp_all add: ParseCardCustomPayload_def TrimSpace_card_types cardMutationTypes_def Let_def)

lemma map_filter_created:
  "(\<And>c. c \<in> set cs \<Longrightarrow> wf_obj c \<and> trimmed_id c \<noteq> [] \<and> idx c ''type'' \<noteq> GNil \<and> idx c ''content'' \<noteq> GNil) \<Longrightarrow>
   List.map_filter ParseCardCustomPayload (map created_frame cs @ ds)
   = map (\<lambda>c. \<lparr>pf_WireType = EventCardCreated, pf_Card = Some c, pf_Patch = []\<rparr>) cs
     @ List.map_filter ParseCardCustomPayload ds"
  by (induction cs) (simp_all add: List.map_filter_simps parse_created)

lemma spec_created_fold:
  "(\<And>c. c \<in> set cs \<Longrightarrow> trimmed_id c \<noteq> []) \<Longrightarrow> distinct (map fst acc @ map trimmed_id cs) \<Longrightarrow>
   fold spec_apply (map (\<lambda>c. \<lparr>pf_WireType = EventCardCreated, pf_Card = Some c, pf_Patch = []\<rparr>) cs) acc
   = acc @ map (\<lambda>c. (trimmed_id c, c)) cs"
proof (induction cs arbitrary: acc)
  case (Cons c cs)
  have "spec_apply \<lparr>pf_WireType = EventCardCreated, pf_Card = Some c, pf_Patch = []\<rparr> acc = acc @ [(trimmed_id c, c)]"
    using Cons.prems by (auto simp: spec_apply_def set_card_def)
  then show ?case using Cons by simp
qed simp

lemma entries_trimmed: "card_inv p \<Longrightarrow> map (\<lambda>c. (trimmed_id c, c)) (map snd (entries p)) = entries p"
  by (auto simp: entries_def card_inv_def)

section \<open>Properties\<close>

text \<open>C19: The card projection implements an ordered list of cards: after any sequence of payloads the
  snapshot is what the list specification gives for those that are card frames (a created card
  replaces in place or is appended, a patch changes only the card of its id, a replay starts from
  nothing), each id occurs once, and every card is stored under its own id and has a type.\<close>

theorem card_projection_refines:
  "card_inv (apply_all ds NewCardProjection)
   \<and> Snapshot (apply_all ds NewCardProjection)
     = map snd (fold spec_apply (List.map_filter ParseCardCustomPayload ds) [])"
  using apply_all_simulates [OF card_inv_New, of ds] Snapshot_entries [of "apply_all ds NewCardProjection"] entries_New
  by simp

text \<open>C32: Replay restores: a replay of the cards of a snapshot (begin, one created frame per card,
  end) into any projection, whatever it held before, gives the same snapshot again and ends the
  replay, as long as no patch removed the content of a card.\<close>

theorem card_replay_roundtrip:
  assumes "card_inv p" "card_inv q" "\<forall>c\<in>set (Snapshot p). idx c ''content'' \<noteq> GNil"
  shows "Snapshot (apply_all (replay_frames (Snapshot p)) q) = Snapshot p
    \<and> \<not> Replaying (apply_all (replay_frames (Snapshot p)) q)"
proof -
  let ?cs = "Snapshot p"
  have sn: "?cs = map snd (entries p)" using assms(1) by (rule Snapshot_entries)
  have ok: "wf_obj c \<and> trimmed_id c \<noteq> [] \<and> idx c ''type'' \<noteq> GNil \<and> idx c ''content'' \<noteq> GNil"
    if "c \<in> set ?cs" for c
  proof -
    from that obtain i where "cp_cards p i = Some c"
      using assms(1) by (fastforce simp: sn entries_def card_inv_def)
    then show ?thesis using that assms(1,3) by (auto simp: card_inv_def)
  qed
  have "map trimmed_id ?cs = cp_order p" using entries_trimmed [OF assms(1)]
    by (auto simp: sn entries_def card_inv_def intro!: map_idI)
  then have d: "distinct (map trimmed_id ?cs)" using assms(1) by (simp add: card_inv_def)
  have "entries (apply_all (replay_frames ?cs) q) = map (\<lambda>c. (trimmed_id c, c)) ?cs"
    using apply_all_simulates [OF assms(2), of "replay_frames ?cs"] spec_created_fold [of ?cs "[]"] d ok
    by (simp add: replay_frames_def parse_markers List.map_filter_simps map_filter_created spec_apply_def)
  then have "entries (apply_all (replay_frames ?cs) q) = entries p" using entries_trimmed [OF assms(1)] sn by simp
  moreover have "card_inv (apply_all (replay_frames ?cs) q)" using apply_all_simulates [OF assms(2)] by blast
  moreover have "\<not> Replaying (apply_all (replay_frames ?cs) q)"
    by (simp add: replay_frames_def apply_all_def Apply_def parse_markers Replaying_def)
  ultimately show ?thesis using sn Snapshot_entries by metis
qed

theorem card_replay_roundtrip_witness:
  "Snapshot (apply_all (replay_frames (Snapshot (apply_all
      [created_frame [(''id'', GStr ''a''), (''type'', GStr ''text''), (''content'', GStr ''x'')]] NewCardProjection)))
     NewCardProjection)
   = [[(''id'', GStr ''a''), (''type'', GStr ''text''), (''content'', GStr ''x'')]]"
proof -
  let ?c = "[(''id'', GStr ''a''), (''type'', GStr ''text''), (''content'', GStr ''x'')]"
  let ?p = "apply_all [created_frame ?c] NewCardProjection"
  have sn: "Snapshot ?p = [?c]" by (unfold created_frame_def card_types) code_simp
  have inv: "card_inv ?p" using apply_all_simulates [OF card_inv_New] by blast
  from card_replay_roundtrip [OF inv card_inv_New] show ?thesis unfolding sn by simp
qed

end
