(* ===== verification/Heartbeat.thy ===== *)
theory Heartbeat
  imports Errors
begin

text \<open>
  The daemon heartbeat tracker (heartbeat.go). Instants are nanoseconds on one clock and the zero
  \<^verbatim>\<open>time.Time\<close> is \<open>None\<close>; the current instant is an argument of every operation that reads the
  clock. Durations are 64-bit and \<^verbatim>\<open>time.Since\<close> saturates, as the standard library does.
\<close>

section \<open>Time\<close>

type_synonym gtime = "int option"

definition second :: int where "second = 1000000000"
definition millisecond :: int where "millisecond = 1000000"

definition Since :: "int \<Rightarrow> gtime \<Rightarrow> int" where
  "Since now t =
     (case t of
        None \<Rightarrow> int64_max
      | Some t0 \<Rightarrow> max int64_min (min int64_max (now - t0)))"

section \<open>State and operations\<close>

record DaemonHealth =
  dh_LastHeartbeat :: gtime
  dh_State :: string
  dh_LoopID :: string
  dh_IsAlive :: bool

record HeartbeatTracker =
  ht_lastHeartbeat :: gtime
  ht_daemonState :: string
  ht_heartbeatLoopID :: string
  ht_aliveThreshold :: int
  ht_startTime :: gtime

definition NewHeartbeatTrackerWithThreshold :: "int \<Rightarrow> int \<Rightarrow> HeartbeatTracker" where
  "NewHeartbeatTrackerWithThreshold now aliveThreshold =
     \<lparr>ht_lastHeartbeat = None, ht_daemonState = [], ht_heartbeatLoopID = [],
      ht_aliveThreshold = aliveThreshold, ht_startTime = Some now\<rparr>"

definition NewHeartbeatTracker :: "int \<Rightarrow> HeartbeatTracker" where
  "NewHeartbeatTracker now =
     \<lparr>ht_lastHeartbeat = None, ht_daemonState = [], ht_heartbeatLoopID = [],
      ht_aliveThreshold = 15 * second, ht_startTime = Some now\<rparr>"

definition Update :: "int \<Rightarrow> gmap \<Rightarrow> HeartbeatTracker \<Rightarrow> HeartbeatTracker" where
  "Update now heartbeatData t =
     (let t1 = t\<lparr>ht_lastHeartbeat := Some now\<rparr>;
          t2 = (case as_str (midx heartbeatData ''state'') of
                  Some st \<Rightarrow> t1\<lparr>ht_daemonState := st\<rparr> | None \<Rightarrow> t1)
      in case as_str (midx heartbeatData ''loop_id'') of
           Some l \<Rightarrow> t2\<lparr>ht_heartbeatLoopID := l\<rparr> | None \<Rightarrow> t2)"

definition GetHealth :: "int \<Rightarrow> HeartbeatTracker \<Rightarrow> DaemonHealth" where
  "GetHealth now t =
     (let timeSinceLast = Since now (ht_lastHeartbeat t);
          timeSinceStart = Since now (ht_startTime t);
          gracePeriod = 20 * second
      in \<lparr>dh_LastHeartbeat = ht_lastHeartbeat t, dh_State = ht_daemonState t,
          dh_LoopID = ht_heartbeatLoopID t,
          dh_IsAlive = (timeSinceLast < ht_aliveThreshold t \<or> timeSinceStart < gracePeriod)\<rparr>)"

definition IsProcessing :: "HeartbeatTracker \<Rightarrow> bool" where
  "IsProcessing t \<longleftrightarrow> ht_daemonState t = ''running''"

definition IsIdle :: "HeartbeatTracker \<Rightarrow> bool" where
  "IsIdle t \<longleftrightarrow> ht_daemonState t = ''idle''"

definition SetAliveThreshold :: "int \<Rightarrow> HeartbeatTracker \<Rightarrow> HeartbeatTracker" where
  "SetAliveThreshold threshold t = t\<lparr>ht_aliveThreshold := threshold\<rparr>"

definition Reset :: "int \<Rightarrow> HeartbeatTracker \<Rightarrow> HeartbeatTracker" where
  "Reset now t =
     t\<lparr>ht_lastHeartbeat := None, ht_daemonState := [], ht_heartbeatLoopID := [],
       ht_startTime := Some now\<rparr>"

text \<open>The result flag and the tracker after it.\<close>

definition ProcessHeartbeatEvent :: "gmap \<Rightarrow> HeartbeatTracker \<Rightarrow> bool \<times> HeartbeatTracker" where
  "ProcessHeartbeatEvent event t =
     (case as_str (midx event ''type'') of
        None \<Rightarrow> (False, t)
      | Some eventType \<Rightarrow>
          if eventType \<noteq> ''event'' then (False, t)
          else (case as_map (midx event ''data'') of
                  None \<Rightarrow> (False, t)
                | Some _ \<Rightarrow> (False, t)))"

text \<open>The blocking wait: the timers that fire, in order, each at an instant and with the tracker
  as other goroutines have left it by then. The result is \<open>None\<close> while no timer ends the wait.\<close>

record HeartbeatError =
  he_LastHeartbeat :: gtime
  he_State :: string
  he_Message :: string

datatype wake = DeadlineFires int HeartbeatTracker | CheckFires int HeartbeatTracker

fun WaitForAlive :: "wake list \<Rightarrow> (HeartbeatError + unit) option" where
  "WaitForAlive [] = None"
| "WaitForAlive (DeadlineFires now t # ws) =
     (let health = GetHealth now t
      in Some (Inl \<lparr>he_LastHeartbeat = dh_LastHeartbeat health, he_State = dh_State health,
                    he_Message = ''timeout waiting for daemon to be alive''\<rparr>))"
| "WaitForAlive (CheckFires now t # ws) =
     (if dh_IsAlive (GetHealth now t) then Some (Inr ()) else WaitForAlive ws)"

definition HeartbeatError_Error :: "(gtime \<Rightarrow> string) \<Rightarrow> HeartbeatError \<Rightarrow> string" where
  "HeartbeatError_Error fmt_time e =
     (if he_LastHeartbeat e = None then he_Message e @ '' (no heartbeat received)''
      else he_Message e @ '' (last heartbeat: '' @ fmt_time (he_LastHeartbeat e) @ '', state: ''
             @ he_State e @ '')'')"

section \<open>Lemmas\<close>

lemma Since_le_max: "Since now t \<le> int64_max"
  by (simp add: Since_def int64_max_def int64_min_def split: option.splits)

lemma Since_mono: "now \<le> now' \<Longrightarrow> Since now t \<le> Since now' t"
  by (cases t) (auto simp: Since_def)

lemma Update_fields [simp]:
  "ht_lastHeartbeat (Update now d t) = Some now"
  "ht_aliveThreshold (Update now d t) = ht_aliveThreshold t"
  "ht_startTime (Update now d t) = ht_startTime t"
  by (simp_all add: Update_def Let_def split: option.splits)

lemma ProcessHeartbeatEvent_none [simp]: "ProcessHeartbeatEvent event t = (False, t)"
  by (simp add: ProcessHeartbeatEvent_def split: option.splits)

lemma IsAlive_iff:
  "dh_IsAlive (GetHealth now t) \<longleftrightarrow>
     Since now (ht_lastHeartbeat t) < ht_aliveThreshold t \<or> Since now (ht_startTime t) < 20 * second"
  by (simp add: GetHealth_def Let_def)

section \<open>Properties\<close>

text \<open>A heartbeat keeps the daemon alive for exactly the threshold once the start-up grace has
  passed: after an update at \<open>t0\<close>, and with no later update, the daemon counts as alive at \<open>now\<close> if
  and only if less than the threshold has passed since \<open>t0\<close> or the 20 second grace is running; and
  liveness never returns by the mere passing of time.\<close>

theorem heartbeat_liveness:
  assumes "t0 \<le> now" "now \<le> now'" "now' - t0 \<le> int64_max" "ht_startTime t = Some s0" "s0 \<le> t0"
    "now' - s0 \<le> int64_max"
  shows "(dh_IsAlive (GetHealth now (Update t0 d t)) \<longleftrightarrow>
            now - t0 < ht_aliveThreshold t \<or> now - s0 < 20 * second)
    \<and> (dh_IsAlive (GetHealth now' (Update t0 d t)) \<longrightarrow> dh_IsAlive (GetHealth now (Update t0 d t)))"
proof
  show "dh_IsAlive (GetHealth now (Update t0 d t)) \<longleftrightarrow>
      now - t0 < ht_aliveThreshold t \<or> now - s0 < 20 * second"
    using assms by (auto simp: IsAlive_iff Since_def int64_min_def)
  show "dh_IsAlive (GetHealth now' (Update t0 d t)) \<longrightarrow> dh_IsAlive (GetHealth now (Update t0 d t))"
    using assms(2) Since_mono [of now now'] unfolding IsAlive_iff by (meson order_le_less_trans)
qed

theorem heartbeat_liveness_witness:
  "dh_IsAlive (GetHealth (34 * second) (Update (20 * second) None (NewHeartbeatTracker 0)))
   \<and> \<not> dh_IsAlive (GetHealth (35 * second) (Update (20 * second) None (NewHeartbeatTracker 0)))"
  using heartbeat_liveness [of "20 * second" "34 * second" "34 * second" "NewHeartbeatTracker 0" 0 None]
    heartbeat_liveness [of "20 * second" "35 * second" "35 * second" "NewHeartbeatTracker 0" 0 None]
  by (simp add: NewHeartbeatTracker_def second_def int64_max_def)

text \<open>The automatic processing of events never records a heartbeat: whatever events pass
  through \<^verbatim>\<open>ProcessHeartbeatEvent\<close>, a tracker that gets its data only from there reports the
  daemon dead from twenty seconds after its start on, for ever.\<close>

theorem auto_tracking_expires:
  assumes "20 * second \<le> now - start" "thr \<le> int64_max"
  shows "\<not> dh_IsAlive (GetHealth now
           (fold (\<lambda>ev t. snd (ProcessHeartbeatEvent ev t)) evs
             (NewHeartbeatTrackerWithThreshold start thr)))"
proof -
  have id: "fold (\<lambda>ev t. snd (ProcessHeartbeatEvent ev t)) evs t = t" for t
    by (induction evs arbitrary: t) auto
  show ?thesis
    using assms unfolding id IsAlive_iff
    by (auto simp: NewHeartbeatTrackerWithThreshold_def Since_def second_def int64_max_def)
qed

theorem auto_tracking_expires_witness:
  "\<not> dh_IsAlive (GetHealth (20 * second)
      (fold (\<lambda>ev t. snd (ProcessHeartbeatEvent ev t))
        [Some [(''type'', GStr ''event''), (''data'', GMap [(''state'', GStr ''running'')])]]
        (NewHeartbeatTrackerWithThreshold 0 (15 * second))))"
  by (rule auto_tracking_expires) (simp_all add: second_def int64_max_def)

end
