(* ===== verification/Config.thy ===== *)
theory Config
  imports Heartbeat
begin

text \<open>
  The client configuration (config.go): the defaults and the overrides from the environment. The
  environment is a function from variable names to values, with the empty string for an unset
  variable, as \<^verbatim>\<open>os.Getenv\<close> reads it. Durations are 64-bit nanoseconds and the product
  \<^verbatim>\<open>time.Duration(val) * time.Second\<close> wraps around.
\<close>

record Config =
  cfg_DaemonURL :: string
  cfg_VerbosityLevel :: string
  cfg_MaxRetries :: int
  cfg_ReconnectDelay :: int
  cfg_HeartbeatInterval :: int
  cfg_DaemonReadyTimeout :: int
  cfg_LoopStatusTimeout :: int
  cfg_SubscriptionTimeout :: int
  cfg_ReconnectMaxAttempts :: int
  cfg_ReconnectInitialDelay :: int
  cfg_ReconnectMaxDelay :: int
  cfg_ReattachProbeTimeout :: int

definition wrap64 :: "int \<Rightarrow> int" where
  "wrap64 n = (n + 2 ^ 63) mod 2 ^ 64 - 2 ^ 63"

definition DefaultConfig :: Config where
  "DefaultConfig =
     \<lparr>cfg_DaemonURL = ''ws://localhost:8765'', cfg_VerbosityLevel = ''normal'', cfg_MaxRetries = 5,
      cfg_ReconnectDelay = 2 * second, cfg_HeartbeatInterval = 30 * second,
      cfg_DaemonReadyTimeout = 20 * second, cfg_LoopStatusTimeout = 60 * second,
      cfg_SubscriptionTimeout = 10 * second, cfg_ReconnectMaxAttempts = 10,
      cfg_ReconnectInitialDelay = 500 * millisecond, cfg_ReconnectMaxDelay = 10 * second,
      cfg_ReattachProbeTimeout = 5 * second\<rparr>"

text \<open>A timeout in seconds, when the variable is a positive decimal number.\<close>

definition env_seconds :: "string \<Rightarrow> int \<Rightarrow> int" where
  "env_seconds s dflt =
     (if s \<noteq> [] then
        (case Atoi s of Some v \<Rightarrow> if v > 0 then wrap64 (v * second) else dflt | None \<Rightarrow> dflt)
      else dflt)"

definition LoadConfigFromEnv :: "(string \<Rightarrow> string) \<Rightarrow> Config" where
  "LoadConfigFromEnv getenv =
     (let c0 = DefaultConfig;
          url = getenv ''SOOTHE_DAEMON_URL'';
          c1 = (if url \<noteq> [] then c0\<lparr>cfg_DaemonURL := url\<rparr> else c0);
          verbosity = getenv ''SOOTHE_VERBOSITY'';
          c2 = (if verbosity \<noteq> [] then c1\<lparr>cfg_VerbosityLevel := verbosity\<rparr> else c1);
          retries = getenv ''SOOTHE_MAX_RETRIES'';
          c3 = (if retries \<noteq> [] then
                  (case Atoi retries of Some v \<Rightarrow> c2\<lparr>cfg_MaxRetries := v\<rparr> | None \<Rightarrow> c2)
                else c2)
      in c3\<lparr>cfg_DaemonReadyTimeout :=
              env_seconds (getenv ''SOOTHE_DAEMON_READY_TIMEOUT_SEC'') (cfg_DaemonReadyTimeout c3),
            cfg_LoopStatusTimeout :=
              env_seconds (getenv ''SOOTHE_LOOP_STATUS_TIMEOUT_SEC'') (cfg_LoopStatusTimeout c3),
            cfg_SubscriptionTimeout :=
              env_seconds (getenv ''SOOTHE_SUBSCRIPTION_TIMEOUT_SEC'') (cfg_SubscriptionTimeout c3)\<rparr>)"

section \<open>Lemmas\<close>

lemma wrap64_id: "int64_min \<le> n \<Longrightarrow> n \<le> int64_max \<Longrightarrow> wrap64 n = n"
  by (simp add: wrap64_def int64_min_def int64_max_def)

lemma wrap64_range: "int64_min \<le> wrap64 n \<and> wrap64 n \<le> int64_max"
proof -
  have "0 \<le> (n + 2 ^ 63) mod 2 ^ 64" "(n + 2 ^ 63) mod 2 ^ 64 < 2 ^ 64"
    by (rule pos_mod_sign, simp) (rule pos_mod_bound, simp)
  then show ?thesis by (simp add: wrap64_def int64_min_def int64_max_def)
qed

lemma env_seconds_numeral:
  assumes "1 \<le> v" "v \<le> 9223372036"
  shows "env_seconds (Itoa v) dflt = v * second"
proof -
  have "int64_min \<le> v" "v \<le> int64_max" "int64_min \<le> v * second" "v * second \<le> int64_max"
    using assms by (simp_all add: int64_min_def int64_max_def second_def)
  moreover from this have a: "Atoi (Itoa v) = Some v" by (simp add: Atoi_Itoa)
  moreover have "Itoa v \<noteq> []" using a by (auto simp: Atoi_def)
  ultimately show ?thesis using assms by (simp add: env_seconds_def wrap64_id)
qed

lemma LoadConfig_timeouts:
  "cfg_DaemonReadyTimeout (LoadConfigFromEnv ge) = env_seconds (ge ''SOOTHE_DAEMON_READY_TIMEOUT_SEC'') (20 * second)"
  "cfg_LoopStatusTimeout (LoadConfigFromEnv ge) = env_seconds (ge ''SOOTHE_LOOP_STATUS_TIMEOUT_SEC'') (60 * second)"
  "cfg_SubscriptionTimeout (LoadConfigFromEnv ge) = env_seconds (ge ''SOOTHE_SUBSCRIPTION_TIMEOUT_SEC'') (10 * second)"
  by (simp_all add: LoadConfigFromEnv_def DefaultConfig_def Let_def split: option.split)

section \<open>Properties\<close>

text \<open>A timeout given in seconds is taken exactly when it lies in \<open>1 \<dots> 9223372036\<close>; text that is
  not a positive decimal number leaves the default. Above that bound the product overflows: a
  larger setting can become a negative duration.\<close>

theorem config_timeouts:
  shows "(1 \<le> v \<and> v \<le> 9223372036 \<and> ge ''SOOTHE_LOOP_STATUS_TIMEOUT_SEC'' = Itoa v \<longrightarrow>
            cfg_LoopStatusTimeout (LoadConfigFromEnv ge) = v * second)
    \<and> ((\<forall>v. Atoi (ge ''SOOTHE_LOOP_STATUS_TIMEOUT_SEC'') = Some v \<longrightarrow> v \<le> 0) \<longrightarrow>
            cfg_LoopStatusTimeout (LoadConfigFromEnv ge) = 60 * second)
    \<and> (ge ''SOOTHE_LOOP_STATUS_TIMEOUT_SEC'' = Itoa 9223372037 \<longrightarrow>
            cfg_LoopStatusTimeout (LoadConfigFromEnv ge) < 0)"
proof (intro conjI impI)
  assume "ge ''SOOTHE_LOOP_STATUS_TIMEOUT_SEC'' = Itoa 9223372037"
  moreover have "Atoi (Itoa 9223372037) = Some 9223372037"
    by (rule Atoi_Itoa) (simp_all add: int64_min_def int64_max_def)
  moreover from this have "Itoa 9223372037 \<noteq> []" by (auto simp: Atoi_def)
  ultimately show "cfg_LoopStatusTimeout (LoadConfigFromEnv ge) < 0"
    by (simp add: LoadConfig_timeouts env_seconds_def wrap64_def second_def)
qed (auto simp: LoadConfig_timeouts env_seconds_numeral, auto simp: env_seconds_def split: option.split)

theorem config_timeouts_witness:
  "cfg_LoopStatusTimeout (LoadConfigFromEnv (\<lambda>k. if k = ''SOOTHE_LOOP_STATUS_TIMEOUT_SEC'' then Itoa 90 else []))
     = 90 * second
   \<and> cfg_LoopStatusTimeout (LoadConfigFromEnv (\<lambda>k. [])) = 60 * second"
  using config_timeouts [of 90 "\<lambda>k. if k = ''SOOTHE_LOOP_STATUS_TIMEOUT_SEC'' then Itoa 90 else []"]
    config_timeouts [of 1 "\<lambda>k. []"]
  by (simp add: Atoi_def)

end
