(* ===== verification/Client_Link.thy ===== *)
theory Client_Link
  imports Config Mux
begin

text \<open>
  The client's state and its connection (client.go): the \<^verbatim>\<open>Client\<close> struct, the drop signal, sending,
  closing and the accessors. The mutex \<^verbatim>\<open>c.mu\<close> is a flag that says whether a goroutine holds it: an
  operation that locks a held mutex blocks, and \<^verbatim>\<open>sync.Once\<close> distinguishes a call in progress from
  a finished one. The WebSocket library is not part of the sources: what its calls return is input
  of the model, as lists of results that the environment supplies, and what is written is
  recorded.
\<close>

section \<open>State\<close>

datatype once = OnceFresh | OnceRunning | OnceDone

record dchan =
  dc_buf :: "DisconnectCause list"
  dc_closed :: bool

record Client =
  c_url :: string
  c_config :: Config
  c_conn :: "nat option"
  c_mu :: bool
  c_closed :: bool
  c_heartbeatTracker :: "HeartbeatTracker option"
  c_handshakeComplete :: bool
  c_negotiatedCapabilities :: "string list"
  c_protocolVersion :: string
  c_readinessState :: string
  c_heartbeatIntervalMs :: int
  c_disconnCh :: dchan
  c_disconnOnce :: once
  c_disconnCause :: DisconnectCause
  c_disconnected :: bool
  c_mux :: mux
  c_readerActive :: bool
  c_pendingEvents :: "gobj list"
  c_inboundMaxSize :: int
  c_inboundDropped :: int
  c_onStreamDegraded :: bool
  c_deliveryRecvSeq :: "string \<Rightarrow> int"
  c_deliveryAckedSeq :: "string \<Rightarrow> int"

text \<open>One result of \<^verbatim>\<open>ReadMessage\<close>: bytes, a deadline error, another error, or a panic of the library
  on a failed connection.\<close>

datatype read = RData string | RTimeout | RError | RPanic

text \<open>The client with its environment: results of the coming reads and writes, the messages
  written, the sockets closed, the goroutines started to send delivery acks and the calls of the
  degradation callback.\<close>

record env = Client +
  e_reads :: "read list"
  e_writes :: "bool list"
  e_sent :: "msg list"
  e_closedConns :: "nat list"
  e_acks :: "(string \<times> int) list"
  e_degraded :: "(int \<times> string) list"

definition DefaultInboundMaxSize :: int where "DefaultInboundMaxSize = 20000"

definition open_dchan :: dchan where "open_dchan = \<lparr>dc_buf = [], dc_closed = False\<rparr>"

definition NewClient :: "string \<Rightarrow> Config option \<Rightarrow> Client" where
  "NewClient url cfg =
     \<lparr>c_url = url, c_config = (case cfg of None \<Rightarrow> DefaultConfig | Some c \<Rightarrow> c), c_conn = None,
      c_mu = False, c_closed = False, c_heartbeatTracker = None, c_handshakeComplete = False,
      c_negotiatedCapabilities = [], c_protocolVersion = [], c_readinessState = [],
      c_heartbeatIntervalMs = 0, c_disconnCh = open_dchan, c_disconnOnce = OnceFresh,
      c_disconnCause = DisconnectUnclean, c_disconnected = False, c_mux = newMux,
      c_readerActive = False, c_pendingEvents = [], c_inboundMaxSize = DefaultInboundMaxSize,
      c_inboundDropped = 0, c_onStreamDegraded = False, c_deliveryRecvSeq = (\<lambda>_. 0),
      c_deliveryAckedSeq = (\<lambda>_. 0)\<rparr>"

definition start_env :: "Client \<Rightarrow> read list \<Rightarrow> bool list \<Rightarrow> env" where
  "start_env c rs ws =
     Client.extend c (env.fields rs ws [] [] [] [])"

section \<open>Locking\<close>

definition locked :: "(env \<Rightarrow> 'a \<times> env) \<Rightarrow> env \<Rightarrow> (env, 'a) run" where
  "locked f s = (if c_mu s then Hang s else case f s of (x, s') \<Rightarrow> Ret x s')"

section \<open>The drop signal\<close>

definition Disconnected :: "env \<Rightarrow> (env, dchan) run" where
  "Disconnected s = locked (\<lambda>s. (c_disconnCh s, s)) s"

definition DisconnectCauseValue :: "env \<Rightarrow> (env, DisconnectCause) run" where
  "DisconnectCauseValue s = locked (\<lambda>s. (c_disconnCause s, s)) s"

text \<open>Sending on or closing a closed channel panics.\<close>

definition signalDisconnect :: "DisconnectCause \<Rightarrow> env \<Rightarrow> (env, unit) run" where
  "signalDisconnect cause s =
     (case c_disconnOnce s of
        OnceDone \<Rightarrow> Ret () s
      | OnceRunning \<Rightarrow> Hang s
      | OnceFresh \<Rightarrow>
          (let s0 = s\<lparr>c_disconnOnce := OnceRunning\<rparr>
           in if c_mu s0 then Hang s0
              else
                (let s1 = s0\<lparr>c_disconnCause := cause, c_disconnected := True\<rparr>;
                     ch = c_disconnCh s1
                 in if dc_closed ch then Crash s1
                    else Ret () (s1\<lparr>c_disconnCh := \<lparr>dc_buf = try_send 1 cause (dc_buf ch), dc_closed = True\<rparr>,
                                    c_disconnOnce := OnceDone\<rparr>))))"

text \<open>A consumer's receive from the channel: the buffered cause first, then, from a closed channel,
  the zero value; an open empty channel blocks.\<close>

definition recvDisconnect :: "dchan \<Rightarrow> (DisconnectCause \<times> bool \<times> dchan) option" where
  "recvDisconnect ch =
     (case dc_buf ch of
        x # xs \<Rightarrow> Some (x, True, ch\<lparr>dc_buf := xs\<rparr>)
      | [] \<Rightarrow> if dc_closed ch then Some (DisconnectUnclean, False, ch) else None)"

section \<open>Sending\<close>

definition write_msg :: "msg \<Rightarrow> env \<Rightarrow> bool \<times> env" where
  "write_msg m s =
     (case e_writes s of
        [] \<Rightarrow> (True, s\<lparr>e_sent := e_sent s @ [m]\<rparr>)
      | True # ws \<Rightarrow> (True, s\<lparr>e_writes := ws, e_sent := e_sent s @ [m]\<rparr>)
      | False # ws \<Rightarrow> (False, s\<lparr>e_writes := ws\<rparr>))"

text \<open>The deferred unlock runs after \<^verbatim>\<open>signalDisconnect\<close>: the mutex is held during the call. The
  context's state when it is polled is an argument.\<close>

definition SendMessage :: "goerr option \<Rightarrow> msg \<Rightarrow> env \<Rightarrow> (env, goerr option) run" where
  "SendMessage cx m s =
     (if c_mu s then Hang s
      else if c_conn s = None \<or> c_closed s then Ret (Some (ErrText ''soothe: not connected'')) s
      else case cx of
        Some e \<Rightarrow> Ret (Some (ErrWrap ''soothe'' e)) s
      | None \<Rightarrow>
          (case write_msg m s of
             (True, s1) \<Rightarrow> Ret None s1
           | (False, s1) \<Rightarrow>
               andThen (signalDisconnect DisconnectUnclean (s1\<lparr>c_mu := True\<rparr>))
                 (\<lambda>_ s2. Ret (Some (ErrNet ''write failed'' False)) (s2\<lparr>c_mu := False\<rparr>))))"

definition Notify :: "goerr option \<Rightarrow> string \<Rightarrow> gmap \<Rightarrow> env \<Rightarrow> (env, goerr option) run" where
  "Notify cx mth params s = SendMessage cx (MEnvelope (NewNotificationEnvelope mth params)) s"

definition sendPong :: "env \<Rightarrow> (env, unit) run" where
  "sendPong s =
     locked (\<lambda>s. if c_conn s = None \<or> c_closed s then ((), s)
                 else ((), snd (write_msg (MEnvelope NewPongEnvelope) s))) s"

text \<open>Whether the frame was consumed.\<close>

definition isControlFrame :: "msg \<Rightarrow> env \<Rightarrow> (env, bool) run" where
  "isControlFrame m s =
     (case m of
        MEnvelope env \<Rightarrow>
          if env_Type env = ''ping'' then andThen (sendPong s) (\<lambda>_ s'. Ret True s')
          else if env_Type env = ''pong'' then Ret True s
          else if env_Type env = ''disconnect'' then
            andThen (signalDisconnect DisconnectClean s) (\<lambda>_ s'. Ret True s')
          else Ret False s
      | _ \<Rightarrow> Ret False s)"

section \<open>Closing\<close>

definition Close :: "env \<Rightarrow> (env, goerr option) run" where
  "Close s =
     (if c_mu s then Hang s
      else if c_closed s \<or> c_conn s = None then Ret None s
      else
        (let conn = the (c_conn s);
             s1 = s\<lparr>c_closed := True, c_conn := None, e_closedConns := conn # e_closedConns s\<rparr>
         in andThen (signalDisconnect DisconnectUnclean s1) (\<lambda>_ s2. Ret None s2)))"

section \<open>Accessors\<close>

definition IsHandshakeComplete :: "env \<Rightarrow> (env, bool) run" where
  "IsHandshakeComplete s = locked (\<lambda>s. (c_handshakeComplete s, s)) s"

definition ReadinessState :: "env \<Rightarrow> (env, string) run" where
  "ReadinessState s = locked (\<lambda>s. (c_readinessState s, s)) s"

definition IsConnected :: "env \<Rightarrow> (env, bool) run" where
  "IsConnected s = locked (\<lambda>s. (c_conn s \<noteq> None \<and> \<not> c_closed s, s)) s"

definition IsDisconnected :: "env \<Rightarrow> bool" where
  "IsDisconnected s = c_disconnected s"

definition IsConnectionAlive :: "env \<Rightarrow> (env, bool) run" where
  "IsConnectionAlive s = andThen (IsConnected s) (\<lambda>b s'. Ret (b \<and> \<not> IsDisconnected s') s')"

definition EnableHeartbeatTracking :: "int \<Rightarrow> env \<Rightarrow> (env, unit) run" where
  "EnableHeartbeatTracking now s =
     locked (\<lambda>s. ((), if c_heartbeatTracker s = None
                       then s\<lparr>c_heartbeatTracker := Some (NewHeartbeatTracker now)\<rparr> else s)) s"

definition EnableHeartbeatTrackingWithThreshold :: "int \<Rightarrow> int \<Rightarrow> env \<Rightarrow> (env, unit) run" where
  "EnableHeartbeatTrackingWithThreshold now threshold s =
     locked (\<lambda>s. ((), s\<lparr>c_heartbeatTracker := Some (NewHeartbeatTrackerWithThreshold now threshold)\<rparr>)) s"

definition DisableHeartbeatTracking :: "env \<Rightarrow> (env, unit) run" where
  "DisableHeartbeatTracking s = locked (\<lambda>s. ((), s\<lparr>c_heartbeatTracker := None\<rparr>)) s"

definition GetDaemonHealth :: "int \<Rightarrow> env \<Rightarrow> (env, DaemonHealth option) run" where
  "GetDaemonHealth now s = locked (\<lambda>s. (map_option (GetHealth now) (c_heartbeatTracker s), s)) s"

definition IsDaemonAlive :: "int \<Rightarrow> env \<Rightarrow> (env, bool) run" where
  "IsDaemonAlive now s =
     andThen (GetDaemonHealth now s)
       (\<lambda>health s'. Ret (case health of None \<Rightarrow> False | Some h \<Rightarrow> dh_IsAlive h) s')"

definition NewClientWithHeartbeat :: "int \<Rightarrow> string \<Rightarrow> Config option \<Rightarrow> Client" where
  "NewClientWithHeartbeat now url cfg =
     (NewClient url cfg)\<lparr>c_heartbeatTracker := Some (NewHeartbeatTracker now)\<rparr>"

definition SetStreamDegradedCallback :: "bool \<Rightarrow> env \<Rightarrow> (env, unit) run" where
  "SetStreamDegradedCallback fn s = locked (\<lambda>s. ((), s\<lparr>c_onStreamDegraded := fn\<rparr>)) s"

definition InboundDropped :: "env \<Rightarrow> (env, int) run" where
  "InboundDropped s = locked (\<lambda>s. (c_inboundDropped s, s)) s"

section \<open>Sequences of operations\<close>

text \<open>What may happen to a link between two connects, in any order: sends, closes, control frames and
  drop signals from the readers, and consumers that receive from the channel. A run collects the
  causes that consumers received.\<close>

datatype link_op =
    OpSend "goerr option" msg
  | OpClose
  | OpSignal DisconnectCause
  | OpControl msg
  | OpReceive

definition link_exec :: "link_op \<Rightarrow> env \<Rightarrow> (env, DisconnectCause list) run" where
  "link_exec op s =
     (case op of
        OpSend cx m \<Rightarrow> andThen (SendMessage cx m s) (\<lambda>_ s'. Ret [] s')
      | OpClose \<Rightarrow> andThen (Close s) (\<lambda>_ s'. Ret [] s')
      | OpSignal cause \<Rightarrow> andThen (signalDisconnect cause s) (\<lambda>_ s'. Ret [] s')
      | OpControl m \<Rightarrow> andThen (isControlFrame m s) (\<lambda>_ s'. Ret [] s')
      | OpReceive \<Rightarrow>
          (case recvDisconnect (c_disconnCh s) of
             None \<Rightarrow> Ret [] s
           | Some (x, ok, ch') \<Rightarrow> Ret (if ok then [x] else []) (s\<lparr>c_disconnCh := ch'\<rparr>)))"

fun link_run :: "link_op list \<Rightarrow> env \<Rightarrow> (env, DisconnectCause list) run" where
  "link_run [] s = Ret [] s"
| "link_run (op # ops) s =
     andThen (link_exec op s) (\<lambda>got s'. andThen (link_run ops s') (\<lambda>got' s''. Ret (got @ got') s''))"

text \<open>The link's invariant, relative to the causes already received.\<close>

definition link_inv :: "DisconnectCause list \<Rightarrow> env \<Rightarrow> bool" where
  "link_inv got s \<longleftrightarrow>
     \<not> c_mu s \<and>
     (case c_disconnOnce s of
        OnceFresh \<Rightarrow> c_disconnCh s = open_dchan \<and> \<not> c_disconnected s \<and> got = []
      | OnceRunning \<Rightarrow> False
      | OnceDone \<Rightarrow> dc_closed (c_disconnCh s) \<and> c_disconnected s
          \<and> got @ dc_buf (c_disconnCh s) = [c_disconnCause s])"

text \<open>The state after the self-deadlock: the mutex is held for ever.\<close>

definition link_stuck :: "env \<Rightarrow> bool" where
  "link_stuck s \<longleftrightarrow> c_mu s \<and> c_disconnOnce s = OnceRunning \<and> \<not> c_disconnected s
     \<and> c_disconnCh s = open_dchan"

lemma write_msg_fields [simp]:
  "c_mu (snd (write_msg m s)) = c_mu s"
  "c_disconnOnce (snd (write_msg m s)) = c_disconnOnce s"
  "c_disconnCh (snd (write_msg m s)) = c_disconnCh s"
  "c_disconnected (snd (write_msg m s)) = c_disconnected s"
  "c_disconnCause (snd (write_msg m s)) = c_disconnCause s"
  "c_conn (snd (write_msg m s)) = c_conn s"
  "c_closed (snd (write_msg m s)) = c_closed s"
  by (simp_all add: write_msg_def split: list.split bool.split)

lemma signalDisconnect_inv:
  assumes "link_inv got s"
  shows "\<exists>s'. signalDisconnect cause s = Ret () s' \<and> link_inv got s' \<and> c_disconnected s'
    \<and> (c_disconnected s \<longrightarrow> c_disconnCause s' = c_disconnCause s)
    \<and> (\<not> c_disconnected s \<longrightarrow> c_disconnCause s' = cause)"
  using assms
  by (cases "c_disconnOnce s")
     (simp_all add: signalDisconnect_def link_inv_def open_dchan_def try_send_def Let_def)

lemma SendMessage_inv:
  assumes inv: "link_inv got s"
  shows "case SendMessage cx m s of
           Ret e s' \<Rightarrow> link_inv got s' \<and> c_disconnected s' = c_disconnected s
             \<and> c_disconnCause s' = c_disconnCause s
         | Hang s' \<Rightarrow> link_stuck s' \<and> got = [] | Crash s' \<Rightarrow> False"
proof -
  obtain ok s1 where w: "write_msg m s = (ok, s1)" by fastforce
  from write_msg_fields [of m s] w have f: "c_mu s1 = c_mu s" "c_disconnOnce s1 = c_disconnOnce s"
    "c_disconnCh s1 = c_disconnCh s" "c_disconnected s1 = c_disconnected s"
    "c_disconnCause s1 = c_disconnCause s" by simp_all
  show ?thesis
    using inv f
    by (cases "c_disconnOnce s"; cases ok)
       (auto simp: SendMessage_def w link_inv_def link_stuck_def signalDisconnect_def Let_def
         split: option.split)
qed

text \<open>How an operation leaves the link: a state that satisfies the invariant with what was received
  added, in which an earlier cause is kept; or the self-deadlock, before any cause was given out.\<close>

definition link_post :: "DisconnectCause list \<Rightarrow> env \<Rightarrow> (env, DisconnectCause list) run \<Rightarrow> bool" where
  "link_post got s r =
     (case r of
        Ret new s' \<Rightarrow> link_inv (got @ new) s'
          \<and> (c_disconnected s \<longrightarrow> c_disconnected s' \<and> c_disconnCause s' = c_disconnCause s)
      | Hang s' \<Rightarrow> link_stuck s' \<and> got = []
      | Crash s' \<Rightarrow> False)"

lemma link_post_signal:
  "link_inv got s \<Longrightarrow> link_post got s (andThen (signalDisconnect cause s) (\<lambda>_ s'. Ret [] s'))"
  using signalDisconnect_inv [of got s cause] by (auto simp: link_post_def)

lemma link_post_send:
  "link_inv got s \<Longrightarrow> link_post got s (andThen (SendMessage cx m s) (\<lambda>_ s'. Ret [] s'))"
  using SendMessage_inv [of got s cx m] by (cases "SendMessage cx m s") (auto simp: link_post_def)

lemma link_inv_update [simp]:
  "link_inv got (s\<lparr>c_closed := b, c_conn := cn, e_closedConns := cl\<rparr>) = link_inv got s"
  by (simp add: link_inv_def split: once.split)

lemma link_post_close:
  assumes "link_inv got s"
  shows "link_post got s (andThen (Close s) (\<lambda>_ s'. Ret [] s'))"
proof (cases "c_closed s \<or> c_conn s = None")
  case True
  with assms show ?thesis by (simp add: Close_def link_post_def link_inv_def)
next
  case False
  let ?s = "s\<lparr>c_closed := True, c_conn := None, e_closedConns := the (c_conn s) # e_closedConns s\<rparr>"
  from assms have "link_inv got ?s" by simp
  then obtain s' where "signalDisconnect DisconnectUnclean ?s = Ret () s'" "link_inv got s'"
      "c_disconnected s'" "c_disconnected s \<longrightarrow> c_disconnCause s' = c_disconnCause s"
    using signalDisconnect_inv [of got ?s DisconnectUnclean] by auto
  moreover have "\<not> c_mu s" using assms by (simp add: link_inv_def)
  ultimately show ?thesis using False by (auto simp: Close_def link_post_def)
qed

lemma link_post_control:
  assumes "link_inv got s"
  shows "link_post got s (andThen (isControlFrame m s) (\<lambda>_ s'. Ret [] s'))"
proof (cases m)
  case (MEnvelope e)
  have pong: "link_post got s (andThen (sendPong s) (\<lambda>_ s'. Ret [] s'))"
    using assms by (auto simp: sendPong_def locked_def link_post_def link_inv_def split: once.splits)
  show ?thesis
    using assms link_post_signal [OF assms, of DisconnectClean] pong MEnvelope
    by (simp add: isControlFrame_def andThen_assoc) (simp add: link_post_def)
qed (use assms in \<open>simp_all add: isControlFrame_def link_post_def\<close>)

lemma link_post_receive:
  assumes "link_inv got s"
  shows "link_post got s (link_exec OpReceive s)"
  using assms
  by (cases "c_disconnOnce s"; cases "dc_buf (c_disconnCh s)")
     (auto simp: link_exec_def recvDisconnect_def link_post_def link_inv_def open_dchan_def)

lemma link_exec_post: "link_inv got s \<Longrightarrow> link_post got s (link_exec op s)"
  using link_post_receive [of got s]
  by (cases op) (simp_all add: link_exec_def link_post_send link_post_close link_post_signal link_post_control)

lemma link_run_post: "link_inv got s \<Longrightarrow> link_post got s (link_run ops s)"
proof (induction ops arbitrary: got s)
  case Nil
  then show ?case by (simp add: link_post_def)
next
  case (Cons op ops)
  note p = link_exec_post [OF Cons.prems, of op]
  show ?case
  proof (cases "link_exec op s")
    case (Ret new s1)
    with p have i: "link_inv (got @ new) s1" by (simp add: link_post_def)
    from Cons.IH [OF i] Ret p show ?thesis
      by (cases "link_run ops s1") (auto simp: link_post_def)
  qed (use p in \<open>simp_all add: link_post_def\<close>)
qed

lemma fresh_link_inv:
  "c_disconnOnce s = OnceFresh \<Longrightarrow> c_disconnCh s = open_dchan \<Longrightarrow> \<not> c_disconnected s \<Longrightarrow> \<not> c_mu s \<Longrightarrow>
   link_inv [] s"
  by (simp add: link_inv_def)

section \<open>Properties\<close>



text \<open>C34: A failed write on a connection whose drop has not been signalled yet deadlocks the client:
  \<^verbatim>\<open>SendMessage\<close> holds the mutex when it calls \<^verbatim>\<open>signalDisconnect\<close>, which locks it again. The send
  never returns, the drop signal is never given, and from then on every send, close, status query
  and drop signal blocks too.\<close>

theorem write_failure_deadlocks:
  assumes "c_conn s \<noteq> None" "\<not> c_closed s" "\<not> c_mu s" "c_disconnOnce s = OnceFresh"
    "c_disconnCh s = open_dchan" "\<not> c_disconnected s" "e_writes s = False # ws"
  shows "\<exists>s'. SendMessage None m s = Hang s' \<and> \<not> c_disconnected s'
    \<and> recvDisconnect (c_disconnCh s') = None
    \<and> (\<forall>cx m'. SendMessage cx m' s' = Hang s') \<and> Close s' = Hang s' \<and> IsConnected s' = Hang s'
    \<and> (\<forall>cause. signalDisconnect cause s' = Hang s')"
  using assms
  by (simp add: SendMessage_def write_msg_def signalDisconnect_def Let_def Close_def IsConnected_def
      locked_def recvDisconnect_def open_dchan_def)

theorem write_failure_deadlocks_witness:
  "\<exists>s'. SendMessage None (MEnvelope NewPingEnvelope)
          (start_env ((NewClient ''u'' None)\<lparr>c_conn := Some 0\<rparr>) [] [False]) = Hang s'"
  using write_failure_deadlocks [of "start_env ((NewClient ''u'' None)\<lparr>c_conn := Some 0\<rparr>) [] [False]" "[]"
      "MEnvelope NewPingEnvelope"]
  by (auto simp: start_env_def NewClient_def Client.defs env.defs)

end
