(* ===== verification/Inbound.thy ===== *)
theory Inbound
  imports Client_Link
begin

text \<open>
  The inbound buffer (inbound_priority.go and the pending-event operations of client.go): the drop
  priority of a frame, the hand-written string searches it uses, and the bounded buffer that drops
  by priority when it is full.
\<close>

section \<open>Drop priorities\<close>

definition DropPriorityCritical :: int where "DropPriorityCritical = 0"
definition DropPriorityHigh :: int where "DropPriorityHigh = 1"
definition DropPriorityNormal :: int where "DropPriorityNormal = 2"

lemmas drop_priorities = DropPriorityCritical_def DropPriorityHigh_def DropPriorityNormal_def

text \<open>Prefix test and substring search, with the loop of \<^verbatim>\<open>indexOf\<close>.\<close>

definition hasPrefix :: "string \<Rightarrow> string \<Rightarrow> bool" where
  "hasPrefix s pre \<longleftrightarrow> length s \<ge> length pre \<and> slice s 0 (length pre) = pre"

function indexOf_loop :: "nat \<Rightarrow> string \<Rightarrow> string \<Rightarrow> int" where
  "indexOf_loop i s sub =
     (if i + length sub \<le> length s then
        (if slice s i (i + length sub) = sub then int i else indexOf_loop (Suc i) s sub)
      else - 1)"
  by pat_completeness auto
termination
  by (relation "measure (\<lambda>(i, s, _). Suc (length s) - i)") auto

declare indexOf_loop.simps [simp del]

definition indexOf :: "string \<Rightarrow> string \<Rightarrow> int" where
  "indexOf s sub = indexOf_loop 0 s sub"

definition containsStr :: "string \<Rightarrow> string \<Rightarrow> bool" where
  "containsStr s sub \<longleftrightarrow> length sub = 0 \<or> (length s \<ge> length sub \<and> indexOf s sub \<ge> 0)"

definition messagesWireTerminal :: "gval \<Rightarrow> bool" where
  "messagesWireTerminal data =
     (case as_list data of
        None \<Rightarrow> False
      | Some [] \<Rightarrow> False
      | Some (x # _) \<Rightarrow>
          (case as_map x of
             None \<Rightarrow> False
           | Some body \<Rightarrow>
               (let t = asString (idx body ''type'')
                in t = STREAM_END \<or> containsStr t ''stream.end'')))"

text \<open>Whether the first element of a message list is an object of the goal-completion phase.\<close>

definition goal_completion_head :: "gval \<Rightarrow> bool" where
  "goal_completion_head data =
     (case as_list data of
        Some (x # _) \<Rightarrow>
          (case as_map x of Some first \<Rightarrow> asString (idx first ''phase'') = ''goal_completion'' | None \<Rightarrow> False)
      | _ \<Rightarrow> False)"

text \<open>The part of the classification that follows the unwrapping, with the event type as it then
  stands: the other fields are still read from the frame itself.\<close>

definition classify :: "string \<Rightarrow> gobj \<Rightarrow> int" where
  "classify eventType event =
     (if eventType = ''complete'' \<or> eventType = ''error'' \<or> eventType = ''connection_ack'' then
        DropPriorityCritical
      else if eventType = ''status''
              \<and> asString (idx event ''state'') \<in> {''idle'', ''running'', ''stopped'', ''detached''} then
        DropPriorityCritical
      else if eventType = ''event'' then
        (let mode = asString (idx event ''mode''); data = idx event ''data''
         in case (if mode = ''custom'' then
                    (if IsTurnEndCustomData data then Some DropPriorityCritical
                     else case as_map data of
                       None \<Rightarrow> None
                     | Some m \<Rightarrow>
                         (let customType = asString (idx m ''type'')
                          in if hasPrefix customType ''soothe.cognition.'' then Some DropPriorityHigh
                             else if hasPrefix customType ''soothe.error.'' \<or> customType = ''stream_degraded'' then
                               Some DropPriorityCritical
                             else if customType = ''soothe.ux.stream_tool_wire.tool_call_updates_batch'' then
                               Some DropPriorityHigh
                             else None))
                  else None) of
              Some p \<Rightarrow> p
            | None \<Rightarrow>
                if mode = ''messages'' \<and> (messagesWireTerminal data \<or> goal_completion_head data) then
                  DropPriorityCritical
                else DropPriorityNormal)
      else DropPriorityNormal)"

function priority_of :: "gobj \<Rightarrow> int" where
  "priority_of event =
     (let eventType = asString (idx event ''type'')
      in if eventType = ''event_batch'' \<or> eventType = ''tool_call_updates_batch'' then DropPriorityHigh
         else if eventType = ''next'' then
           (case idx event ''payload'' of
              GMap payload \<Rightarrow>
                (let innerMode = asString (idx payload ''mode''); innerData = idx payload ''data''
                 in if innerMode = ''messages'' \<and> messagesWireTerminal innerData then DropPriorityCritical
                    else if innerMode = ''messages'' \<and> goal_completion_head innerData then DropPriorityCritical
                    else if asString (idx payload ''type'') = ''complete'' then DropPriorityCritical
                    else (case innerData of
                            GMap inner \<Rightarrow> priority_of inner
                          | _ \<Rightarrow> classify (asString (idx payload ''type'')) event))
            | _ \<Rightarrow> classify eventType event)
         else classify eventType event)"
  by pat_completeness auto
termination
  by (relation "measure gsize") (auto dest!: gsize_nested2 [OF _ sym])

declare priority_of.simps [simp del]

definition InboundFrameDropPriority :: "gmap \<Rightarrow> int" where
  "InboundFrameDropPriority event =
     (case event of None \<Rightarrow> DropPriorityCritical | Some e \<Rightarrow> priority_of e)"

section \<open>The pending buffer\<close>

definition noteInboundDropLocked :: "env \<Rightarrow> env" where
  "noteInboundDropLocked s =
     (let n = c_inboundDropped s + 1; s1 = s\<lparr>c_inboundDropped := n\<rparr>
      in if c_onStreamDegraded s \<and> n = 1
         then s1\<lparr>e_degraded := e_degraded s1 @ [(1, ''inbound_queue_overflow'')]\<rparr> else s1)"

text \<open>The scan for the drop candidate: the first index of the highest priority, from \<open>(- 1, - 1)\<close>.\<close>

fun scan_drop :: "nat \<Rightarrow> gobj list \<Rightarrow> int \<times> int \<Rightarrow> int \<times> int" where
  "scan_drop i [] acc = acc"
| "scan_drop i (item # items) (dropIdx, dropPri) =
     (let p = InboundFrameDropPriority (Some item)
      in scan_drop (Suc i) items (if p > dropPri then (int i, p) else (dropIdx, dropPri)))"

definition inbound_cap :: "env \<Rightarrow> int" where
  "inbound_cap s = (if c_inboundMaxSize s \<le> 0 then DefaultInboundMaxSize else c_inboundMaxSize s)"

definition enqueuePendingLocked :: "gobj \<Rightarrow> env \<Rightarrow> env" where
  "enqueuePendingLocked ev s =
     (if int (length (c_pendingEvents s)) < inbound_cap s then
        s\<lparr>c_pendingEvents := c_pendingEvents s @ [ev]\<rparr>
      else
        (case scan_drop 0 (c_pendingEvents s) (- 1, - 1) of
           (dropIdx, dropPri) \<Rightarrow>
             if dropIdx \<ge> 0 \<and> dropPri \<ge> DropPriorityNormal then
               (let pe = take (nat dropIdx) (c_pendingEvents s) @ drop (nat dropIdx + 1) (c_pendingEvents s)
                in noteInboundDropLocked (s\<lparr>c_pendingEvents := pe @ [ev]\<rparr>))
             else if InboundFrameDropPriority (Some ev) \<ge> DropPriorityNormal then
               noteInboundDropLocked s
             else
               (let s1 = (if length (c_pendingEvents s) > 0
                          then noteInboundDropLocked (s\<lparr>c_pendingEvents := tl (c_pendingEvents s)\<rparr>) else s)
                in s1\<lparr>c_pendingEvents := c_pendingEvents s1 @ [ev]\<rparr>)))"

definition PushPendingEvent :: "gmap \<Rightarrow> env \<Rightarrow> (env, unit) run" where
  "PushPendingEvent ev s =
     (case ev of
        None \<Rightarrow> Ret () s
      | Some e \<Rightarrow> locked (\<lambda>s. ((), enqueuePendingLocked e s)) s)"

definition SetInboundMaxSize :: "int \<Rightarrow> env \<Rightarrow> (env, unit) run" where
  "SetInboundMaxSize n s =
     locked (\<lambda>s. ((), if n > 0 then s\<lparr>c_inboundMaxSize := n\<rparr> else s)) s"

text \<open>The locked half of \<^verbatim>\<open>PeelStalePendingControlEvents\<close>: the labels of the frames taken out.\<close>

fun peel_pending :: "gobj list \<Rightarrow> string list \<times> gobj list" where
  "peel_pending [] = ([], [])"
| "peel_pending (ev # evs) =
     (case peel_pending evs of
        (peeled, kept) \<Rightarrow>
          (let label = StalePendingFrameLabel (Some ev)
           in if label \<noteq> [] then (label # peeled, kept) else (peeled, ev # kept)))"

section \<open>Lemmas\<close>

lemma hasPrefix_is_HasPrefix: "hasPrefix s pre = HasPrefix s pre"
  by (auto simp: hasPrefix_def HasPrefix_def slice_def prefix_def)
     (metis append_take_drop_id)

lemma slice_eq_append:
  assumes le: "i + length sub \<le> length s"
  shows "slice s i (i + length sub) = sub \<longleftrightarrow> (\<exists>a b. s = a @ sub @ b \<and> length a = i)"
proof
  assume "slice s i (i + length sub) = sub"
  then have "drop i s = sub @ drop (length sub) (drop i s)"
    unfolding slice_def by (metis add_diff_cancel_left' append_take_drop_id)
  then have "s = take i s @ sub @ drop (length sub) (drop i s)" "length (take i s) = i"
    using le by (metis append_take_drop_id, simp)
  then show "\<exists>a b. s = a @ sub @ b \<and> length a = i" by blast
next
  assume "\<exists>a b. s = a @ sub @ b \<and> length a = i"
  then show "slice s i (i + length sub) = sub" by (auto simp: slice_def)
qed

text \<open>The search finds the first occurrence at or after its start.\<close>

lemma indexOf_loop_found:
  "indexOf_loop i s sub \<ge> 0 \<longleftrightarrow> (\<exists>a b. s = a @ sub @ b \<and> i \<le> length a)"
proof (induction i s sub rule: indexOf_loop.induct)
  case (1 i s sub)
  show ?case
  proof (cases "i + length sub \<le> length s")
    case False
    then show ?thesis by (auto simp: indexOf_loop.simps)
  next
    case True
    show ?thesis
    proof (cases "slice s i (i + length sub) = sub")
      case eq: True
      then show ?thesis using True slice_eq_append [OF True] by (subst indexOf_loop.simps) auto
    next
      case neq: False
      then have "\<not> (\<exists>a b. s = a @ sub @ b \<and> length a = i)" using slice_eq_append [OF True] by blast
      then have "(\<exists>a b. s = a @ sub @ b \<and> Suc i \<le> length a) \<longleftrightarrow> (\<exists>a b. s = a @ sub @ b \<and> i \<le> length a)"
        by (metis Suc_leI Suc_leD le_neq_implies_less)
      moreover have "indexOf_loop i s sub = indexOf_loop (Suc i) s sub"
        using True neq by (simp add: indexOf_loop.simps [of i])
      ultimately show ?thesis using "1.IH" [OF True neq] by simp
    qed
  qed
qed

lemma containsStr_is_Contains: "containsStr s sub = Contains s sub"
proof -
  have "length sub = 0 \<Longrightarrow> sublist sub s" by simp
  moreover have "sublist sub s \<longleftrightarrow> (\<exists>a b. s = a @ sub @ b)" by (auto simp: sublist_def)
  ultimately show ?thesis
    unfolding containsStr_def Contains_def indexOf_def indexOf_loop_found by auto
qed

lemma messagesWireTerminal_ack:
  "asString (idx e ''mode'') = ''messages'' \<Longrightarrow>
   inboundNeedsAckFromEventShape e = messagesWireTerminal (idx e ''data'')"
  by (simp add: inboundNeedsAckFromEventShape_def messagesWireTerminal_def containsStr_is_Contains Let_def
      split: option.split list.split)

lemma classify_range: "classify ty e \<in> {0, 1, 2}"
  by (auto simp: classify_def drop_priorities Let_def split: option.split)

lemma priority_range: "priority_of e \<in> {0, 1, 2}"
proof (induction e rule: priority_of.induct)
  case (1 event)
  show ?case
    by (subst priority_of.simps)
       (use 1 classify_range in \<open>auto simp: Let_def drop_priorities split: gval.split\<close>)
qed

lemma InboundFrameDropPriority_range: "InboundFrameDropPriority oe \<in> {0, 1, 2}"
  using priority_range by (cases oe) (auto simp: InboundFrameDropPriority_def drop_priorities)

abbreviation is_normal :: "gobj \<Rightarrow> bool" where
  "is_normal e \<equiv> InboundFrameDropPriority (Some e) = DropPriorityNormal"

text \<open>What the scan returns, when no earlier candidate was NORMAL.\<close>

lemma scan_drop_keep: "pri = 2 \<Longrightarrow> scan_drop i xs (idx0, pri) = (idx0, pri)"
proof (induction xs arbitrary: i)
  case (Cons x xs)
  then show ?case using InboundFrameDropPriority_range [of "Some x"] by (auto simp: Let_def)
qed simp

lemma scan_drop_none:
  "\<not> list_ex is_normal xs \<Longrightarrow> pri < 2 \<Longrightarrow> snd (scan_drop i xs (idx0, pri)) < 2"
proof (induction xs arbitrary: i idx0 pri)
  case (Cons x xs)
  then have "InboundFrameDropPriority (Some x) < 2"
    using InboundFrameDropPriority_range [of "Some x"] by (auto simp: drop_priorities)
  with Cons show ?case by (simp add: Let_def)
qed simp

lemma scan_drop_normal:
  "list_ex is_normal xs \<Longrightarrow> pri < 2 \<Longrightarrow>
   \<exists>a x b. xs = a @ x # b \<and> is_normal x \<and> \<not> list_ex is_normal a
     \<and> scan_drop i xs (idx0, pri) = (int (i + length a), 2)"
proof (induction xs arbitrary: i idx0 pri)
  case (Cons x xs)
  show ?case
  proof (cases "is_normal x")
    case True
    with Cons.prems show ?thesis
      by (intro exI [of _ "[]"] exI [of _ x] exI [of _ xs])
         (simp add: Let_def scan_drop_keep drop_priorities)
  next
    case False
    then have lt: "InboundFrameDropPriority (Some x) < 2"
      using InboundFrameDropPriority_range [of "Some x"] by (auto simp: drop_priorities)
    let ?p = "InboundFrameDropPriority (Some x)"
    have ex: "list_ex is_normal xs" using Cons.prems False by simp
    obtain j q where jq: "(if ?p > pri then (int i, ?p) else (idx0, pri)) = (j, q)" "q < 2"
      using lt Cons.prems by (cases "?p > pri") auto
    obtain a y b where "xs = a @ y # b" "is_normal y" "\<not> list_ex is_normal a"
        "scan_drop (Suc i) xs (j, q) = (int (Suc i + length a), 2)"
      using Cons.IH [OF ex jq(2), of "Suc i" j] by blast
    with False jq show ?thesis
      by (intro exI [of _ "x # a"] exI [of _ y] exI [of _ b]) (simp add: Let_def)
  qed
qed simp

lemma noteInboundDrop_fields [simp]:
  "c_pendingEvents (noteInboundDropLocked s) = c_pendingEvents s"
  "c_inboundDropped (noteInboundDropLocked s) = c_inboundDropped s + 1"
  "c_inboundMaxSize (noteInboundDropLocked s) = c_inboundMaxSize s"
  "c_mu (noteInboundDropLocked s) = c_mu s"
  by (simp_all add: noteInboundDropLocked_def Let_def)

lemma inbound_cap_pos: "inbound_cap s > 0"
  by (simp add: inbound_cap_def DefaultInboundMaxSize_def)

text \<open>The policy as a function on lists: with no room, the first NORMAL resident makes way; else a
  NORMAL arrival is refused; else the oldest resident makes way.\<close>

definition remove_first :: "('a \<Rightarrow> bool) \<Rightarrow> 'a list \<Rightarrow> 'a list" where
  "remove_first P xs = takeWhile (\<lambda>x. \<not> P x) xs @ tl (dropWhile (\<lambda>x. \<not> P x) xs)"

definition admit :: "nat \<Rightarrow> gobj list \<Rightarrow> gobj \<Rightarrow> gobj list" where
  "admit cap q ev =
     (if length q < cap then q @ [ev]
      else if list_ex is_normal q then remove_first is_normal q @ [ev]
      else if is_normal ev then q
      else tl q @ [ev])"

lemma remove_first_split:
  "is_normal x \<Longrightarrow> \<not> list_ex is_normal a \<Longrightarrow> remove_first is_normal (a @ x # b) = a @ b"
  by (induction a) (auto simp: remove_first_def)

lemma enqueue_pending:
  "c_pendingEvents (enqueuePendingLocked ev s) = admit (nat (inbound_cap s)) (c_pendingEvents s) ev"
proof (cases "int (length (c_pendingEvents s)) < inbound_cap s")
  case True
  then have "length (c_pendingEvents s) < nat (inbound_cap s)" by linarith
  with True show ?thesis by (simp add: enqueuePendingLocked_def admit_def)
next
  case full: False
  then have len: "\<not> length (c_pendingEvents s) < nat (inbound_cap s)" "c_pendingEvents s \<noteq> []"
    using inbound_cap_pos [of s] by auto
  show ?thesis
  proof (cases "list_ex is_normal (c_pendingEvents s)")
    case True
    from scan_drop_normal [OF this, of "- 1" 0 "- 1"] obtain a x b where
      ax: "c_pendingEvents s = a @ x # b" "is_normal x" "\<not> list_ex is_normal a"
        "scan_drop 0 (c_pendingEvents s) (- 1, - 1) = (int (length a), 2)" by auto
    then show ?thesis using full len True remove_first_split [OF ax(2,3)]
      by (simp add: enqueuePendingLocked_def admit_def drop_priorities Let_def del: list_ex_append)
  next
    case False
    obtain j q where jq: "scan_drop 0 (c_pendingEvents s) (- 1, - 1) = (j, q)" by fastforce
    with scan_drop_none [OF False, of "- 1" 0 "- 1"] have "q < 2" by simp
    moreover have "InboundFrameDropPriority (Some ev) \<ge> 2 \<longleftrightarrow> is_normal ev"
      using InboundFrameDropPriority_range [of "Some ev"] by (auto simp: drop_priorities)
    ultimately show ?thesis using full len False jq
      by (simp add: enqueuePendingLocked_def admit_def drop_priorities Let_def)
  qed
qed

lemma enqueue_dropped:
  "c_inboundDropped (enqueuePendingLocked ev s) =
     c_inboundDropped s + (if int (length (c_pendingEvents s)) < inbound_cap s then 0 else 1)"
proof -
  have "c_pendingEvents s = [] \<Longrightarrow> int (length (c_pendingEvents s)) < inbound_cap s"
    using inbound_cap_pos [of s] by simp
  then show ?thesis
    unfolding enqueuePendingLocked_def by (cases "c_pendingEvents s = []") (simp_all add: Let_def split: prod.split)
qed

lemma enqueue_other [simp]:
  "c_inboundMaxSize (enqueuePendingLocked ev s) = c_inboundMaxSize s"
  "c_mu (enqueuePendingLocked ev s) = c_mu s"
  "inbound_cap (enqueuePendingLocked ev s) = inbound_cap s"
  by (simp_all add: enqueuePendingLocked_def inbound_cap_def Let_def split: prod.split)

lemma remove_first_length: "list_ex P xs \<Longrightarrow> Suc (length (remove_first P xs)) = length xs"
  by (induction xs) (auto simp: remove_first_def)

lemma remove_first_subseq: "subseq (remove_first P xs) xs"
  by (induction xs) (auto simp: remove_first_def)

lemma admit_length:
  "0 < cap \<Longrightarrow> length (admit cap q ev) = (if length q < cap then Suc (length q) else length q)"
  using remove_first_length [of is_normal q] by (cases q) (auto simp: admit_def)

lemma admit_subseq: "subseq (admit cap q ev) (q @ [ev])"
proof -
  have "subseq (tl q) q" by (cases q) auto
  moreover have "subseq q (q @ [ev])" by (rule prefix_imp_subseq) simp
  ultimately show ?thesis
    unfolding admit_def using remove_first_subseq [of is_normal q]
    by (auto intro: list_emb_append_mono)
qed

section \<open>The buffer contract\<close>

text \<open>A bounded buffer that may drop: arrivals keep their order, nothing is invented, what leaves
  is counted, and the bound holds. Its clients push whole sequences.\<close>

locale dropping_buffer =
  fixes contents :: "'s \<Rightarrow> 'a list"
    and cap :: "'s \<Rightarrow> nat"
    and dropped :: "'s \<Rightarrow> int"
    and push :: "'a \<Rightarrow> 's \<Rightarrow> 's"
  assumes push_subseq: "subseq (contents (push x s)) (contents s @ [x])"
    and push_count:
      "int (length (contents (push x s))) + dropped (push x s) = int (length (contents s)) + dropped s + 1"
    and push_bound: "length (contents (push x s)) \<le> max (cap s) (length (contents s))"
    and push_cap: "cap (push x s) = cap s"
begin

lemma pushes_subseq: "subseq (contents (fold push xs s)) (contents s @ xs)"
proof (induction xs arbitrary: s)
  case (Cons x xs)
  have "subseq (contents (fold push xs (push x s))) (contents (push x s) @ xs)" by (rule Cons.IH)
  moreover have "subseq (contents (push x s) @ xs) ((contents s @ [x]) @ xs)"
    by (rule list_emb_append_mono [OF push_subseq]) simp
  ultimately show ?case using subseq_order.trans by auto
qed simp

lemma pushes_count:
  "int (length (contents (fold push xs s))) + dropped (fold push xs s)
   = int (length (contents s)) + dropped s + int (length xs)"
  by (induction xs arbitrary: s) (simp_all add: push_count)

lemma pushes_bound: "length (contents (fold push xs s)) \<le> max (cap s) (length (contents s))"
proof (induction xs arbitrary: s)
  case (Cons x xs)
  from Cons.IH [of "push x s"] push_bound [of x s] show ?case by (simp add: push_cap)
qed simp

end

interpretation pending: dropping_buffer c_pendingEvents "\<lambda>s. nat (inbound_cap s)" c_inboundDropped
  enqueuePendingLocked
proof unfold_locales
  fix x s
  have pos: "0 < nat (inbound_cap s)" using inbound_cap_pos [of s] by simp
  have lt: "length (c_pendingEvents s) < nat (inbound_cap s) \<longleftrightarrow> int (length (c_pendingEvents s)) < inbound_cap s"
    by linarith
  show "subseq (c_pendingEvents (enqueuePendingLocked x s)) (c_pendingEvents s @ [x])"
    unfolding enqueue_pending by (rule admit_subseq)
  show "int (length (c_pendingEvents (enqueuePendingLocked x s))) + c_inboundDropped (enqueuePendingLocked x s)
      = int (length (c_pendingEvents s)) + c_inboundDropped s + 1"
    using lt by (simp add: enqueue_pending enqueue_dropped admit_length [OF pos])
  show "length (c_pendingEvents (enqueuePendingLocked x s)) \<le> max (nat (inbound_cap s)) (length (c_pendingEvents s))"
    by (simp add: enqueue_pending admit_length [OF pos])
  show "nat (inbound_cap (enqueuePendingLocked x s)) = nat (inbound_cap s)" by simp
qed

lemma peel_pending_spec:
  "peel_pending evs =
     (filter (\<lambda>l. l \<noteq> []) (map (\<lambda>e. StalePendingFrameLabel (Some e)) evs),
      filter (\<lambda>e. StalePendingFrameLabel (Some e) = []) evs)"
  by (induction evs) (simp_all add: Let_def)

section \<open>Properties\<close>

text \<open>C14: Backpressure loses frames only by count and never reorders: after any sequence of pushed
  frames the buffer is a subsequence, in order, of what it held followed by what arrived, every
  frame missing from it is counted in \<^verbatim>\<open>InboundDropped\<close>, and it holds no more than the larger of its
  cap and its previous length.\<close>

theorem pending_buffer_conserves:
  "subseq (c_pendingEvents (fold enqueuePendingLocked evs s)) (c_pendingEvents s @ evs)
   \<and> int (length (c_pendingEvents (fold enqueuePendingLocked evs s))) + c_inboundDropped (fold enqueuePendingLocked evs s)
       = int (length (c_pendingEvents s)) + c_inboundDropped s + int (length evs)
   \<and> length (c_pendingEvents (fold enqueuePendingLocked evs s)) \<le> max (nat (inbound_cap s)) (length (c_pendingEvents s))"
  using pending.pushes_subseq pending.pushes_count pending.pushes_bound by blast

text \<open>The drop policy, on every branch: with room the frame is appended; without, the oldest
  NORMAL resident makes way for it; if there is none, a NORMAL arrival is refused and the buffer
  is unchanged; and a CRITICAL or HIGH arrival pushes out the oldest resident, whatever its
  priority is.\<close>

theorem enqueue_policy:
  assumes full: "int (length q) \<ge> inbound_cap s" and q: "c_pendingEvents s = q"
  shows "(list_ex is_normal q \<longrightarrow>
            c_pendingEvents (enqueuePendingLocked ev s) = remove_first is_normal q @ [ev])
    \<and> (\<not> list_ex is_normal q \<and> is_normal ev \<longrightarrow> c_pendingEvents (enqueuePendingLocked ev s) = q)
    \<and> (\<not> list_ex is_normal q \<and> \<not> is_normal ev \<longrightarrow>
            c_pendingEvents (enqueuePendingLocked ev s) = tl q @ [ev])
    \<and> c_inboundDropped (enqueuePendingLocked ev s) = c_inboundDropped s + 1"
proof -
  have "\<not> length q < nat (inbound_cap s)" using full by linarith
  then show ?thesis using full q by (simp add: enqueue_pending enqueue_dropped admit_def)
qed

theorem enqueue_policy_witness:
  "c_pendingEvents (enqueuePendingLocked [(''type'', GStr ''complete'')]
      (start_env ((NewClient ''u'' None)\<lparr>c_inboundMaxSize := 1, c_pendingEvents := [[(''type'', GStr ''error'')]]\<rparr>) [] []))
   = [[(''type'', GStr ''complete'')]]"
  using enqueue_policy [of "start_env ((NewClient ''u'' None)\<lparr>c_inboundMaxSize := 1,
        c_pendingEvents := [[(''type'', GStr ''error'')]]\<rparr>) [] []"
      "[[(''type'', GStr ''error'')]]" "[(''type'', GStr ''complete'')]"]
  by (simp add: start_env_def NewClient_def Client.defs env.defs inbound_cap_def
      InboundFrameDropPriority_def priority_of.simps classify_def drop_priorities)

text \<open>A bare event frame whose delivery the client must acknowledge is CRITICAL, so backpressure
  never prefers it as a victim.\<close>

theorem acked_events_are_critical:
  assumes "asString (idx e ''type'') = ''event''" "InboundNeedsDeliveryAck (Some e)"
  shows "InboundFrameDropPriority (Some e) = DropPriorityCritical"
proof -
  have "inboundNeedsAckFromEventShape e" using assms by (simp add: InboundNeedsDeliveryAck_def Let_def)
  then consider "asString (idx e ''mode'') = ''custom''" "IsTurnEndCustomData (idx e ''data'')"
    | "asString (idx e ''mode'') = ''messages''" "messagesWireTerminal (idx e ''data'')"
    using messagesWireTerminal_ack [of e]
    by (cases "asString (idx e ''mode'') = ''custom''")
       (auto simp: inboundNeedsAckFromEventShape_def Let_def split: if_splits)
  then show ?thesis
    by cases (simp_all add: InboundFrameDropPriority_def priority_of.simps assms(1) classify_def Let_def)
qed

theorem acked_events_are_critical_witness:
  "InboundFrameDropPriority (Some [(''type'', GStr ''event''), (''mode'', GStr ''messages''),
      (''data'', GList [GMap [(''type'', GStr ''soothe.stream.end'')]])]) = DropPriorityCritical"
  by (rule acked_events_are_critical)
     (simp_all add: InboundNeedsDeliveryAck_def inboundNeedsAckFromEventShape_def STREAM_END_def)

end
