(* ===== verification/Delivery_Ack.thy ===== *)
theory Delivery_Ack
  imports Inbound
begin

text \<open>
  Delivery acknowledgements (client.go): counting the frames that need an ack per loop and sending
  \<^verbatim>\<open>delivery_ack\<close> notifications from goroutines of their own. \<^verbatim>\<open>sendDeliveryAck\<close> releases the mutex
  between recording the sequence number and writing the notification, so it is split there.
\<close>

section \<open>Operations\<close>

text \<open>The frames a batch delivers, nested batches included, in the order of the recursion.\<close>

lemma gsize_batch: "idx m k = GList xs \<Longrightarrow> GMap m' \<in> set xs \<Longrightarrow> gsize m' < gsize m"
  using size_idx [of m k "GList xs"] size_list_estimation' [of "GMap m'" xs "size (GMap m')" size]
  by (simp add: gsize_def)

function batch_leaves :: "gobj \<Rightarrow> gobj list" where
  "batch_leaves event =
     (if asString (idx event ''type'') = ''event_batch'' then
        (case idx event ''events'' of
           GList sub \<Rightarrow>
             concat (map (\<lambda>item. case item of GMap m \<Rightarrow> batch_leaves m | _ \<Rightarrow> []) sub)
         | _ \<Rightarrow> [])
      else [event])"
  by pat_completeness auto
termination
  by (relation "measure gsize") (auto dest!: gsize_batch)

declare batch_leaves.simps [simp del]

definition track_one :: "gobj \<Rightarrow> env \<Rightarrow> (env, unit) run" where
  "track_one event s =
     (if \<not> InboundNeedsDeliveryAck (Some event) then Ret () s
      else
        (let loopID = ExtractLoopIDFromInbound (Some event)
         in if loopID = [] then Ret () s
            else if c_mu s then Hang s
            else
              (let seq = c_deliveryRecvSeq s loopID + 1;
                   s1 = s\<lparr>c_deliveryRecvSeq := (c_deliveryRecvSeq s)(loopID := seq)\<rparr>;
                   acked = c_deliveryAckedSeq s1 loopID
               in if seq \<le> acked then Ret () s1
                  else Ret () (s1\<lparr>e_acks := e_acks s1 @ [(loopID, seq)]\<rparr>))))"

fun track_all :: "gobj list \<Rightarrow> env \<Rightarrow> (env, unit) run" where
  "track_all [] s = Ret () s"
| "track_all (e # es) s = andThen (track_one e s) (\<lambda>_ s'. track_all es s')"

definition trackInboundDeliveryAck :: "gmap \<Rightarrow> env \<Rightarrow> (env, unit) run" where
  "trackInboundDeliveryAck event s =
     (case event of None \<Rightarrow> Ret () s | Some e \<Rightarrow> track_all (batch_leaves e) s)"

text \<open>The locked half of \<^verbatim>\<open>sendDeliveryAck\<close>: whether the notification is to be sent.\<close>

definition ack_commit :: "string \<Rightarrow> int \<Rightarrow> env \<Rightarrow> (env, bool) run" where
  "ack_commit loopID seq s =
     locked (\<lambda>s. if seq \<le> c_deliveryAckedSeq s loopID then (False, s)
                 else (True, s\<lparr>c_deliveryAckedSeq := (c_deliveryAckedSeq s)(loopID := seq)\<rparr>)) s"

definition ack_params :: "string \<Rightarrow> int \<Rightarrow> gobj" where
  "ack_params loopID seq = [(''loop_id'', GStr loopID), (''seq'', GInt seq)]"

definition sendDeliveryAck :: "string \<Rightarrow> int \<Rightarrow> env \<Rightarrow> (env, unit) run" where
  "sendDeliveryAck loopID seq s =
     andThen (ack_commit loopID seq s)
       (\<lambda>send s1. if send then andThen (Notify None ''delivery_ack'' (Some (ack_params loopID seq)) s1)
                                 (\<lambda>_ s2. Ret () s2)
                  else Ret () s1)"

section \<open>Interleavings\<close>

text \<open>A reader tracks frames, started goroutines record their sequence numbers in any order, and
  those that recorded one write it later, again in any order.\<close>

record ack_sys =
  as_env :: env
  as_flight :: "(string \<times> int) list"

inductive ack_step :: "ack_sys \<Rightarrow> ack_sys \<Rightarrow> bool" where
  Receive: "trackInboundDeliveryAck (Some ev) (as_env a) = Ret () s' \<Longrightarrow>
     ack_step a (a\<lparr>as_env := s'\<rparr>)"
| Commit: "e_acks (as_env a) = xs @ (l, q) # ys \<Longrightarrow>
     ack_commit l q ((as_env a)\<lparr>e_acks := xs @ ys\<rparr>) = Ret send s' \<Longrightarrow>
     ack_step a (a\<lparr>as_env := s', as_flight := (if send then (l, q) # as_flight a else as_flight a)\<rparr>)"
| Send: "(l, q) \<in> set (as_flight a) \<Longrightarrow>
     Notify None ''delivery_ack'' (Some (ack_params l q)) (as_env a) = Ret err s' \<Longrightarrow>
     ack_step a (a\<lparr>as_env := s', as_flight := remove1 (l, q) (as_flight a)\<rparr>)"

text \<open>The acks on the wire.\<close>

definition ack_of :: "msg \<Rightarrow> (string \<times> int) option" where
  "ack_of m =
     (case m of
        MEnvelope e \<Rightarrow>
          if env_Method e = ''delivery_ack'' then
            (case (midx (env_Params e) ''loop_id'', midx (env_Params e) ''seq'') of
               (GStr l, GInt q) \<Rightarrow> Some (l, q) | _ \<Rightarrow> None)
          else None
      | _ \<Rightarrow> None)"

definition wire_acks :: "env \<Rightarrow> (string \<times> int) list" where
  "wire_acks s = List.map_filter ack_of (e_sent s)"

definition ack_start :: "env \<Rightarrow> bool" where
  "ack_start s \<longleftrightarrow> e_acks s = [] \<and> wire_acks s = [] \<and>
     c_deliveryRecvSeq s = (\<lambda>_. 0) \<and> c_deliveryAckedSeq s = (\<lambda>_. 0)"

text \<open>The invariant: recorded numbers lie between one and the count of received frames, the
  newest count is recorded or waits in a goroutine, and the numbers in flight and on the wire are
  distinct and recorded.\<close>

definition ack_inv :: "ack_sys \<Rightarrow> bool" where
  "ack_inv a \<longleftrightarrow>
     (let s = as_env a; out = as_flight a @ wire_acks s
      in (\<forall>l. c_deliveryAckedSeq s l \<le> c_deliveryRecvSeq s l)
       \<and> (\<forall>l. c_deliveryAckedSeq s l = c_deliveryRecvSeq s l \<or> (l, c_deliveryRecvSeq s l) \<in> set (e_acks s))
       \<and> (\<forall>(l, q)\<in>set (e_acks s). 1 \<le> q \<and> q \<le> c_deliveryRecvSeq s l)
       \<and> distinct out
       \<and> (\<forall>(l, q)\<in>set out. 1 \<le> q \<and> q \<le> c_deliveryAckedSeq s l))"

lemma ack_of_notify [simp]:
  "ack_of (MEnvelope (NewNotificationEnvelope ''delivery_ack'' (Some (ack_params l q)))) = Some (l, q)"
  by (simp add: ack_of_def NewNotificationEnvelope_def ack_params_def)

lemma map_filter_snoc: "List.map_filter f (xs @ [x]) = List.map_filter f xs @ (case f x of None \<Rightarrow> [] | Some y \<Rightarrow> [y])"
  by (simp add: map_filter_def split: option.split)

lemma SendMessage_frame:
  assumes "SendMessage cx m s = Ret err s'"
  shows "(e_sent s' = e_sent s \<or> e_sent s' = e_sent s @ [m]) \<and> e_acks s' = e_acks s
    \<and> c_deliveryRecvSeq s' = c_deliveryRecvSeq s \<and> c_deliveryAckedSeq s' = c_deliveryAckedSeq s"
  using assms
  by (auto simp: SendMessage_def write_msg_def signalDisconnect_def Let_def
      split: if_splits option.splits list.splits bool.splits once.splits)

lemma track_one_cases:
  assumes "track_one e s = Ret () s'" "\<forall>l. c_deliveryAckedSeq s l \<le> c_deliveryRecvSeq s l"
  shows "s' = s \<or> (\<exists>l. s' = s\<lparr>c_deliveryRecvSeq := (c_deliveryRecvSeq s)(l := c_deliveryRecvSeq s l + 1),
                        e_acks := e_acks s @ [(l, c_deliveryRecvSeq s l + 1)]\<rparr>)"
proof -
  have "\<not> c_deliveryRecvSeq s l + 1 \<le> c_deliveryAckedSeq s l" for l
    using assms(2) [rule_format, of l] by simp
  then show ?thesis using assms(1) by (auto simp: track_one_def Let_def split: if_splits)
qed

lemma ack_inv_receive_one:
  assumes inv: "ack_inv a" and t: "track_one e (as_env a) = Ret () s'"
    and rpos: "\<forall>l. 0 \<le> c_deliveryRecvSeq (as_env a) l"
  shows "ack_inv (a\<lparr>as_env := s'\<rparr>) \<and> (\<forall>l. 0 \<le> c_deliveryRecvSeq s' l)"
proof -
  let ?s = "as_env a"
  have le: "\<forall>l. c_deliveryAckedSeq ?s l \<le> c_deliveryRecvSeq ?s l" using inv by (simp add: ack_inv_def Let_def)
  from track_one_cases [OF t this] show ?thesis
  proof
    assume "s' = ?s"
    with inv rpos show ?thesis by simp
  next
    assume "\<exists>l. s' = ?s\<lparr>c_deliveryRecvSeq := (c_deliveryRecvSeq ?s)(l := c_deliveryRecvSeq ?s l + 1),
                        e_acks := e_acks ?s @ [(l, c_deliveryRecvSeq ?s l + 1)]\<rparr>"
    then obtain l where s': "s' = ?s\<lparr>c_deliveryRecvSeq := (c_deliveryRecvSeq ?s)(l := c_deliveryRecvSeq ?s l + 1),
                        e_acks := e_acks ?s @ [(l, c_deliveryRecvSeq ?s l + 1)]\<rparr>" by blast
    have "c_deliveryAckedSeq ?s k \<le> c_deliveryRecvSeq s' k" for k using le [rule_format, of k] by (auto simp: s')
    moreover have "1 \<le> q \<and> q \<le> c_deliveryRecvSeq s' k" if "(k, q) \<in> set (e_acks s')" for k q
      using that inv rpos [rule_format, of l] unfolding ack_inv_def s' Let_def by auto
    ultimately show ?thesis
      using inv rpos unfolding ack_inv_def s' Let_def by (auto simp: wire_acks_def)
  qed
qed

lemma ack_inv_receive:
  "ack_inv a \<Longrightarrow> track_all es (as_env a) = Ret () s' \<Longrightarrow> \<forall>l. 0 \<le> c_deliveryRecvSeq (as_env a) l \<Longrightarrow>
   ack_inv (a\<lparr>as_env := s'\<rparr>) \<and> (\<forall>l. 0 \<le> c_deliveryRecvSeq s' l)"
proof (induction es arbitrary: a)
  case (Cons e es)
  from Cons.prems(2) obtain s1 where s1: "track_one e (as_env a) = Ret () s1" "track_all es s1 = Ret () s'"
    by (auto simp: andThen_Ret_iff)
  from ack_inv_receive_one [OF Cons.prems(1) s1(1) Cons.prems(3)] Cons.IH [of "a\<lparr>as_env := s1\<rparr>"] s1(2)
  show ?case by simp
qed (auto simp: ack_inv_def)

lemma ack_inv_commit:
  assumes inv: "ack_inv a" and e: "e_acks (as_env a) = xs @ (l, q) # ys"
    and c: "ack_commit l q ((as_env a)\<lparr>e_acks := xs @ ys\<rparr>) = Ret send s'"
  shows "ack_inv (a\<lparr>as_env := s', as_flight := (if send then (l, q) # as_flight a else as_flight a)\<rparr>)
    \<and> c_deliveryRecvSeq s' = c_deliveryRecvSeq (as_env a)"
proof -
  let ?s = "as_env a" and ?out = "as_flight a @ wire_acks (as_env a)"
  have le: "c_deliveryAckedSeq ?s k \<le> c_deliveryRecvSeq ?s k" for k using inv by (simp add: ack_inv_def Let_def)
  have newest: "c_deliveryAckedSeq ?s k = c_deliveryRecvSeq ?s k \<or> (k, c_deliveryRecvSeq ?s k) \<in> set (e_acks ?s)" for k
    using inv by (simp add: ack_inv_def Let_def)
  have q: "1 \<le> q" "q \<le> c_deliveryRecvSeq ?s l" using inv e by (auto simp: ack_inv_def Let_def)
  have acks: "\<forall>(k, p)\<in>set (xs @ ys). 1 \<le> p \<and> p \<le> c_deliveryRecvSeq ?s k" using inv e by (auto simp: ack_inv_def Let_def)
  have out: "distinct ?out" "\<forall>(k, p)\<in>set ?out. 1 \<le> p \<and> p \<le> c_deliveryAckedSeq ?s k"
    using inv by (simp_all add: ack_inv_def Let_def)
  show ?thesis
  proof (cases "q \<le> c_deliveryAckedSeq ?s l")
    case True
    then have s': "s' = ?s\<lparr>e_acks := xs @ ys\<rparr>" "\<not> send" using c by (auto simp: ack_commit_def locked_def split: if_splits)
    have "c_deliveryAckedSeq ?s k = c_deliveryRecvSeq ?s k \<or> (k, c_deliveryRecvSeq ?s k) \<in> set (xs @ ys)" for k
      using newest [of k] le [of k] True q e by auto
    then show ?thesis using le acks out by (simp add: ack_inv_def Let_def s' wire_acks_def)
  next
    case False
    then have s': "s' = ?s\<lparr>e_acks := xs @ ys, c_deliveryAckedSeq := (c_deliveryAckedSeq ?s)(l := q)\<rparr>" "send"
      using c by (auto simp: ack_commit_def locked_def split: if_splits)
    have newest': "c_deliveryAckedSeq s' k = c_deliveryRecvSeq ?s k \<or> (k, c_deliveryRecvSeq ?s k) \<in> set (xs @ ys)" for k
      using newest [of k] e le [of k] False q by (auto simp: s')
    have "(l, q) \<notin> set ?out" using out(2) False by fastforce
    moreover have "\<forall>(k, p)\<in>set ?out. 1 \<le> p \<and> p \<le> c_deliveryAckedSeq s' k"
      using out(2) False by (fastforce simp: s')
    ultimately show ?thesis using le q acks out(1) newest' by (auto simp: ack_inv_def Let_def s' wire_acks_def)
  qed
qed

lemma ack_inv_send:
  assumes inv: "ack_inv a" and f: "(l, q) \<in> set (as_flight a)"
    and n: "Notify None ''delivery_ack'' (Some (ack_params l q)) (as_env a) = Ret err s'"
  shows "ack_inv (a\<lparr>as_env := s', as_flight := remove1 (l, q) (as_flight a)\<rparr>)
    \<and> c_deliveryRecvSeq s' = c_deliveryRecvSeq (as_env a)"
proof -
  let ?s = "as_env a"
  note fr = SendMessage_frame [OF n [unfolded Notify_def]]
  have out: "distinct (as_flight a @ wire_acks ?s)" using inv by (simp add: ack_inv_def Let_def)
  have "wire_acks s' = wire_acks ?s \<or> wire_acks s' = wire_acks ?s @ [(l, q)]"
    using fr by (auto simp: wire_acks_def map_filter_snoc)
  then have d: "distinct (remove1 (l, q) (as_flight a) @ wire_acks s')"
    "set (remove1 (l, q) (as_flight a) @ wire_acks s') \<subseteq> set (as_flight a @ wire_acks ?s)"
    using out f by (auto dest: notin_set_remove1)
  moreover have "\<forall>(k, p)\<in>set (as_flight a @ wire_acks ?s). 1 \<le> p \<and> p \<le> c_deliveryAckedSeq ?s k"
    using inv by (simp add: ack_inv_def Let_def)
  ultimately have "\<forall>(k, p)\<in>set (remove1 (l, q) (as_flight a) @ wire_acks s'). 1 \<le> p \<and> p \<le> c_deliveryAckedSeq s' k"
    using fr d(2) by fastforce
  with d(1) show ?thesis using inv fr by (simp add: ack_inv_def Let_def)
qed

lemma ack_inv_step:
  assumes "ack_step a a'" "ack_inv a" "\<forall>l. 0 \<le> c_deliveryRecvSeq (as_env a) l"
  shows "ack_inv a' \<and> (\<forall>l. 0 \<le> c_deliveryRecvSeq (as_env a') l)"
  using assms
proof (induction rule: ack_step.induct)
  case (Receive ev a s')
  then show ?case using ack_inv_receive [of a "batch_leaves ev" s'] by (simp add: trackInboundDeliveryAck_def)
next
  case (Commit a xs l q ys send s')
  then show ?case using ack_inv_commit [OF Commit(3,1,2)] by simp
next
  case (Send l q a err s')
  then show ?case using ack_inv_send [OF Send(3,1,2)] by simp
qed

lemma ack_inv_reachable:
  "ack_step\<^sup>*\<^sup>* a a' \<Longrightarrow> ack_inv a \<Longrightarrow> \<forall>l. 0 \<le> c_deliveryRecvSeq (as_env a) l \<Longrightarrow>
   ack_inv a' \<and> (\<forall>l. 0 \<le> c_deliveryRecvSeq (as_env a') l)"
  by (induction rule: rtranclp_induct) (use ack_inv_step in blast)+

section \<open>Properties\<close>

text \<open>C13: Delivery acks under every interleaving of receives, recordings and sends: a loop's recorded
  ack never exceeds the frames received for it, no sequence number of a loop is put on the wire
  twice, every number on the wire was received and recorded, and once no started goroutine is left
  the recorded ack of every loop is the number of frames received for it.\<close>

theorem delivery_ack_exactly:
  assumes "ack_step\<^sup>*\<^sup>* \<lparr>as_env = s0, as_flight = []\<rparr> a" "ack_start s0"
  shows "(\<forall>l. c_deliveryAckedSeq (as_env a) l \<le> c_deliveryRecvSeq (as_env a) l)
    \<and> distinct (wire_acks (as_env a))
    \<and> (\<forall>(l, q)\<in>set (wire_acks (as_env a)). 1 \<le> q \<and> q \<le> c_deliveryAckedSeq (as_env a) l)
    \<and> (e_acks (as_env a) = [] \<longrightarrow>
         (\<forall>l. c_deliveryAckedSeq (as_env a) l = c_deliveryRecvSeq (as_env a) l))"
proof -
  have "ack_inv \<lparr>as_env = s0, as_flight = []\<rparr>" "\<forall>l. 0 \<le> c_deliveryRecvSeq s0 l"
    using assms(2) by (simp_all add: ack_inv_def ack_start_def Let_def)
  with ack_inv_reachable [OF assms(1)] have "ack_inv a" by simp
  then show ?thesis by (auto simp: ack_inv_def Let_def)
qed

theorem delivery_ack_exactly_witness:
  "c_deliveryAckedSeq ((start_env (NewClient ''u'' None) [] [])
       \<lparr>c_deliveryRecvSeq := (\<lambda>_. 0)(''l'' := 1), e_acks := [(''l'', 1)]\<rparr>) ''l''
     \<le> c_deliveryRecvSeq ((start_env (NewClient ''u'' None) [] [])
       \<lparr>c_deliveryRecvSeq := (\<lambda>_. 0)(''l'' := 1), e_acks := [(''l'', 1)]\<rparr>) ''l''"
proof -
  let ?s = "start_env (NewClient ''u'' None) [] []"
  let ?s1 = "?s\<lparr>c_deliveryRecvSeq := (\<lambda>_. 0)(''l'' := 1), e_acks := [(''l'', 1)]\<rparr>"
  have "TrimSpace ''l'' = ''l''" by (simp add: TrimSpace_plain_ends plain_byteI)
  then have "trackInboundDeliveryAck (Some [(''type'', GStr ''complete''), (''loop_id'', GStr ''l'')]) ?s = Ret () ?s1"
    by (simp add: trackInboundDeliveryAck_def batch_leaves.simps track_one_def InboundNeedsDeliveryAck_def
        ExtractLoopIDFromInbound_def start_env_def NewClient_def Client.defs env.defs Let_def)
  then have "ack_step\<^sup>*\<^sup>* \<lparr>as_env = ?s, as_flight = []\<rparr> \<lparr>as_env = ?s1, as_flight = []\<rparr>"
    using ack_step.Receive [of _ "\<lparr>as_env = ?s, as_flight = []\<rparr>"]
    by (intro r_into_rtranclp) simp
  moreover have "ack_start ?s"
    by (simp add: ack_start_def start_env_def NewClient_def Client.defs env.defs wire_acks_def map_filter_def)
  ultimately have "\<forall>l. c_deliveryAckedSeq ?s1 l \<le> c_deliveryRecvSeq ?s1 l"
    using delivery_ack_exactly [of ?s "\<lparr>as_env = ?s1, as_flight = []\<rparr>"] by (simp del: fun_upd_apply)
  then show ?thesis by blast
qed

end
