(* ===== verification/Read_Event.thy ===== *)
theory Read_Event
  imports Delivery_Ack
begin

text \<open>
  Reading (client.go): the synchronous \<^verbatim>\<open>ReadEvent\<close> and \<^verbatim>\<open>ReadEventWithTimeout\<close>, the peeling of stale
  frames before a turn, and the goroutine of \<^verbatim>\<open>ReceiveMessages\<close>. Each \<^verbatim>\<open>ReadMessage\<close> takes one result
  of the environment; when there is none left the call blocks.
\<close>

section \<open>Synchronous reads\<close>

text \<open>The messages of one WebSocket payload, in the order of the two nested loops.\<close>

definition frame_msgs :: "string \<Rightarrow> msg list" where
  "frame_msgs frame =
     (case DecodeMessage frame of
        Inl _ \<Rightarrow> []
      | Inr None \<Rightarrow> []
      | Inr (Some m) \<Rightarrow> ExpandWireMessages (Some m))"

definition payload_msgs :: "string \<Rightarrow> msg list" where
  "payload_msgs data = concat (map frame_msgs (SplitSootheWirePayload data))"

text \<open>The loop body: control frames and routed frames are skipped, the first other frame is
  returned; \<open>None\<close> when the loop runs out.\<close>

fun read_msgs :: "msg list \<Rightarrow> env \<Rightarrow> (env, gmap option) run" where
  "read_msgs [] s = Ret None s"
| "read_msgs (expanded # ms) s =
     andThen (isControlFrame expanded s)
       (\<lambda>control s1.
          if control then read_msgs ms s1
          else
            (let m = msg_map expanded
             in case route m (c_mux s1) of
                  (True, mx) \<Rightarrow> read_msgs ms (s1\<lparr>c_mux := mx\<rparr>)
                | (False, mx) \<Rightarrow>
                    andThen (trackInboundDeliveryAck m s1) (\<lambda>_ s2. Ret (Some m) s2)))"

definition ReadEvent :: "env \<Rightarrow> (env, goerr + gmap) run" where
  "ReadEvent s =
     (if c_mu s then Hang s
      else case c_pendingEvents s of
        ev # rest \<Rightarrow>
          andThen (trackInboundDeliveryAck (Some ev) (s\<lparr>c_pendingEvents := rest\<rparr>))
            (\<lambda>_ s1. Ret (Inr (Some ev)) s1)
      | [] \<Rightarrow>
          if c_conn s = None then Ret (Inl (ErrText ''soothe: not connected'')) s
          else
            (case e_reads s of
               [] \<Rightarrow> Hang s
             | r # rs \<Rightarrow>
                 (let s1 = s\<lparr>e_reads := rs\<rparr>
                  in case r of
                       RTimeout \<Rightarrow>
                         Ret (Inl (ErrWrap ''websocket read timed out'' (ErrNet ''i/o timeout'' True))) s1
                     | RError \<Rightarrow> Ret (Inr None) s1
                     | RPanic \<Rightarrow> Ret (Inr None) s1
                     | RData data \<Rightarrow>
                         andThen (read_msgs (payload_msgs data) s1)
                           (\<lambda>found s2. Ret (Inr (case found of Some m \<Rightarrow> m | None \<Rightarrow> None)) s2))))"

definition ReadEventWithTimeout :: "env \<Rightarrow> (env, goerr + gmap) run" where
  "ReadEventWithTimeout s =
     (if c_mu s then Hang s
      else case c_pendingEvents s of
        ev # rest \<Rightarrow> Ret (Inr (Some ev)) (s\<lparr>c_pendingEvents := rest\<rparr>)
      | [] \<Rightarrow>
          if c_conn s = None then Ret (Inl (ErrText ''soothe: not connected'')) s
          else
            andThen (ReadEvent s)
              (\<lambda>r s1. case r of
                 Inl e \<Rightarrow> if is_net_timeout e then Ret (Inr None) s1 else Ret (Inl e) s1
               | Inr ev \<Rightarrow> Ret (Inr ev) s1))"

section \<open>Peeling\<close>

text \<open>The drain of live frames, at most the given number of reads.\<close>

fun peel_live :: "nat \<Rightarrow> env \<Rightarrow> (env, string list) run" where
  "peel_live 0 s = Ret [] s"
| "peel_live (Suc n) s =
     andThen (ReadEventWithTimeout s)
       (\<lambda>r s1. case r of
          Inl _ \<Rightarrow> Ret [] s1
        | Inr None \<Rightarrow> Ret [] s1
        | Inr (Some ev) \<Rightarrow>
            (let label = StalePendingFrameLabel (Some ev)
             in if label \<noteq> [] then andThen (peel_live n s1) (\<lambda>ls s2. Ret (label # ls) s2)
                else if c_mu s1 then Hang s1
                else Ret [] (enqueuePendingLocked ev s1)))"

definition PeelStalePendingControlEvents :: "env \<Rightarrow> (env, string list) run" where
  "PeelStalePendingControlEvents s =
     (if c_mu s then Hang s
      else case peel_pending (c_pendingEvents s) of
        (peeled, kept) \<Rightarrow>
          andThen (peel_live 8 (s\<lparr>c_pendingEvents := kept\<rparr>)) (\<lambda>ls s1. Ret (peeled @ ls) s1))"

section \<open>The reader goroutine\<close>

definition rx_map :: "msg \<Rightarrow> gmap" where
  "rx_map m = (case m of MMap mv \<Rightarrow> mv | _ \<Rightarrow> msg_map m)"

definition rx_heartbeat :: "gmap \<Rightarrow> env \<Rightarrow> env" where
  "rx_heartbeat m s =
     s\<lparr>c_heartbeatTracker := map_option (\<lambda>t. snd (ProcessHeartbeatEvent m t)) (c_heartbeatTracker s)\<rparr>"

text \<open>The messages of one payload: those forwarded, and whether the context ended the goroutine at
  the send with the given number.\<close>

fun rx_msgs :: "nat option \<Rightarrow> msg list \<Rightarrow> env \<Rightarrow> (env, msg list \<times> bool) run" where
  "rx_msgs stop [] s = Ret ([], False) s"
| "rx_msgs stop (expanded # ms) s =
     andThen (isControlFrame expanded s)
       (\<lambda>control s1.
          if control then rx_msgs stop ms s1
          else
            (let m = rx_map expanded
             in case route m (c_mux s1) of
                  (True, mx) \<Rightarrow> rx_msgs stop ms (s1\<lparr>c_mux := mx\<rparr>)
                | (False, mx) \<Rightarrow>
                    andThen (trackInboundDeliveryAck m s1)
                      (\<lambda>_ s2.
                         (let s3 = rx_heartbeat m s2
                          in if stop = Some 0 then Ret ([], True) s3
                             else andThen (rx_msgs (map_option (\<lambda>k. k - 1) stop) ms s3)
                                    (\<lambda>(fw, st) s4. Ret (expanded # fw, st) s4)))))"

text \<open>The goroutine on a list of iterations, each with the context's state, the result of the read
  and the send at which the context ends, if it does. The second result says whether the goroutine
  has ended.\<close>

fun rx_loop :: "(bool \<times> read \<times> nat option) list \<Rightarrow> env \<Rightarrow> (env, msg list \<times> bool) run" where
  "rx_loop [] s = Ret ([], False) s"
| "rx_loop ((ctxDone, r, stop) # its) s =
     (if ctxDone then Ret ([], True) (s\<lparr>c_readerActive := False\<rparr>)
      else if c_mu s then Hang s
      else if c_closed s \<or> c_conn s = None then Ret ([], True) (s\<lparr>c_readerActive := False\<rparr>)
      else case r of
        RData data \<Rightarrow>
          andThen (rx_msgs stop (payload_msgs data) s)
            (\<lambda>(fw, st) s1.
               if st then Ret (fw, True) (s1\<lparr>c_readerActive := False\<rparr>)
               else andThen (rx_loop its s1) (\<lambda>(fw', e) s2. Ret (fw @ fw', e) s2))
      | _ \<Rightarrow>
          andThen (signalDisconnect DisconnectUnclean s)
            (\<lambda>_ s1. Ret ([], True) (s1\<lparr>c_readerActive := False\<rparr>)))"

definition ReceiveMessages ::
  "(bool \<times> read \<times> nat option) list \<Rightarrow> env \<Rightarrow> (env, goerr + (msg list \<times> bool)) run" where
  "ReceiveMessages its s =
     (if c_mu s then Hang s
      else if c_conn s = None \<or> c_closed s then Ret (Inl (ErrText ''soothe: not connected'')) s
      else andThen (rx_loop its (s\<lparr>c_readerActive := True\<rparr>)) (\<lambda>r s1. Ret (Inr r) s1))"

section \<open>Lemmas\<close>

definition is_control :: "msg \<Rightarrow> bool" where
  "is_control m = (case m of MEnvelope e \<Rightarrow> env_Type e \<in> {''ping'', ''pong'', ''disconnect''} | _ \<Rightarrow> False)"

text \<open>What control frames and tracking leave unchanged.\<close>

lemma signalDisconnect_frame:
  assumes "signalDisconnect cause s = Ret u s'"
  shows "c_mux s' = c_mux s \<and> c_pendingEvents s' = c_pendingEvents s \<and> e_reads s' = e_reads s
    \<and> c_conn s' = c_conn s \<and> c_closed s' = c_closed s \<and> c_mu s' = c_mu s"
  using assms by (auto simp: signalDisconnect_def Let_def split: once.splits if_splits)

lemma write_msg_frame [simp]:
  "c_mux (snd (write_msg m s)) = c_mux s" "c_pendingEvents (snd (write_msg m s)) = c_pendingEvents s"
  "e_reads (snd (write_msg m s)) = e_reads s"
  by (simp_all add: write_msg_def split: list.split bool.split)

lemma isControlFrame_frame:
  assumes "isControlFrame m s = Ret b s'"
  shows "b = is_control m \<and> c_mux s' = c_mux s \<and> c_pendingEvents s' = c_pendingEvents s
    \<and> e_reads s' = e_reads s \<and> c_conn s' = c_conn s \<and> c_closed s' = c_closed s \<and> c_mu s' = c_mu s"
  using assms
  by (auto simp: isControlFrame_def is_control_def andThen_Ret_iff sendPong_def locked_def
      dest: signalDisconnect_frame split: msg.splits if_splits)

lemma track_one_frame:
  assumes "track_one e s = Ret u s'"
  shows "c_mux s' = c_mux s \<and> c_pendingEvents s' = c_pendingEvents s
    \<and> e_reads s' = e_reads s \<and> c_conn s' = c_conn s \<and> c_closed s' = c_closed s \<and> c_mu s' = c_mu s
    \<and> c_disconnOnce s' = c_disconnOnce s \<and> c_disconnCh s' = c_disconnCh s
    \<and> c_disconnected s' = c_disconnected s \<and> c_disconnCause s' = c_disconnCause s"
  using assms by (auto simp: track_one_def Let_def split: if_splits)

lemma track_all_frame:
  "track_all es s = Ret u s' \<Longrightarrow>
   c_mux s' = c_mux s \<and> c_pendingEvents s' = c_pendingEvents s
    \<and> e_reads s' = e_reads s \<and> c_conn s' = c_conn s \<and> c_closed s' = c_closed s \<and> c_mu s' = c_mu s
    \<and> c_disconnOnce s' = c_disconnOnce s \<and> c_disconnCh s' = c_disconnCh s
    \<and> c_disconnected s' = c_disconnected s \<and> c_disconnCause s' = c_disconnCause s"
  by (induction es arbitrary: s) (auto simp: andThen_Ret_iff dest!: track_one_frame)

lemma track_frame:
  assumes "trackInboundDeliveryAck oe s = Ret u s'"
  shows "c_mux s' = c_mux s \<and> c_pendingEvents s' = c_pendingEvents s
    \<and> e_reads s' = e_reads s \<and> c_conn s' = c_conn s \<and> c_closed s' = c_closed s \<and> c_mu s' = c_mu s
    \<and> c_disconnOnce s' = c_disconnOnce s \<and> c_disconnCh s' = c_disconnCh s
    \<and> c_disconnected s' = c_disconnected s \<and> c_disconnCause s' = c_disconnCause s"
  using assms track_all_frame by (cases oe) (auto simp: trackInboundDeliveryAck_def)

lemma track_returns: "\<not> c_mu s \<Longrightarrow> \<exists>s'. trackInboundDeliveryAck oe s = Ret () s'"
proof -
  have one: "\<not> c_mu s \<Longrightarrow> \<exists>s'. track_one e s = Ret () s' \<and> \<not> c_mu s'" for e s
    by (auto simp: track_one_def Let_def)
  have all: "\<not> c_mu s \<Longrightarrow> \<exists>s'. track_all es s = Ret () s'" for es s
  proof (induction es arbitrary: s)
    case (Cons e es)
    then show ?case using one [of s e] by (metis andThen_simps(1) track_all.simps(2))
  qed simp
  show "\<not> c_mu s \<Longrightarrow> \<exists>s'. trackInboundDeliveryAck oe s = Ret () s'"
    using all by (simp add: trackInboundDeliveryAck_def split: option.split)
qed

text \<open>With the mutex free and no drop signal in progress, control frames are handled without
  blocking or panicking.\<close>

lemma isControlFrame_returns:
  "link_inv got s \<Longrightarrow> \<exists>s'. isControlFrame m s = Ret (is_control m) s' \<and> link_inv got s'"
  using signalDisconnect_inv [of got s DisconnectClean]
  by (cases m)
     (auto simp: isControlFrame_def is_control_def sendPong_def locked_def link_inv_def split: once.splits)

lemma link_inv_mux [simp]: "link_inv got (s\<lparr>c_mux := mx\<rparr>) = link_inv got s"
  "link_inv got (s\<lparr>e_reads := rs\<rparr>) = link_inv got s"
  "link_inv got (s\<lparr>c_pendingEvents := pe\<rparr>) = link_inv got s"
  "link_inv got (s\<lparr>c_readerActive := b\<rparr>) = link_inv got s"
  "link_inv got (rx_heartbeat m s) = link_inv got s"
  by (simp_all add: link_inv_def rx_heartbeat_def split: once.split)

lemma track_link_inv:
  assumes "link_inv got s" shows "\<exists>s'. trackInboundDeliveryAck oe s = Ret () s' \<and> link_inv got s'"
proof -
  have "\<not> c_mu s" using assms by (simp add: link_inv_def)
  then obtain s' where s': "trackInboundDeliveryAck oe s = Ret () s'" using track_returns by blast
  then show ?thesis using assms track_frame [OF s'] by (auto simp: link_inv_def split: once.splits)
qed

definition no_waiters :: "mux \<Rightarrow> bool" where
  "no_waiters m \<longleftrightarrow> mx_rpcs m = Map.empty \<and> mx_subs m = Map.empty \<and> mx_receipts m = Map.empty"

lemma route_no_waiters: "no_waiters m \<Longrightarrow> route f m = (False, m)"
  by (simp add: route_def route_lookup_def no_waiters_def Let_def split: option.split)

lemma msg_map_event: "msg_map (MEvent e) = Some (reread (event_obj e))"
proof -
  have "wf_obj (event_obj e)" by (simp add: event_obj_def wf_obj_def opt_str_def opt_int_def opt_val_def)
  from marshal_fields_wf [OF this] show ?thesis by (simp add: msg_map_def)
qed

lemma event_obj_type [simp]: "idx (event_obj e) ''type'' = GStr (ev_Type e)"
  by (simp add: event_obj_def opt_str_def)

lemma route_event: "ev_Type e = ''event'' \<Longrightarrow> route (msg_map (MEvent e)) m = (False, m)"
  by (simp add: route_def route_lookup_def msg_map_event Let_def)

text \<open>The forwarded messages of a payload when nobody waits.\<close>

lemma rx_msgs_forwards:
  "link_inv got s \<Longrightarrow> no_waiters (c_mux s) \<Longrightarrow>
   \<exists>s'. rx_msgs None ms s = Ret (filter (\<lambda>m. \<not> is_control m) ms, False) s' \<and> link_inv got s'
     \<and> no_waiters (c_mux s') \<and> c_conn s' = c_conn s \<and> c_closed s' = c_closed s"
proof (induction ms arbitrary: s)
  case (Cons m ms)
  obtain s1 where s1: "isControlFrame m s = Ret (is_control m) s1" "link_inv got s1"
    using isControlFrame_returns [OF Cons.prems(1)] by blast
  note f1 = isControlFrame_frame [OF s1(1)]
  show ?case
  proof (cases "is_control m")
    case True
    with Cons.IH [of s1] s1 f1 Cons.prems show ?thesis by auto
  next
    case False
    obtain s2 where s2: "trackInboundDeliveryAck (rx_map m) s1 = Ret () s2" "link_inv got s2"
      using track_link_inv [OF s1(2)] by blast
    note f2 = track_frame [OF s2(1)]
    have nw: "no_waiters (c_mux s1)" using f1 Cons.prems by simp
    have "c_mux (rx_heartbeat (rx_map m) s2) = c_mux s1"
      "c_conn (rx_heartbeat (rx_map m) s2) = c_conn s" "c_closed (rx_heartbeat (rx_map m) s2) = c_closed s"
      using f1 f2 by (simp_all add: rx_heartbeat_def)
    with Cons.IH [of "rx_heartbeat (rx_map m) s2"] s2 nw f1
    obtain s3 where "rx_msgs None ms (rx_heartbeat (rx_map m) s2) = Ret (filter (\<lambda>m. \<not> is_control m) ms, False) s3"
      "link_inv got s3" "no_waiters (c_mux s3)" "c_conn s3 = c_conn s" "c_closed s3 = c_closed s"
      by auto
    with False s1 s2 nw show ?thesis by (simp add: route_no_waiters Let_def)
  qed
qed simp

text \<open>Two concrete payloads: a ping, and two lines with an event each.\<close>

definition type_text :: "string \<Rightarrow> string" where
  "type_text t = [CHR ''{'', CHR 0x22] @ ''type'' @ [CHR 0x22, CHR '':'', CHR 0x22] @ t @ [CHR 0x22, CHR ''}'']"

lemma payload_ping: "payload_msgs (type_text ''ping'') = [MEnvelope (zero_envelope\<lparr>env_Type := ''ping''\<rparr>)]"
  by code_simp

lemma payload_two_events:
  "payload_msgs (type_text ''event'' @ CHR 0x0A # type_text ''event'') =
     [MEvent (zero_event\<lparr>ev_Type := ''event''\<rparr>), MEvent (zero_event\<lparr>ev_Type := ''event''\<rparr>)]"
  by code_simp

section \<open>Properties\<close>

text \<open>C26: The reader goroutine forwards every application frame: with no RPC or subscription waiting,
  a payload, however many NDJSON lines and batched events it holds, is forwarded completely and
  in order, without the ping, pong and disconnect frames; the reader neither blocks nor panics.\<close>

theorem reader_forwards_payload:
  assumes "link_inv got s" "no_waiters (c_mux s)" "c_conn s \<noteq> None" "\<not> c_closed s"
  shows "\<exists>s'. rx_loop [(False, RData data, None)] s =
      Ret (filter (\<lambda>m. \<not> is_control m) (payload_msgs data), False) s' \<and> link_inv got s'"
  using rx_msgs_forwards [OF assms(1,2), of "payload_msgs data"] assms by (auto simp: link_inv_def)

theorem reader_forwards_payload_witness:
  "\<exists>s'. rx_loop [(False, RData ''{}'', None)] (start_env ((NewClient ''u'' None)\<lparr>c_conn := Some 0\<rparr>) [] [])
     = Ret (filter (\<lambda>m. \<not> is_control m) (payload_msgs ''{}''), False) s'"
  using reader_forwards_payload [of "[]" "start_env ((NewClient ''u'' None)\<lparr>c_conn := Some 0\<rparr>) [] []" "''{}''"]
  by (auto simp: start_env_def NewClient_def Client.defs env.defs link_inv_def no_waiters_def newMux_def)

text \<open>C38: A synchronous read keeps one event of a payload and loses the others: when the payload
  decodes to an event followed by further messages, \<^verbatim>\<open>ReadEvent\<close> returns the event, the rest is
  neither in the pending buffer nor left to be read, and the result is the same whatever follows
  the first event.\<close>

theorem read_event_loses_rest:
  assumes "link_inv got s" "c_pendingEvents s = []" "c_conn s \<noteq> None" "e_reads s = RData data # rs"
    "payload_msgs data = MEvent e # rest" "ev_Type e = ''event''"
  shows "\<exists>s'. ReadEvent s = Ret (Inr (msg_map (MEvent e))) s'
    \<and> c_pendingEvents s' = [] \<and> e_reads s' = rs \<and> c_mux s' = c_mux s
    \<and> trackInboundDeliveryAck (msg_map (MEvent e)) (s\<lparr>e_reads := rs\<rparr>) = Ret () s'"
proof -
  let ?s = "s\<lparr>e_reads := rs\<rparr>"
  obtain s' where s': "trackInboundDeliveryAck (msg_map (MEvent e)) ?s = Ret () s'"
    using track_link_inv [of got ?s] assms(1) by auto
  have mu: "\<not> c_mu s" using assms(1) by (simp add: link_inv_def)
  show ?thesis
    using track_frame [OF s'] s' assms(2-6) mu route_event [OF assms(6)]
    by (intro exI [of _ s']) (auto simp: ReadEvent_def isControlFrame_def)
qed

theorem read_event_loses_rest_witness:
  "\<exists>s'. ReadEvent (start_env ((NewClient ''u'' None)\<lparr>c_conn := Some 0\<rparr>)
            [RData (type_text ''event'' @ CHR 0x0A # type_text ''event'')] [])
          = Ret (Inr (msg_map (MEvent (zero_event\<lparr>ev_Type := ''event''\<rparr>)))) s' \<and> c_pendingEvents s' = []"
  using read_event_loses_rest [of "[]" "start_env ((NewClient ''u'' None)\<lparr>c_conn := Some 0\<rparr>)
        [RData (type_text ''event'' @ CHR 0x0A # type_text ''event'')] []", OF _ _ _ _ payload_two_events]
  by (auto simp: start_env_def NewClient_def Client.defs env.defs link_inv_def)

text \<open>A payload of heartbeat frames looks like a closed connection to a synchronous reader: on a
  \<^verbatim>\<open>ping\<close> \<^verbatim>\<open>ReadEvent\<close> answers with a \<^verbatim>\<open>pong\<close> and returns the nil event without an error, exactly what it
  returns when the connection is closed, while the connection is still open.\<close>

theorem ping_reads_as_close:
  assumes "link_inv got s" "c_pendingEvents s = []" "c_conn s \<noteq> None" "\<not> c_closed s"
    "e_reads s = RData data # rs" "payload_msgs data = [MEnvelope env]" "env_Type env = ''ping''"
  shows "\<exists>s'. ReadEvent s = Ret (Inr None) s' \<and> c_conn s' = c_conn s \<and> \<not> c_closed s'
    \<and> ReadEvent (s\<lparr>e_reads := RError # rs\<rparr>) = Ret (Inr None) (s\<lparr>e_reads := rs\<rparr>)"
  using assms
  by (auto simp: ReadEvent_def isControlFrame_def sendPong_def locked_def link_inv_def)

theorem ping_reads_as_close_witness:
  "\<exists>s'. ReadEvent (start_env ((NewClient ''u'' None)\<lparr>c_conn := Some 0\<rparr>) [RData (type_text ''ping'')] [])
     = Ret (Inr None) s'"
  using ping_reads_as_close [of "[]" "start_env ((NewClient ''u'' None)\<lparr>c_conn := Some 0\<rparr>)
        [RData (type_text ''ping'')] []", OF _ _ _ _ _ payload_ping]
  by (auto simp: start_env_def NewClient_def Client.defs env.defs link_inv_def)

end
