(* ===== verification/Rpc.thy ===== *)
theory Rpc
  imports Read_Event
begin

text \<open>
  The request/response pattern, subscriptions and detaching (request.go). A wait is a list of
  rounds: in each, the frames a concurrent reader goroutine has routed since the last round, and
  what the \<^verbatim>\<open>select\<close> then finds: the context done, the timeout fired, or neither, with a preference
  between the reply and the error channel when both are ready. With no round left the call still
  waits. The frames routed between the send and the registration of the waiter are an argument
  of their own.
\<close>

section \<open>Waiting\<close>

datatype poll = CtxDone goerr | TimedOut | Ready bool

type_synonym round = "poll \<times> gobj list"

definition take_answer :: "bool \<Rightarrow> nat \<Rightarrow> mux \<Rightarrow> ((goerr + gmap) \<times> mux) option" where
  "take_answer errFirst pc m =
     (case (recvReply pc m, recvErr pc m) of
        (Some (r, m1), None) \<Rightarrow> Some (Inr (Some r), m1)
      | (None, Some (e, m2)) \<Rightarrow> Some (Inl e, m2)
      | (Some (r, m1), Some (e, m2)) \<Rightarrow> if errFirst then Some (Inl e, m2) else Some (Inr (Some r), m1)
      | (None, None) \<Rightarrow> None)"

definition timeout_text :: "string \<Rightarrow> string \<Rightarrow> goerr" where
  "timeout_text d what = ErrText (''timeout after '' @ d @ '' waiting for '' @ what)"

definition closed_text :: "string \<Rightarrow> goerr" where
  "closed_text what = ErrText (''connection closed waiting for '' @ what)"

definition route_env :: "gobj list \<Rightarrow> env \<Rightarrow> env" where
  "route_env fs s = s\<lparr>c_mux := route_all fs (c_mux s)\<rparr>"

text \<open>The loop of \<^verbatim>\<open>RequestResponse\<close> and \<^verbatim>\<open>LoopDetach\<close>, which differ in how an error frame read
  directly becomes an error.\<close>

fun await_rpc :: "(gobj \<Rightarrow> goerr) \<Rightarrow> string \<Rightarrow> string \<Rightarrow> string \<Rightarrow> nat \<Rightarrow> round list \<Rightarrow> env \<Rightarrow> (env, goerr + gmap) run" where
  "await_rpc derr what d rid pc [] s = Hang s"
| "await_rpc derr what d rid pc ((p, arrivals) # its) s =
     (let s0 = route_env arrivals s
      in case p of
           CtxDone e \<Rightarrow> Ret (Inl e) s0
         | TimedOut \<Rightarrow> Ret (Inl (timeout_text d what)) s0
         | Ready errFirst \<Rightarrow>
             (case take_answer errFirst pc (c_mux s0) of
                Some (res, mx) \<Rightarrow> Ret res (s0\<lparr>c_mux := mx\<rparr>)
              | None \<Rightarrow>
                  if c_readerActive s0 then await_rpc derr what d rid pc its s0
                  else
                    andThen (ReadEvent s0)
                      (\<lambda>r s1. case r of
                         Inl e \<Rightarrow> Ret (Inl (ErrWrap ''read event'' e)) s1
                       | Inr None \<Rightarrow>
                           (case take_answer errFirst pc (c_mux s1) of
                              Some (res, mx) \<Rightarrow> Ret res (s1\<lparr>c_mux := mx\<rparr>)
                            | None \<Rightarrow> Ret (Inl (closed_text what)) s1)
                       | Inr (Some ev) \<Rightarrow>
                           if asString (idx ev ''id'') \<noteq> rid then
                             await_rpc derr what d rid pc its (s1\<lparr>c_mux := snd (route (Some ev) (c_mux s1))\<rparr>)
                           else if asString (idx ev ''type'') = ''error'' then Ret (Inl (derr ev)) s1
                           else if asString (idx ev ''type'') = ''response'' then
                             Ret (Inr (Some (frame_result ev))) s1
                           else await_rpc derr what d rid pc its s1)))"

text \<open>A deferred unregister runs when the call returns.\<close>

definition after_rpc :: "nat \<Rightarrow> string \<Rightarrow> (env, 'a) run \<Rightarrow> (env, 'a) run" where
  "after_rpc pc rid r = andThen r (\<lambda>x s. Ret x (s\<lparr>c_mux := unregisterRPC pc rid (c_mux s)\<rparr>))"

section \<open>Requests\<close>

definition request_params :: "gobj \<Rightarrow> gobj" where
  "request_params payload =
     copy_into (filter (\<lambda>(k, v). \<not> (k = ''type'' \<or> k = ''request_id'')) payload) []"

text \<open>Arguments: the context's state at the send, the id the UUID library would give, the frames
  routed between send and registration, the timeout as formatted text and the rounds of the wait.\<close>

definition RequestResponse ::
  "goerr option \<Rightarrow> string \<Rightarrow> gobj list \<Rightarrow> string \<Rightarrow> round list \<Rightarrow> gobj \<Rightarrow> string \<Rightarrow> env \<Rightarrow> (env, goerr + gmap) run" where
  "RequestResponse cx uuid early d its payload responseType s =
     (let mth = asString (idx payload ''type'')
      in if mth = [] then Ret (Inl (ErrText ''request payload missing 'type' (method)'')) s
         else
           (let env = NewRequestEnvelopeWithID uuid mth (Some (request_params payload))
                        (asString (idx payload ''request_id''));
                rid = env_ID env
            in andThen (SendMessage cx (MEnvelope env) s)
                 (\<lambda>err s1. case err of
                    Some e \<Rightarrow> Ret (Inl (ErrWrap ''send request'' e)) s1
                  | None \<Rightarrow>
                      (let s2 = route_env early s1
                       in case registerRPC rid (c_mux s2) of
                            (pc, mx) \<Rightarrow>
                              after_rpc pc rid
                                (await_rpc frame_daemon_error responseType d rid pc its (s2\<lparr>c_mux := mx\<rparr>))))))"

definition LoopDetach ::
  "goerr option \<Rightarrow> gobj list \<Rightarrow> string \<Rightarrow> round list \<Rightarrow> string \<Rightarrow> env \<Rightarrow> (env, goerr + gmap) run" where
  "LoopDetach cx early d its loopID s =
     (let env = NewUnsubscribeEnvelope loopID; rid = env_ID env
      in andThen (SendMessage cx (MEnvelope env) s)
           (\<lambda>err s1. case err of
              Some e \<Rightarrow> Ret (Inl (ErrWrap ''send unsubscribe'' e)) s1
            | None \<Rightarrow>
                (let s2 = route_env early s1
                 in case registerRPC rid (c_mux s2) of
                      (pc, mx) \<Rightarrow>
                        after_rpc pc rid
                          (await_rpc (\<lambda>ev. ErrText (''daemon error: '' @ frame_error_message ev)) ''loop_detach'' d
                             rid pc its (s2\<lparr>c_mux := mx\<rparr>)))))"

section \<open>Subscriptions\<close>

definition sub_what :: string where "sub_what = ''loop_events confirmation''"

definition stream_answer :: "gobj \<Rightarrow> goerr + gmap" where
  "stream_answer ev =
     (if asString (idx ev ''type'') = ''error'' then Inl (ErrText (''daemon error: '' @ frame_error_message ev))
      else Inr (as_map (idx ev ''payload'')))"

fun await_stream :: "string \<Rightarrow> string \<Rightarrow> nat \<Rightarrow> round list \<Rightarrow> env \<Rightarrow> (env, goerr + gmap) run" where
  "await_stream d rid ps [] s = Hang s"
| "await_stream d rid ps ((p, arrivals) # its) s =
     (let s0 = route_env arrivals s
      in case p of
           CtxDone e \<Rightarrow> Ret (Inl e) s0
         | TimedOut \<Rightarrow> Ret (Inl (timeout_text d sub_what)) s0
         | Ready _ \<Rightarrow>
             (case recvStream ps (c_mux s0) of
                Some (ev, mx) \<Rightarrow> Ret (stream_answer ev) (s0\<lparr>c_mux := mx\<rparr>)
              | None \<Rightarrow>
                  if c_readerActive s0 then await_stream d rid ps its s0
                  else
                    andThen (ReadEvent s0)
                      (\<lambda>r s1. case r of
                         Inl e \<Rightarrow> Ret (Inl (ErrWrap ''read event'' e)) s1
                       | Inr None \<Rightarrow>
                           (case recvStream ps (c_mux s1) of
                              Some (ev, mx) \<Rightarrow> Ret (stream_answer ev) (s1\<lparr>c_mux := mx\<rparr>)
                            | None \<Rightarrow> Ret (Inl (closed_text sub_what)) s1)
                       | Inr (Some ev) \<Rightarrow>
                           (let typ = asString (idx ev ''type''); evID = asString (idx ev ''id'')
                            in if typ = ''error'' \<and> evID = rid then
                                 Ret (Inl (ErrText (''daemon error: '' @ frame_error_message ev))) s1
                               else if typ \<noteq> ''next'' \<or> evID \<noteq> rid then
                                 await_stream d rid ps its (s1\<lparr>c_mux := snd (route (Some ev) (c_mux s1))\<rparr>)
                               else Ret (Inr (as_map (idx ev ''payload''))) s1))))"

definition after_sub :: "nat \<Rightarrow> string \<Rightarrow> (env, 'a) run \<Rightarrow> (env, 'a) run" where
  "after_sub ps rid r =
     andThen r (\<lambda>x s. case unregisterSubscription ps rid (c_mux s) of
                         Some mx \<Rightarrow> Ret x (s\<lparr>c_mux := mx\<rparr>) | None \<Rightarrow> Crash s)"

definition LoopSubscribe ::
  "goerr option \<Rightarrow> string \<Rightarrow> gobj list \<Rightarrow> string \<Rightarrow> round list \<Rightarrow> string \<Rightarrow> string \<Rightarrow> env \<Rightarrow> (env, goerr + gmap) run" where
  "LoopSubscribe cx uuid early d its loopID verbosity s =
     (let params = put_if (verbosity \<noteq> []) ''verbosity'' (GStr verbosity) [(''loop_id'', GStr loopID)];
          env = NewSubscribeEnvelope uuid ''loop_events'' (Some params)
      in andThen (SendMessage cx (MEnvelope env) s)
           (\<lambda>err s1. case err of
              Some e \<Rightarrow> Ret (Inl (ErrWrap ''send subscribe'' e)) s1
            | None \<Rightarrow>
                (let s2 = route_env early s1
                 in case registerSubscription (env_ID env) (c_mux s2) of
                      (ps, mx) \<Rightarrow>
                        after_sub ps (env_ID env) (await_stream d (env_ID env) ps its (s2\<lparr>c_mux := mx\<rparr>)))))"

section \<open>Lemmas\<close>

definition own_response :: "string \<Rightarrow> gobj \<Rightarrow> bool" where
  "own_response rid f \<longleftrightarrow> asString (idx f ''id'') = rid \<and> asString (idx f ''type'') = ''response''"

text \<open>Every reply that waits in a call's channel is the result of a response with the call's id
  among the frames seen.\<close>

definition rpc_own :: "string \<Rightarrow> gobj set \<Rightarrow> nat \<Rightarrow> mux \<Rightarrow> bool" where
  "rpc_own rid seen pc m \<longleftrightarrow>
     (\<exists>c. mx_calls m pc = Some c \<and> pc_id c = rid
        \<and> (\<forall>r\<in>set (pc_replyCh c). \<exists>f\<in>seen. own_response rid f \<and> r = frame_result f))"

lemma rpc_own_mono: "rpc_own rid A pc m \<Longrightarrow> A \<subseteq> B \<Longrightarrow> rpc_own rid B pc m"
  unfolding rpc_own_def by blast

lemma set_try_send: "y \<in> set (try_send n x ch) \<Longrightarrow> y = x \<or> y \<in> set ch"
  by (auto simp: try_send_def split: if_splits)

lemma rpc_own_route:
  assumes inv: "mux_inv m" and own: "rpc_own rid seen pc m"
  shows "rpc_own rid (insert f seen) pc (snd (route (Some f) m))"
proof (cases "route_lookup (Some f) m")
  case None
  then show ?thesis using rpc_own_mono [OF own, of "insert f seen"] by (auto simp: route_def)
next
  case (Some w)
  obtain c where c: "mx_calls m pc = Some c" "pc_id c = rid"
    "\<forall>r\<in>set (pc_replyCh c). \<exists>f\<in>seen. own_response rid f \<and> r = frame_result f"
    using own unfolding rpc_own_def by blast
  show ?thesis
  proof (cases "w = WCall pc")
    case True
    have "asString (idx f ''id'') = rid"
      using flight_ok_lookup [OF inv Some] True c by (simp add: flight_ok_def)
    moreover have "asString (idx f ''type'') = ''response'' \<or> asString (idx f ''type'') = ''error''"
      using Some True by (auto simp: route_lookup_def Let_def split: if_splits)
    ultimately show ?thesis
      using True Some c unfolding rpc_own_def
      by (auto simp: route_def route_deliver_def own_response_def dest!: set_try_send)
  next
    case False
    then have "mx_calls (snd (route (Some f) m)) pc = mx_calls m pc"
      using Some by (auto simp: route_def route_deliver_def split: waiter.split option.split)
    then show ?thesis using c unfolding rpc_own_def by auto
  qed
qed

lemma rpc_own_route_all:
  "mux_inv m \<Longrightarrow> rpc_own rid seen pc m \<Longrightarrow> rpc_own rid (seen \<union> set fs) pc (route_all fs m)"
proof (induction fs arbitrary: m seen)
  case (Cons f fs)
  from Cons.IH [OF mux_inv_route [OF Cons.prems(1)] rpc_own_route [OF Cons.prems]]
  show ?case by (simp add: route_all_def)
qed (simp add: route_all_def)

lemma rpc_own_register:
  "mux_inv m \<Longrightarrow> registerRPC rid m = (pc, m') \<Longrightarrow> rpc_own rid {} pc m'"
  by (auto simp: registerRPC_def rpc_own_def Let_def)

lemma take_answer_reply:
  assumes "take_answer b pc m = Some (Inr r, m')" "rpc_own rid seen pc m"
  shows "\<exists>f\<in>seen. own_response rid f \<and> r = Some (frame_result f)"
proof -
  have "\<exists>x m1. recvReply pc m = Some (x, m1) \<and> r = Some x"
    using assms(1) by (auto simp: take_answer_def split: option.splits if_splits)
  then show ?thesis using assms(2) by (auto simp: recvReply_Some rpc_own_def)
qed

lemma await_rpc_own:
  "c_readerActive s \<Longrightarrow> mux_inv (c_mux s) \<Longrightarrow> rpc_own rid seen pc (c_mux s) \<Longrightarrow>
   await_rpc derr what d rid pc its s = Ret (Inr r) s' \<Longrightarrow>
   \<exists>f\<in>seen \<union> set (concat (map snd its)). own_response rid f \<and> r = Some (frame_result f)"
proof (induction its arbitrary: s seen)
  case (Cons it its)
  obtain p arr where it: "it = (p, arr)" by fastforce
  let ?s0 = "route_env arr s"
  have s0: "c_readerActive ?s0" "mux_inv (c_mux ?s0)" "rpc_own rid (seen \<union> set arr) pc (c_mux ?s0)"
    using Cons.prems mux_inv_route_all rpc_own_route_all by (simp_all add: route_env_def)
  from Cons.prems(4) obtain b where p: "p = Ready b" by (cases p) (auto simp: it Let_def)
  show ?case
  proof (cases "take_answer b pc (c_mux ?s0)")
    case None
    then have "await_rpc derr what d rid pc its ?s0 = Ret (Inr r) s'"
      using Cons.prems(4) s0(1) by (simp add: it p Let_def)
    from Cons.IH [OF s0 this] show ?thesis by (auto simp: it)
  next
    case (Some rm)
    then obtain mx where "rm = (Inr r, mx)"
      using Cons.prems(4) by (cases rm) (auto simp: it p Let_def)
    with Some have "take_answer b pc (c_mux ?s0) = Some (Inr r, mx)" by simp
    from take_answer_reply [OF this s0(3)] show ?thesis by (auto simp: it)
  qed
qed simp

lemma SendMessage_ok_frame:
  assumes "SendMessage cx m s = Ret None s'"
  shows "c_mux s' = c_mux s \<and> c_readerActive s' = c_readerActive s"
  using assms
  by (auto simp: SendMessage_def write_msg_def andThen_Ret_iff
      split: if_splits option.splits list.splits bool.splits)

text \<open>A successful send: connected, live context, next write succeeding.\<close>

lemma SendMessage_ok:
  "c_conn s \<noteq> None \<Longrightarrow> \<not> c_closed s \<Longrightarrow> \<not> c_mu s \<Longrightarrow> e_writes s = [] \<Longrightarrow>
   SendMessage None m s = Ret None (s\<lparr>e_sent := e_sent s @ [m]\<rparr>)"
  by (auto simp: SendMessage_def write_msg_def)

lemma env_ID_request [simp]:
  "env_ID (NewRequestEnvelopeWithID uuid mth ps rid) = (if rid = [] then uuid else rid)"
  by (simp add: NewRequestEnvelopeWithID_def Let_def)

text \<open>Rounds that bring no answer leave the call waiting as it was.\<close>

lemma await_rpc_skip:
  "c_readerActive s \<Longrightarrow> mux_inv (c_mux s) \<Longrightarrow> mx_rpcs (c_mux s) rid = Some pc \<Longrightarrow>
   mx_calls (c_mux s) pc = Some \<lparr>pc_id = rid, pc_replyCh = [], pc_errCh = []\<rparr> \<Longrightarrow>
   \<forall>(p, arr)\<in>set quiet. (\<exists>b. p = Ready b) \<and> (\<forall>f\<in>set arr. \<not> answers rid f) \<Longrightarrow>
   \<exists>s'. await_rpc derr what d rid pc (quiet @ its) s = await_rpc derr what d rid pc its s'
     \<and> c_readerActive s' \<and> mux_inv (c_mux s') \<and> mx_rpcs (c_mux s') rid = Some pc
     \<and> mx_calls (c_mux s') pc = Some \<lparr>pc_id = rid, pc_replyCh = [], pc_errCh = []\<rparr>"
proof (induction quiet arbitrary: s)
  case (Cons q quiet)
  obtain b arr where q: "q = (Ready b, arr)" using Cons.prems(5) by (cases q) auto
  let ?s0 = "route_env arr s"
  have na: "\<forall>f\<in>set arr. \<not> answers rid f" using Cons.prems(5) q by auto
  have s0: "c_readerActive ?s0" "mux_inv (c_mux ?s0)" "mx_rpcs (c_mux ?s0) rid = Some pc"
    "mx_calls (c_mux ?s0) pc = Some \<lparr>pc_id = rid, pc_replyCh = [], pc_errCh = []\<rparr>"
    using Cons.prems mux_inv_route_all route_all_other [OF Cons.prems(2,3) na] by (simp_all add: route_env_def)
  then have "take_answer b pc (c_mux ?s0) = None"
    by (simp add: take_answer_def recvReply_def recvErr_def)
  then have "await_rpc derr what d rid pc ((q # quiet) @ its) s = await_rpc derr what d rid pc (quiet @ its) ?s0"
    using s0(1) by (simp add: q Let_def)
  moreover obtain s' where "await_rpc derr what d rid pc (quiet @ its) ?s0 = await_rpc derr what d rid pc its s'"
    "c_readerActive s'" "mux_inv (c_mux s')" "mx_rpcs (c_mux s') rid = Some pc"
    "mx_calls (c_mux s') pc = Some \<lparr>pc_id = rid, pc_replyCh = [], pc_errCh = []\<rparr>"
    using Cons.IH [OF s0] Cons.prems(5) by auto
  ultimately show ?case by auto
qed auto

lemma await_rpc_response:
  assumes s: "c_readerActive s" "mux_inv (c_mux s)" "mx_rpcs (c_mux s) rid = Some pc"
      "mx_calls (c_mux s) pc = Some \<lparr>pc_id = rid, pc_replyCh = [], pc_errCh = []\<rparr>"
    and rid: "rid \<noteq> []" and na: "\<forall>f\<in>set pre. \<not> answers rid f" and f: "own_response rid f"
  shows "\<exists>s'. await_rpc derr what d rid pc ((Ready False, pre @ f # post) # its) s
    = Ret (Inr (Some (frame_result f))) s'"
proof -
  define m1 where "m1 = route_all pre (c_mux s)"
  have m1: "mux_inv m1" "mx_rpcs m1 rid = Some pc"
    "mx_calls m1 pc = Some \<lparr>pc_id = rid, pc_replyCh = [], pc_errCh = []\<rparr>"
    using mux_inv_route_all [OF s(2)] route_all_other [OF s(2,3) na] s unfolding m1_def by simp_all
  define m2 where "m2 = snd (route (Some f) m1)"
  have "mx_calls m2 pc = Some \<lparr>pc_id = rid, pc_replyCh = [frame_result f], pc_errCh = []\<rparr>"
    using m1 rid f by (simp add: m2_def route_def route_lookup_def route_deliver_def try_send_def own_response_def Let_def)
  moreover have "mux_inv m2" "mx_rpcs m2 rid = Some pc"
    using mux_inv_route [OF m1(1)] m1(2) route_rpcs by (simp_all add: m2_def)
  ultimately obtain c where c: "mx_calls (route_all post m2) pc = Some c" "pc_replyCh c = [frame_result f]"
    using route_all_full [of m2 rid pc _ "frame_result f" post] by auto
  have eq: "route_all (pre @ f # post) (c_mux s) = route_all post m2"
    by (simp add: route_all_append m1_def m2_def) (simp add: route_all_def)
  have "\<exists>mx. take_answer False pc (route_all post m2) = Some (Inr (Some (frame_result f)), mx)"
    using c by (auto simp: take_answer_def recvReply_def split: option.split)
  then show ?thesis using s(1) by (auto simp: route_env_def eq Let_def)
qed

text \<open>A registered stream waiter while only error frames arrive.\<close>

lemma route_all_streams_error:
  "\<forall>f\<in>set fs. asString (idx f ''type'') = ''error'' \<Longrightarrow> mx_streams (route_all fs m) = mx_streams m"
proof (induction fs arbitrary: m)
  case (Cons f fs)
  have "mx_streams (snd (route (Some f) m)) = mx_streams m"
    using Cons.prems by (auto simp: route_def route_lookup_def route_deliver_def Let_def split: option.splits waiter.split)
  with Cons show ?case by (simp add: route_all_def)
qed (simp add: route_all_def)

lemma await_stream_errors:
  "c_readerActive s \<Longrightarrow> mx_streams (c_mux s) ps = Some \<lparr>ps_id = rid, ps_streamCh = [], ps_done = False\<rparr> \<Longrightarrow>
   \<forall>fs\<in>set fss. \<forall>f\<in>set fs. asString (idx f ''type'') = ''error'' \<Longrightarrow>
   \<exists>s'. await_stream d rid ps (map (\<lambda>fs. (Ready b, fs)) fss @ [(TimedOut, [])]) s
      = Ret (Inl (timeout_text d sub_what)) s'
     \<and> mx_streams (c_mux s') ps = Some \<lparr>ps_id = rid, ps_streamCh = [], ps_done = False\<rparr>"
proof (induction fss arbitrary: s)
  case Nil
  then show ?case by (simp add: route_env_def route_all_def)
next
  case (Cons fs fss)
  let ?s0 = "route_env fs s"
  have s0: "c_readerActive ?s0" "mx_streams (c_mux ?s0) ps = Some \<lparr>ps_id = rid, ps_streamCh = [], ps_done = False\<rparr>"
    using Cons.prems route_all_streams_error [of fs "c_mux s"] by (simp_all add: route_env_def)
  then have "recvStream ps (c_mux ?s0) = None" by (simp add: recvStream_def)
  with Cons.IH [OF s0] Cons.prems s0 show ?case by (simp add: Let_def)
qed

section \<open>Properties\<close>



text \<open>C7: A request is answered: with an active reader, a connected client and a live write, a
  request whose response is routed in some round, after rounds that bring it no answer, returns
  exactly that response's result.\<close>

theorem rpc_response_completes:
  assumes "c_readerActive s" "mux_inv (c_mux s)" "c_conn s \<noteq> None" "\<not> c_closed s" "\<not> c_mu s" "e_writes s = []"
    "asString (idx payload ''type'') \<noteq> []" "asString (idx payload ''request_id'') = []" "uuid \<noteq> []"
    "\<forall>(p, arr)\<in>set quiet. (\<exists>b. p = Ready b) \<and> (\<forall>f\<in>set arr. \<not> answers uuid f)"
    "\<forall>f\<in>set pre. \<not> answers uuid f" "own_response uuid resp"
  shows "\<exists>s'. RequestResponse None uuid early d (quiet @ (Ready False, pre @ resp # post) # its) payload rt s
      = Ret (Inr (Some (frame_result resp))) s'"
proof -
  let ?env = "NewRequestEnvelopeWithID uuid (asString (idx payload ''type'')) (Some (request_params payload)) []"
  let ?s1 = "s\<lparr>e_sent := e_sent s @ [MEnvelope ?env]\<rparr>"
  let ?s2 = "route_env early ?s1"
  obtain pc mx where reg: "registerRPC uuid (c_mux ?s2) = (pc, mx)" by fastforce
  have inv: "mux_inv (c_mux ?s2)" "c_readerActive ?s2"
    using assms(1,2) mux_inv_route_all by (simp_all add: route_env_def)
  let ?s3 = "?s2\<lparr>c_mux := mx\<rparr>"
  have s3: "c_readerActive ?s3" "mux_inv (c_mux ?s3)" "mx_rpcs (c_mux ?s3) uuid = Some pc"
    "mx_calls (c_mux ?s3) pc = Some \<lparr>pc_id = uuid, pc_replyCh = [], pc_errCh = []\<rparr>"
    using inv rpcs.register_inv [OF inv(1) reg] rpcs.register_lookup [OF inv(1) reg] reg
    by (auto simp: registerRPC_def Let_def)
  let ?its = "(Ready False, pre @ resp # post) # its"
  obtain s4 where s4: "await_rpc frame_daemon_error rt d uuid pc (quiet @ ?its) ?s3 = await_rpc frame_daemon_error rt d uuid pc ?its s4"
    "c_readerActive s4" "mux_inv (c_mux s4)" "mx_rpcs (c_mux s4) uuid = Some pc"
    "mx_calls (c_mux s4) pc = Some \<lparr>pc_id = uuid, pc_replyCh = [], pc_errCh = []\<rparr>"
    using await_rpc_skip [OF s3 assms(10)] by blast
  obtain s5 where "await_rpc frame_daemon_error rt d uuid pc (quiet @ ?its) ?s3 = Ret (Inr (Some (frame_result resp))) s5"
    using await_rpc_response [OF s4(2-5) assms(9,11,12)] s4(1) by metis
  then show ?thesis
    using assms(7,8) reg by (simp add: RequestResponse_def Let_def SendMessage_ok [OF assms(3-6)] after_rpc_def)
qed

theorem rpc_response_completes_witness:
  "\<exists>s'. RequestResponse None ''a'' [] ''1s''
      ([] @ (Ready False, [] @ [(''type'', GStr ''response''), (''id'', GStr ''a''), (''result'', GMap [(''ok'', GBool True)])] # []) # [])
      [(''type'', GStr ''m'')] ''m''
      (start_env ((NewClient ''u'' None)\<lparr>c_conn := Some 0, c_readerActive := True\<rparr>) [] [])
    = Ret (Inr (Some [(''ok'', GBool True)])) s'"
  using rpc_response_completes [of "start_env ((NewClient ''u'' None)\<lparr>c_conn := Some 0, c_readerActive := True\<rparr>) [] []"
      "[(''type'', GStr ''m'')]" "''a''" "[]" "[]"
      "[(''type'', GStr ''response''), (''id'', GStr ''a''), (''result'', GMap [(''ok'', GBool True)])]" "[]" "''1s''" "[]" "[]" "''m''"]
  by (simp add: start_env_def NewClient_def Client.defs env.defs own_response_def frame_result_def)

text \<open>C37: A refused subscription is reported as a timeout: with an active reader, however many error
  frames the daemon sends, with whatever ids, \<^verbatim>\<open>LoopSubscribe\<close> waits until its timeout and returns
  the timeout error, never the daemon's.\<close>

theorem subscribe_refusal_times_out:
  assumes "c_readerActive s" "mux_inv (c_mux s)" "c_conn s \<noteq> None" "\<not> c_closed s" "\<not> c_mu s" "e_writes s = []"
    "\<forall>fs\<in>set fss. \<forall>f\<in>set fs. asString (idx f ''type'') = ''error''"
  shows "\<exists>s'. LoopSubscribe None uuid early d (map (\<lambda>fs. (Ready b, fs)) fss @ [(TimedOut, [])]) loopID verbosity s
      = Ret (Inl (timeout_text d sub_what)) s'"
proof -
  let ?env = "NewSubscribeEnvelope uuid ''loop_events''
      (Some (put_if (verbosity \<noteq> []) ''verbosity'' (GStr verbosity) [(''loop_id'', GStr loopID)]))"
  let ?s2 = "route_env early (s\<lparr>e_sent := e_sent s @ [MEnvelope ?env]\<rparr>)"
  have id: "env_ID ?env = uuid" by (simp add: NewSubscribeEnvelope_def)
  obtain ps mx where reg: "registerSubscription uuid (c_mux ?s2) = (ps, mx)" by fastforce
  let ?s3 = "?s2\<lparr>c_mux := mx\<rparr>"
  have "c_readerActive ?s3" "mx_streams (c_mux ?s3) ps = Some \<lparr>ps_id = uuid, ps_streamCh = [], ps_done = False\<rparr>"
    using assms(1) reg by (auto simp: registerSubscription_def Let_def route_env_def)
  from await_stream_errors [OF this assms(7), of d b] obtain s4 where
    s4: "await_stream d uuid ps (map (\<lambda>fs. (Ready b, fs)) fss @ [(TimedOut, [])]) ?s3 = Ret (Inl (timeout_text d sub_what)) s4"
    "mx_streams (c_mux s4) ps = Some \<lparr>ps_id = uuid, ps_streamCh = [], ps_done = False\<rparr>" by blast
  then obtain mx' where "unregisterSubscription ps uuid (c_mux s4) = Some mx'"
    using unregisterSubscription_Some [of ps uuid "c_mux s4"] by auto
  with s4 reg show ?thesis
    by (simp add: LoopSubscribe_def Let_def SendMessage_ok [OF assms(3-6)] id after_sub_def)
qed

theorem subscribe_refusal_times_out_witness:
  "\<exists>s'. LoopSubscribe None ''a'' [] ''10s'' (map (\<lambda>fs. (Ready False, fs)) [[[(''type'', GStr ''error''), (''id'', GStr ''a'')]]]
        @ [(TimedOut, [])]) ''l'' ''normal''
      (start_env ((NewClient ''u'' None)\<lparr>c_conn := Some 0, c_readerActive := True\<rparr>) [] [])
    = Ret (Inl (timeout_text ''10s'' sub_what)) s'"
  by (rule subscribe_refusal_times_out) (simp_all add: start_env_def NewClient_def Client.defs env.defs)

end
