(* ===== verification/Session.thy ===== *)
theory Session
  imports Rpc
begin

text \<open>
  Connecting and sessions (client.go, request.go and session.go): the protocol-1 handshake,
  \<^verbatim>\<open>Connect\<close>, \<^verbatim>\<open>Reconnect\<close>, bounded connection retries, waiting for readiness, reattaching with a
  liveness probe and bootstrapping a loop session. Dialling, the clock and the contexts are inputs.
\<close>

section \<open>Handshake\<close>

definition isRetryableWarnCode :: "int \<Rightarrow> bool" where
  "isRetryableWarnCode code \<longleftrightarrow> code \<in> {- 32001, - 32002, - 32003}"

definition ack_caps :: "gmap \<Rightarrow> string list" where
  "ack_caps result =
     (case as_list (midx result ''capabilities'') of
        None \<Rightarrow> []
      | Some raw \<Rightarrow> fold (\<lambda>cap caps. case as_str cap of Some x \<Rightarrow> List.insert x caps | None \<Rightarrow> caps) raw [])"

text \<open>What a \<^verbatim>\<open>connection_ack\<close> records before its state is looked at.\<close>

definition record_ack :: "gmap \<Rightarrow> env \<Rightarrow> env" where
  "record_ack result s =
     (let pv = asString (midx result ''protocol_version'');
          s1 = s\<lparr>c_protocolVersion := (if pv = [] then ProtoVersion else pv),
                 c_negotiatedCapabilities := ack_caps result\<rparr>
      in case as_float (midx result ''heartbeat_interval_ms'') of
           Some hb \<Rightarrow> s1\<lparr>c_heartbeatIntervalMs := int_of_float hb\<rparr>
         | None \<Rightarrow> s1)"

text \<open>One iteration's clock and context: whether the deadline has not passed, the context's state
  at the pause before a retry, and at the send after it.\<close>

record hs_round =
  hr_before :: bool
  hr_pause :: "goerr option"
  hr_send :: "goerr option"

definition send_init :: "goerr option \<Rightarrow> env \<Rightarrow> (env, goerr option) run" where
  "send_init cx s = SendMessage cx (MEnvelope NewConnectionInitEnvelope) s"

text \<open>The branches of one iteration on the frame it read: continue with the next, pause and send
  \<^verbatim>\<open>connection_init\<close> again (with the label of its error), or return.\<close>

datatype hs_action = HsContinue | HsRetry string | HsReturn "goerr option"

definition hs_frame :: "gobj \<Rightarrow> env \<Rightarrow> hs_action \<times> env" where
  "hs_frame ev s =
     (let typ = asString (idx ev ''type'')
      in if typ = ''status'' then (HsContinue, s)
         else if typ = ''error'' then
           (if isRetryableWarnCode (frame_error_code ev) then (HsRetry ''connection_init retry after warn'', s)
            else (HsReturn (Some (ErrText (''daemon handshake error ['' @ Itoa (frame_error_code ev) @ '']: ''
                                           @ frame_error_message ev))), s))
         else if typ \<noteq> ''connection_ack'' then (HsContinue, s)
         else
           (let result = as_map (idx ev ''result'');
                state = asString (midx result ''readiness_state'');
                s2 = record_ack result s
            in if state = ''ready'' then
                 (HsReturn None, s2\<lparr>c_handshakeComplete := True, c_readinessState := state\<rparr>)
               else if state = ''incompatible'' then
                 (HsReturn (Some (ErrText (''protocol version incompatible: daemon returned '' @ c_protocolVersion s2))), s2)
               else if state = ''error'' then (HsReturn (Some (ErrText ''daemon startup failed'')), s2)
               else if state = ''degraded'' then (HsReturn (Some (ErrText ''daemon is degraded'')), s2)
               else if state = ''starting'' \<or> state = ''warming'' then (HsRetry ''connection_init retry'', s2)
               else (HsReturn (Some (ErrText (''daemon state is '' @ state))), s2)))"

fun hs_loop :: "string \<Rightarrow> hs_round list \<Rightarrow> env \<Rightarrow> (env, goerr option) run" where
  "hs_loop d [] s = Hang s"
| "hs_loop d (it # its) s =
     (if \<not> hr_before it then Ret (Some (ErrText (''timeout after '' @ d @ '' waiting for connection_ack''))) s
      else
        andThen (ReadEvent s)
          (\<lambda>r s1. case r of
             Inl e \<Rightarrow> Ret (Some (ErrWrap ''handshake read'' e)) s1
           | Inr None \<Rightarrow> Ret (Some (ErrText ''connection closed during handshake'')) s1
           | Inr (Some ev) \<Rightarrow>
               (case hs_frame ev s1 of
                  (HsContinue, s2) \<Rightarrow> hs_loop d its s2
                | (HsReturn res, s2) \<Rightarrow> Ret res s2
                | (HsRetry label, s2) \<Rightarrow>
                    (case hr_pause it of
                       Some e \<Rightarrow> Ret (Some e) s2
                     | None \<Rightarrow>
                         andThen (send_init (hr_send it) s2)
                           (\<lambda>err s3. case err of
                              Some e \<Rightarrow> Ret (Some (ErrWrap label e)) s3
                            | None \<Rightarrow> hs_loop d its s3)))))"

definition handshake :: "goerr option \<Rightarrow> string \<Rightarrow> hs_round list \<Rightarrow> env \<Rightarrow> (env, goerr option) run" where
  "handshake cx d its s =
     andThen (send_init cx s)
       (\<lambda>err s1. case err of
          Some e \<Rightarrow> Ret (Some (ErrWrap ''connection_init'' e)) s1
        | None \<Rightarrow> hs_loop d its s1)"

section \<open>Connecting\<close>

text \<open>The outcome of dialling is a connection or an error; the results of its reads are those of
  the environment.\<close>

record connect_in =
  ci_dial :: "goerr + nat"
  ci_cx :: "goerr option"
  ci_d :: string
  ci_rounds :: "hs_round list"

definition fresh_conn :: "nat \<Rightarrow> env \<Rightarrow> env" where
  "fresh_conn conn s =
     s\<lparr>c_conn := Some conn, c_closed := False, c_disconnCh := open_dchan, c_disconnOnce := OnceFresh,
       c_disconnCause := DisconnectUnclean, c_disconnected := False, c_mux := newMux,
       c_pendingEvents := [], c_handshakeComplete := False\<rparr>"

definition Connect :: "connect_in \<Rightarrow> env \<Rightarrow> (env, goerr option) run" where
  "Connect ci s =
     (case ci_dial ci of
        Inl e \<Rightarrow> Ret (Some (ErrWrap ''soothe dial'' e)) s
      | Inr conn \<Rightarrow>
          if c_mu s then Hang s
          else
            andThen (handshake (ci_cx ci) (ci_d ci) (ci_rounds ci) (fresh_conn conn s))
              (\<lambda>err s1. case err of
                 None \<Rightarrow> Ret None s1
               | Some e \<Rightarrow>
                   if c_mu s1 then Hang s1
                   else Ret (Some e) (s1\<lparr>c_closed := True, c_conn := None,
                                         e_closedConns := conn # e_closedConns s1\<rparr>)))"

definition Reconnect :: "connect_in \<Rightarrow> env \<Rightarrow> (env, goerr option) run" where
  "Reconnect ci s =
     (if c_mu s then Hang s
      else
        (let s1 = (case c_conn s of Some conn \<Rightarrow> s\<lparr>e_closedConns := conn # e_closedConns s\<rparr> | None \<Rightarrow> s)
         in Connect ci s1))"

text \<open>Bounded retries; each attempt brings its dial and handshake, and the state of the caller's
  context after it. The loop returns with the number of attempts made.\<close>

fun retry_loop :: "nat \<Rightarrow> nat \<Rightarrow> goerr option \<Rightarrow> (connect_in \<times> goerr option) list \<Rightarrow> env \<Rightarrow> (env, nat \<times> goerr option) run" where
  "retry_loop maxr 0 lastErr ins s =
     Ret (0, Some (ErrWrap (''failed to connect after '' @ Itoa (int maxr) @ '' attempts'')
            (case lastErr of Some e \<Rightarrow> e | None \<Rightarrow> ErrText ''%!w(<nil>)''))) s"
| "retry_loop maxr (Suc n) lastErr [] s = Hang s"
| "retry_loop maxr (Suc n) lastErr ((ci, cxAfter) # ins) s =
     andThen (Connect ci s)
       (\<lambda>err s1. case err of
          None \<Rightarrow> Ret (1, None) s1
        | Some e \<Rightarrow>
            (case cxAfter of
               Some ce \<Rightarrow> Ret (1, Some ce) s1
             | None \<Rightarrow> andThen (retry_loop maxr n (Some e) ins s1) (\<lambda>(k, r) s2. Ret (Suc k, r) s2)))"

definition ConnectWithRetries ::
  "int \<Rightarrow> (connect_in \<times> goerr option) list \<Rightarrow> env \<Rightarrow> (env, nat \<times> goerr option) run" where
  "ConnectWithRetries maxRetries ins s =
     (let n = (if maxRetries \<le> 0 then 40 else nat maxRetries) in retry_loop n n None ins s)"

text \<open>Waiting for readiness: immediate after a completed handshake.\<close>

fun ready_loop :: "string \<Rightarrow> bool list \<Rightarrow> env \<Rightarrow> (env, goerr + gmap) run" where
  "ready_loop d [] s = Hang s"
| "ready_loop d (expired # its) s =
     (if expired then Ret (Inl (ErrText (''timeout after '' @ d @ '' waiting for connection_ack''))) s
      else
        andThen (ReadEvent s)
          (\<lambda>r s1. case r of
             Inl e \<Rightarrow> Ret (Inl e) s1
           | Inr None \<Rightarrow> Ret (Inl (ErrText ''connection closed waiting for connection_ack'')) s1
           | Inr (Some ev) \<Rightarrow>
               if asString (idx ev ''type'') \<noteq> ''connection_ack'' then ready_loop d its s1
               else
                 (let state = asString (midx (as_map (idx ev ''result'')) ''readiness_state'')
                  in if state = ''ready'' then Ret (Inr (Some ev)) s1
                     else Ret (Inl (ErrText (''daemon not ready: state='' @ state))) s1)))"

definition WaitForDaemonReady :: "string \<Rightarrow> bool list \<Rightarrow> env \<Rightarrow> (env, goerr + gmap) run" where
  "WaitForDaemonReady d its s =
     (if c_mu s then Hang s
      else if c_handshakeComplete s then
        Ret (Inr (Some [(''readiness_state'', GStr (c_readinessState s))])) s
      else ready_loop d its s)"

section \<open>Sessions\<close>

text \<open>The inputs of one call of \<^verbatim>\<open>RequestResponse\<close> or \<^verbatim>\<open>LoopSubscribe\<close>.\<close>

record call_in =
  in_cx :: "goerr option"
  in_uuid :: string
  in_early :: "gobj list"
  in_d :: string
  in_rounds :: "round list"

definition rpc_call :: "call_in \<Rightarrow> gobj \<Rightarrow> string \<Rightarrow> env \<Rightarrow> (env, goerr + gmap) run" where
  "rpc_call c payload responseType s =
     RequestResponse (in_cx c) (in_uuid c) (in_early c) (in_d c) (in_rounds c) payload responseType s"

definition sub_call :: "call_in \<Rightarrow> string \<Rightarrow> string \<Rightarrow> env \<Rightarrow> (env, goerr + gmap) run" where
  "sub_call c loopID verbosity s =
     LoopSubscribe (in_cx c) (in_uuid c) (in_early c) (in_d c) (in_rounds c) loopID verbosity s"

definition loop_get_payload :: "string \<Rightarrow> bool \<Rightarrow> gobj" where
  "loop_get_payload loopID verbose =
     put_if verbose ''verbose'' (GBool True) [(''type'', GStr ''loop_get''), (''loop_id'', GStr loopID)]"

definition ReattachAndProbe :: "call_in \<Rightarrow> call_in \<Rightarrow> call_in \<Rightarrow> string \<Rightarrow> env \<Rightarrow> (env, goerr option) run" where
  "ReattachAndProbe c1 c2 c3 loopID s =
     (if loopID = [] then Ret (Some (ErrText ''soothe: ReattachAndProbe requires a loop id'')) s
      else
        andThen (rpc_call c1 [(''type'', GStr ''loop_reattach''), (''loop_id'', GStr loopID)] ''loop_reattach'' s)
          (\<lambda>r1 s1. case r1 of
             Inl e \<Rightarrow> Ret (Some (ErrWrap ''loop_reattach'' e)) s1
           | Inr _ \<Rightarrow>
               andThen (sub_call c2 loopID (cfg_VerbosityLevel (c_config s1)) s1)
                 (\<lambda>r2 s2. case r2 of
                    Inl e \<Rightarrow> Ret (Some (ErrWrap ''loop_subscribe'' e)) s2
                  | Inr _ \<Rightarrow>
                      andThen (rpc_call c3 (loop_get_payload loopID False) ''loop_get_response'' s2)
                        (\<lambda>r3 s3. case r3 of
                           Inl e \<Rightarrow>
                             (case errors_as is_daemon_error e of
                                Some (DaemonError code _ _) \<Rightarrow>
                                  if code = - 32200 then Ret (Some (NewStaleLoopError loopID e)) s3
                                  else Ret (Some (NewStaleLoopError loopID e)) s3
                              | _ \<Rightarrow> Ret (Some (NewStaleLoopError loopID e)) s3)
                         | Inr _ \<Rightarrow> Ret None s3))))"

record LoopSessionOptions =
  lso_ClientWorkspace :: string
  lso_UserID :: string
  lso_ClientWorkspaceID :: string

definition loop_new_payload :: "string \<Rightarrow> LoopSessionOptions option \<Rightarrow> gobj" where
  "loop_new_payload clientWorkspace opts =
     (let cw0 = TrimSpace clientWorkspace;
          cw = (case opts of
                  Some op \<Rightarrow> if TrimSpace (lso_ClientWorkspace op) \<noteq> [] then TrimSpace (lso_ClientWorkspace op) else cw0
                | None \<Rightarrow> cw0);
          p1 = put_if (cw \<noteq> []) ''client_workspace'' (GStr cw) [(''type'', GStr ''loop_new'')]
      in case opts of
           None \<Rightarrow> p1
         | Some op \<Rightarrow>
             put_if (TrimSpace (lso_ClientWorkspaceID op) \<noteq> []) ''client_workspace_id''
               (GStr (TrimSpace (lso_ClientWorkspaceID op)))
               (put_if (TrimSpace (lso_UserID op) \<noteq> []) ''user_id'' (GStr (TrimSpace (lso_UserID op))) p1))"

text \<open>The loop id to use: the resumed one, or the one the daemon creates.\<close>

definition obtain_loop ::
  "call_in \<Rightarrow> string \<Rightarrow> string \<Rightarrow> LoopSessionOptions option \<Rightarrow> env \<Rightarrow> (env, goerr + string) run" where
  "obtain_loop c resumeLoopID clientWorkspace opts s =
     (let loopID = TrimSpace resumeLoopID
      in if loopID \<noteq> [] then Ret (Inr loopID) s
         else
           andThen (rpc_call c (loop_new_payload clientWorkspace opts) ''loop_new'' s)
             (\<lambda>r s1. case r of
                Inl e \<Rightarrow> Ret (Inl (ErrWrap ''loop_new'' e)) s1
              | Inr resp \<Rightarrow>
                  (let lid = TrimSpace (asString (midx resp ''loop_id''))
                   in if lid = [] then Ret (Inl (ErrText ''loop_new response missing loop_id'')) s1
                      else Ret (Inr lid) s1)))"

definition BootstrapLoopSession ::
  "(gmap \<Rightarrow> string) \<Rightarrow> call_in \<Rightarrow> call_in \<Rightarrow> string \<Rightarrow> string \<Rightarrow> Config option \<Rightarrow> LoopSessionOptions option \<Rightarrow> env
     \<Rightarrow> (env, goerr + string) run" where
  "BootstrapLoopSession fmt c1 c2 resumeLoopID clientWorkspace cfgo opts s =
     (let cfg = (case cfgo of None \<Rightarrow> DefaultConfig | Some c \<Rightarrow> c)
      in andThen (obtain_loop c1 resumeLoopID clientWorkspace opts s)
           (\<lambda>r s1. case r of
              Inl e \<Rightarrow> Ret (Inl e) s1
            | Inr loopID \<Rightarrow>
                andThen (sub_call c2 loopID (cfg_VerbosityLevel cfg) s1)
                  (\<lambda>r2 s2. case r2 of
                     Inl e \<Rightarrow> Ret (Inl (ErrWrap ''loop_subscribe'' e)) s2
                   | Inr subResp \<Rightarrow>
                       (case as_bool (midx subResp ''success'') of
                          Some False \<Rightarrow> Ret (Inl (ErrText (''loop_subscribe failed: '' @ fmt subResp))) s2
                        | _ \<Rightarrow> Ret (Inr loopID) s2))))"

section \<open>Lemmas\<close>

text \<open>Reading and sending leave the connection and the closed flag as they are.\<close>

definition conn_same :: "env \<Rightarrow> env \<Rightarrow> bool" where
  "conn_same s s' \<longleftrightarrow> c_conn s' = c_conn s \<and> c_closed s' = c_closed s"

lemma conn_same_trans: "conn_same s s1 \<Longrightarrow> conn_same s1 s2 \<Longrightarrow> conn_same s s2"
  by (simp add: conn_same_def)

lemma conn_same_refl [simp]: "conn_same s s"
  "conn_same s (s\<lparr>c_mux := mx\<rparr>)" "conn_same s (s\<lparr>c_pendingEvents := pe\<rparr>)" "conn_same s (s\<lparr>e_reads := rs\<rparr>)"
  by (simp_all add: conn_same_def)

lemma read_msgs_conn: "read_msgs ms s = Ret r s' \<Longrightarrow> conn_same s s'"
proof (induction ms arbitrary: s)
  case (Cons m ms)
  then obtain b s1 where s1: "isControlFrame m s = Ret b s1" by (auto simp: andThen_Ret_iff)
  then have c1: "conn_same s s1" using isControlFrame_frame [OF s1] by (simp add: conn_same_def)
  show ?case
  proof (cases b)
    case True
    then show ?thesis using Cons.IH [of s1] Cons.prems s1 c1 conn_same_trans by auto
  next
    case False
    obtain rt mx where rt: "route (msg_map m) (c_mux s1) = (rt, mx)" by fastforce
    show ?thesis
    proof (cases rt)
      case True
      with Cons.prems s1 False rt have "read_msgs ms (s1\<lparr>c_mux := mx\<rparr>) = Ret r s'" by (simp add: Let_def)
      then have "conn_same (s1\<lparr>c_mux := mx\<rparr>) s'" by (rule Cons.IH)
      then show ?thesis using c1 by (simp add: conn_same_def)
    next
      case rf: False
      with Cons.prems s1 False rt obtain s2 where "trackInboundDeliveryAck (msg_map m) s1 = Ret () s2" "s' = s2"
        by (auto simp: andThen_Ret_iff Let_def)
      then show ?thesis using track_frame [of "msg_map m" s1 "()" s2] c1 by (simp add: conn_same_def)
    qed
  qed
qed simp

lemma ReadEvent_conn:
  assumes "ReadEvent s = Ret r s'"
  shows "conn_same s s'"
proof (cases "c_pendingEvents s")
  case (Cons ev rest)
  then obtain s1 where "trackInboundDeliveryAck (Some ev) (s\<lparr>c_pendingEvents := rest\<rparr>) = Ret () s1" "s' = s1"
    using assms by (auto simp: ReadEvent_def andThen_Ret_iff split: if_splits)
  then show ?thesis using track_frame [of "Some ev" "s\<lparr>c_pendingEvents := rest\<rparr>" "()" s1] by (simp add: conn_same_def)
next
  case Nil
  show ?thesis
  proof (cases "\<exists>data rs. e_reads s = RData data # rs \<and> c_conn s \<noteq> None")
    case True
    then obtain data rs where e: "e_reads s = RData data # rs" "c_conn s \<noteq> None" by blast
    with assms Nil obtain x where "read_msgs (payload_msgs data) (s\<lparr>e_reads := rs\<rparr>) = Ret x s'"
      by (auto simp: ReadEvent_def andThen_Ret_iff Let_def split: if_splits)
    from read_msgs_conn [OF this] show ?thesis by (simp add: conn_same_def)
  next
    case False
    with assms Nil show ?thesis
      by (auto simp: ReadEvent_def Let_def conn_same_def split: if_splits list.splits read.splits)
  qed
qed

lemma SendMessage_conn: "SendMessage cx m s = Ret e s' \<Longrightarrow> conn_same s s'"
  by (auto simp: SendMessage_def write_msg_def andThen_Ret_iff conn_same_def dest!: signalDisconnect_frame
      split: if_splits option.splits list.splits bool.splits)

lemma record_ack_conn [simp]: "conn_same s (record_ack r s)"
  by (simp add: record_ack_def conn_same_def Let_def split: option.split)

definition hs_done :: "env \<Rightarrow> bool" where
  "hs_done s \<longleftrightarrow> c_handshakeComplete s \<and> c_readinessState s = ''ready''"

lemma hs_frame_result:
  assumes "hs_frame ev s = (a, s')"
  shows "conn_same s s' \<and> (a = HsReturn None \<longrightarrow> hs_done s')"
proof -
  have "conn_same s (record_ack r s)" for r by simp
  then show ?thesis
    using assms by (auto simp: hs_frame_def Let_def hs_done_def conn_same_def split: if_splits)
qed

lemma hs_loop_result:
  "hs_loop d its s = Ret r s' \<Longrightarrow> conn_same s s' \<and> (r = None \<longrightarrow> hs_done s')"
proof (induction its arbitrary: s r)
  case (Cons it its)
  show ?case
  proof (cases "hr_before it")
    case False
    then show ?thesis using Cons.prems by auto
  next
    case True
    then obtain x s1 where x: "ReadEvent s = Ret x s1" using Cons.prems by (auto simp: andThen_Ret_iff)
    note c1 = ReadEvent_conn [OF x]
    show ?thesis
    proof (cases "\<exists>ev. x = Inr (Some ev)")
      case False
      then show ?thesis using Cons.prems True x c1 by (cases x) (auto split: option.splits)
    next
      case ev: True
      then obtain ev a s2 where ev: "x = Inr (Some ev)" and a: "hs_frame ev s1 = (a, s2)" by fastforce
      have c2: "conn_same s s2" using hs_frame_result [OF a] c1 conn_same_trans by blast
      have IH: "hs_loop d its t = Ret q s' \<Longrightarrow> conn_same s2 t \<Longrightarrow> conn_same s s' \<and> (q = None \<longrightarrow> hs_done s')" for t q
        using Cons.IH c2 conn_same_trans by blast
      show ?thesis
      proof (cases a)
        case HsContinue
        then show ?thesis using IH [of s2 r] Cons.prems True x ev a by simp
      next
        case (HsReturn res)
        then show ?thesis using hs_frame_result [OF a] Cons.prems True x ev a c2 by auto
      next
        case (HsRetry label)
        show ?thesis
        proof (cases "hr_pause it")
          case None
          with HsRetry Cons.prems True x ev a obtain err s3 where s3: "send_init (hr_send it) s2 = Ret err s3"
            "(case err of Some e \<Rightarrow> Ret (Some (ErrWrap label e)) s3 | None \<Rightarrow> hs_loop d its s3) = Ret r s'"
            by (auto simp: andThen_Ret_iff)
          have c3: "conn_same s2 s3" using SendMessage_conn s3(1) by (simp add: send_init_def)
          show ?thesis
            using s3(2) IH [of s3 r] c3 conn_same_trans [OF c2 c3] by (cases err) auto
        qed (use HsRetry Cons.prems True x ev a c2 in auto)
      qed
    qed
  qed
qed simp

lemma handshake_result:
  assumes "handshake cx d its s = Ret r s'"
  shows "conn_same s s' \<and> (r = None \<longrightarrow> hs_done s')"
proof -
  obtain err s1 where s1: "send_init cx s = Ret err s1"
    "(case err of Some e \<Rightarrow> Ret (Some (ErrWrap ''connection_init'' e)) s1 | None \<Rightarrow> hs_loop d its s1) = Ret r s'"
    using assms by (auto simp: handshake_def andThen_Ret_iff)
  have c: "conn_same s s1" using SendMessage_conn s1(1) by (simp add: send_init_def)
  show ?thesis using s1(2) c hs_loop_result [of d its s1 r s'] conn_same_trans [OF c] by (cases err) auto
qed

text \<open>The result of \<^verbatim>\<open>Connect\<close>: ready and connected, or torn down.\<close>

lemma Connect_result:
  assumes "Connect ci s = Ret r s'"
  shows "(r = None \<longrightarrow> hs_done s' \<and> (\<exists>conn. ci_dial ci = Inr conn \<and> c_conn s' = Some conn) \<and> \<not> c_closed s')
    \<and> (\<forall>conn. r \<noteq> None \<and> ci_dial ci = Inr conn \<longrightarrow>
         c_conn s' = None \<and> c_closed s' \<and> conn \<in> set (e_closedConns s'))"
proof (cases "ci_dial ci")
  case (Inl e)
  then show ?thesis using assms by (auto simp: Connect_def)
next
  case (Inr conn)
  with assms obtain err s1 where h: "handshake (ci_cx ci) (ci_d ci) (ci_rounds ci) (fresh_conn conn s) = Ret err s1"
    by (auto simp: Connect_def andThen_Ret_iff split: if_splits)
  note hr = handshake_result [OF h]
  show ?thesis
  proof (cases err)
    case None
    with assms Inr h have "r = None" "s' = s1" by (auto simp: Connect_def split: if_splits)
    then show ?thesis using hr None Inr by (auto simp: conn_same_def fresh_conn_def)
  next
    case (Some e)
    with assms Inr h show ?thesis by (auto simp: Connect_def split: if_splits)
  qed
qed

lemma retry_loop_result:
  "retry_loop maxr n le ins s = Ret (k, r) s' \<Longrightarrow>
   k \<le> n \<and> (r = None \<longrightarrow> hs_done s' \<and> c_conn s' \<noteq> None \<and> \<not> c_closed s')"
proof (induction maxr n le ins s arbitrary: k rule: retry_loop.induct)
  case (3 maxr n le ci cxAfter ins s)
  from "3.prems" obtain err s1 where c: "Connect ci s = Ret err s1" by (auto simp: andThen_Ret_iff)
  show ?case
  proof (cases err)
    case None
    then show ?thesis using "3.prems" c Connect_result [OF c] by auto
  next
    case (Some e)
    show ?thesis
    proof (cases cxAfter)
      case None
      with Some "3.prems" c obtain k' where k': "retry_loop maxr n (Some e) ins s1 = Ret (k', r) s'" "k = Suc k'"
        by (auto simp: andThen_Ret_iff)
      from "3.IH" [OF Some None k'(1)] k'(2) show ?thesis by simp
    qed (use Some "3.prems" c in auto)
  qed
qed auto

section \<open>Properties\<close>



text \<open>Retrying is bounded: \<^verbatim>\<open>ConnectWithRetries\<close> makes at most \<^verbatim>\<open>maxRetries\<close> attempts (forty when the
  argument is not positive), and when it reports success the client is connected and ready.\<close>

theorem connect_retries_bounded:
  assumes "ConnectWithRetries maxRetries ins s = Ret (k, r) s'"
  shows "int k \<le> (if maxRetries \<le> 0 then 40 else maxRetries)
    \<and> (r = None \<longrightarrow> c_readinessState s' = ''ready'' \<and> c_conn s' \<noteq> None \<and> \<not> c_closed s')"
  using retry_loop_result [OF assms [unfolded ConnectWithRetries_def Let_def]]
  by (auto simp: hs_done_def split: if_splits)

theorem connect_retries_bounded_witness:
  "\<exists>k r s'. ConnectWithRetries 2 (replicate 2 (\<lparr>ci_dial = Inl (ErrNet ''refused'' False), ci_cx = None,
        ci_d = [], ci_rounds = []\<rparr>, None)) (start_env (NewClient ''u'' None) [] []) = Ret (k, r) s' \<and> int k \<le> 2"
proof -
  have "\<exists>k r s'. ConnectWithRetries 2 (replicate 2 (\<lparr>ci_dial = Inl (ErrNet ''refused'' False), ci_cx = None,
        ci_d = [], ci_rounds = []\<rparr>, None)) (start_env (NewClient ''u'' None) [] []) = Ret (k, r) s'"
    by (simp add: ConnectWithRetries_def Connect_def numeral_2_eq_2 nat_numeral Let_def)
  then obtain k r s' where e: "ConnectWithRetries 2 (replicate 2 (\<lparr>ci_dial = Inl (ErrNet ''refused'' False),
        ci_cx = None, ci_d = [], ci_rounds = []\<rparr>, None)) (start_env (NewClient ''u'' None) [] []) = Ret (k, r) s'"
    by blast
  from connect_retries_bounded [OF e] e show ?thesis by auto
qed

text \<open>The liveness probe decides: once the reattach and the subscription have succeeded,
  \<^verbatim>\<open>ReattachAndProbe\<close> returns no error exactly when the probe succeeds, and otherwise a stale-loop
  error for this loop that wraps the probe's error.\<close>

theorem reattach_probe_decides:
  assumes "loopID \<noteq> []"
    "rpc_call c1 [(''type'', GStr ''loop_reattach''), (''loop_id'', GStr loopID)] ''loop_reattach'' s = Ret (Inr x) s1"
    "sub_call c2 loopID (cfg_VerbosityLevel (c_config s1)) s1 = Ret (Inr y) s2"
    "rpc_call c3 (loop_get_payload loopID False) ''loop_get_response'' s2 = Ret r3 s3"
  shows "ReattachAndProbe c1 c2 c3 loopID s =
    Ret (case r3 of Inl e \<Rightarrow> Some (StaleLoopError loopID (Some e)) | Inr _ \<Rightarrow> None) s3"
  using assms
  by (auto simp: ReattachAndProbe_def NewStaleLoopError_def split: sum.split option.split goerr.split)

theorem reattach_probe_decides_witness:
  "\<exists>s'. ReattachAndProbe
      \<lparr>in_cx = None, in_uuid = ''a'', in_early = [], in_d = ''15s'',
       in_rounds = [(Ready False, [[(''type'', GStr ''response''), (''id'', GStr ''a'')]])]\<rparr>
      \<lparr>in_cx = None, in_uuid = ''b'', in_early = [], in_d = ''10s'',
       in_rounds = [(Ready False, [[(''type'', GStr ''next''), (''id'', GStr ''b'')]])]\<rparr>
      \<lparr>in_cx = None, in_uuid = ''c'', in_early = [], in_d = ''5s'', in_rounds = [(TimedOut, [])]\<rparr> ''l''
      (start_env ((NewClient ''u'' None)\<lparr>c_conn := Some 0, c_readerActive := True\<rparr>) [] [])
    = Ret (Some (StaleLoopError ''l'' (Some (timeout_text ''5s'' ''loop_get_response'')))) s'"
proof -
  let ?s = "start_env ((NewClient ''u'' None)\<lparr>c_conn := Some 0, c_readerActive := True\<rparr>) [] []"
  let ?c1 = "\<lparr>in_cx = None, in_uuid = ''a'', in_early = [], in_d = ''15s'',
       in_rounds = [(Ready False, [[(''type'', GStr ''response''), (''id'', GStr ''a'')]])]\<rparr>"
  let ?c2 = "\<lparr>in_cx = None, in_uuid = ''b'', in_early = [], in_d = ''10s'',
       in_rounds = [(Ready False, [[(''type'', GStr ''next''), (''id'', GStr ''b'')]])]\<rparr>"
  let ?c3 = "\<lparr>in_cx = None, in_uuid = ''c'', in_early = [], in_d = ''5s'', in_rounds = [(TimedOut, [])]\<rparr>"
  have "\<exists>x s1. rpc_call ?c1 [(''type'', GStr ''loop_reattach''), (''loop_id'', GStr ''l'')] ''loop_reattach'' ?s = Ret (Inr x) s1
      \<and> c_conn s1 = Some 0 \<and> \<not> c_closed s1 \<and> \<not> c_mu s1 \<and> e_writes s1 = [] \<and> c_readerActive s1"
    by (simp add: rpc_call_def RequestResponse_def SendMessage_def write_msg_def start_env_def NewClient_def
        Client.defs env.defs NewRequestEnvelopeWithID_def route_env_def route_all_def registerRPC_def newMux_def
        route_def route_lookup_def route_deliver_def try_send_def take_answer_def recvReply_def recvErr_def
        after_rpc_def Let_def)
  then obtain x s1 where s1: "rpc_call ?c1 [(''type'', GStr ''loop_reattach''), (''loop_id'', GStr ''l'')] ''loop_reattach'' ?s = Ret (Inr x) s1"
    "c_conn s1 = Some 0" "\<not> c_closed s1" "\<not> c_mu s1" "e_writes s1 = []" "c_readerActive s1" by blast
  have "\<exists>y s2. sub_call ?c2 ''l'' (cfg_VerbosityLevel (c_config s1)) s1 = Ret (Inr y) s2
      \<and> c_conn s2 = Some 0 \<and> \<not> c_closed s2 \<and> \<not> c_mu s2 \<and> e_writes s2 = [] \<and> c_readerActive s2"
    using s1(2-6)
    by (simp add: sub_call_def LoopSubscribe_def SendMessage_ok NewSubscribeEnvelope_def zero_envelope_def route_env_def
        route_all_def registerSubscription_def route_def route_lookup_def route_deliver_def try_send_def
        recvStream_def stream_answer_def after_sub_def unregisterSubscription_def Let_def)
  then obtain y s2 where s2: "sub_call ?c2 ''l'' (cfg_VerbosityLevel (c_config s1)) s1 = Ret (Inr y) s2"
    "c_conn s2 = Some 0" "\<not> c_closed s2" "\<not> c_mu s2" "e_writes s2 = []" "c_readerActive s2" by blast
  have "\<exists>s3. rpc_call ?c3 (loop_get_payload ''l'' False) ''loop_get_response'' s2
      = Ret (Inl (timeout_text ''5s'' ''loop_get_response'')) s3"
    using s2(2-6)
    by (simp add: rpc_call_def RequestResponse_def SendMessage_ok loop_get_payload_def put_if_def after_rpc_def
        registerRPC_def Let_def)
  then obtain s3 where s3: "rpc_call ?c3 (loop_get_payload ''l'' False) ''loop_get_response'' s2
      = Ret (Inl (timeout_text ''5s'' ''loop_get_response'')) s3" by blast
  from reattach_probe_decides [OF _ s1(1) s2(1) s3] show ?thesis by simp
qed

text \<open>A bootstrapped session has a usable loop id: when \<^verbatim>\<open>BootstrapLoopSession\<close> succeeds, the id it
  returns is not blank and carries no surrounding white space, and it is the resumed id when one
  was given.\<close>

theorem bootstrap_loop_id:
  assumes "BootstrapLoopSession fmt c1 c2 resume ws cfg opts s = Ret (Inr loopID) s'"
  shows "loopID \<noteq> [] \<and> TrimSpace loopID = loopID \<and> (TrimSpace resume \<noteq> [] \<longrightarrow> loopID = TrimSpace resume)"
proof -
  obtain r s1 where o: "obtain_loop c1 resume ws opts s = Ret r s1"
    using assms unfolding BootstrapLoopSession_def Let_def andThen_Ret_iff by blast
  obtain lid where r: "r = Inr lid" using assms o by (cases r) (auto simp: BootstrapLoopSession_def)
  obtain r2 s2 where sb: "sub_call c2 lid (cfg_VerbosityLevel (case cfg of None \<Rightarrow> DefaultConfig | Some c \<Rightarrow> c)) s1 = Ret r2 s2"
    using assms o r by (auto simp: BootstrapLoopSession_def andThen_Ret_iff)
  obtain y where "r2 = Inr y" using assms o r sb by (cases r2) (auto simp: BootstrapLoopSession_def)
  then have "lid = loopID"
    using assms o r sb by (auto simp: BootstrapLoopSession_def split: option.splits bool.splits)
  with o r have ob: "obtain_loop c1 resume ws opts s = Ret (Inr loopID) s1" by simp
  show ?thesis
  proof (cases "TrimSpace resume = []")
    case False
    then show ?thesis using ob by (auto simp: obtain_loop_def Let_def)
  next
    case True
    then obtain r' s'' where "rpc_call c1 (loop_new_payload ws opts) ''loop_new'' s = Ret r' s''"
      "(case r' of Inl e \<Rightarrow> Ret (Inl (ErrWrap ''loop_new'' e)) s''
        | Inr resp \<Rightarrow> (let lid = TrimSpace (asString (midx resp ''loop_id'')) in
            if lid = [] then Ret (Inl (ErrText ''loop_new response missing loop_id'')) s'' else Ret (Inr lid) s''))
       = Ret (Inr loopID) s1"
      using ob by (auto simp: obtain_loop_def Let_def andThen_Ret_iff)
    then show ?thesis using True by (cases r') (auto simp: Let_def split: if_splits)
  qed
qed

theorem bootstrap_loop_id_witness:
  "\<exists>s'. BootstrapLoopSession (\<lambda>_. []) \<lparr>in_cx = None, in_uuid = ''a'', in_early = [], in_d = [], in_rounds = []\<rparr>
      \<lparr>in_cx = None, in_uuid = ''b'', in_early = [], in_d = ''10s'',
       in_rounds = [(Ready False, [[(''type'', GStr ''next''), (''id'', GStr ''b'')]])]\<rparr> ''l'' [] None None
      (start_env ((NewClient ''u'' None)\<lparr>c_conn := Some 0, c_readerActive := True\<rparr>) [] [])
    = Ret (Inr ''l'') s' \<and> TrimSpace ''l'' = ''l''"
proof -
  let ?s = "start_env ((NewClient ''u'' None)\<lparr>c_conn := Some 0, c_readerActive := True\<rparr>) [] []"
  let ?c1 = "\<lparr>in_cx = None, in_uuid = ''a'', in_early = [], in_d = [], in_rounds = []\<rparr>"
  let ?c2 = "\<lparr>in_cx = None, in_uuid = ''b'', in_early = [], in_d = ''10s'',
       in_rounds = [(Ready False, [[(''type'', GStr ''next''), (''id'', GStr ''b'')]])]\<rparr>"
  have t: "TrimSpace ''l'' = ''l''" by (simp add: TrimSpace_plain_ends plain_byteI)
  have "\<exists>s'. BootstrapLoopSession (\<lambda>_. []) ?c1 ?c2 ''l'' [] None None ?s = Ret (Inr ''l'') s'"
    by (simp add: BootstrapLoopSession_def obtain_loop_def t sub_call_def LoopSubscribe_def SendMessage_def write_msg_def
        start_env_def NewClient_def Client.defs env.defs newMux_def NewSubscribeEnvelope_def zero_envelope_def route_env_def
        route_all_def registerSubscription_def route_def route_lookup_def route_deliver_def try_send_def
        recvStream_def stream_answer_def after_sub_def unregisterSubscription_def Let_def)
  then obtain s' where s': "BootstrapLoopSession (\<lambda>_. []) ?c1 ?c2 ''l'' [] None None ?s = Ret (Inr ''l'') s'" by blast
  from bootstrap_loop_id [OF s'] s' show ?thesis by auto
qed

text \<open>A heartbeat during the handshake aborts it: when the daemon's first payload after
  \<^verbatim>\<open>connection_init\<close> is a \<^verbatim>\<open>ping\<close>, \<^verbatim>\<open>Connect\<close> answers it and then fails as if the connection had been
  closed, whatever the daemon sends next.\<close>

theorem ping_aborts_handshake:
  assumes "\<not> c_mu s" "e_writes s = []" "e_reads s = RData data # rs"
    "payload_msgs data = [MEnvelope env]" "env_Type env = ''ping''"
  shows "\<exists>s'. Connect \<lparr>ci_dial = Inr conn, ci_cx = None, ci_d = d,
        ci_rounds = \<lparr>hr_before = True, hr_pause = p, hr_send = q\<rparr> # its\<rparr> s
      = Ret (Some (ErrText ''connection closed during handshake'')) s' \<and> e_reads s' = rs"
  using assms
  by (simp add: Connect_def fresh_conn_def handshake_def send_init_def SendMessage_def write_msg_def ReadEvent_def
      isControlFrame_def sendPong_def locked_def)

theorem ping_aborts_handshake_witness:
  "\<exists>s'. Connect \<lparr>ci_dial = Inr 0, ci_cx = None, ci_d = ''20s'',
        ci_rounds = [\<lparr>hr_before = True, hr_pause = None, hr_send = None\<rparr>]\<rparr>
        (start_env (NewClient ''u'' None) [RData (type_text ''ping'')] [])
      = Ret (Some (ErrText ''connection closed during handshake'')) s'"
proof -
  let ?s = "start_env (NewClient ''u'' None) [RData (type_text ''ping'')] []"
  have "\<not> c_mu ?s" "e_writes ?s = []" "e_reads ?s = RData (type_text ''ping'') # []"
    by (simp_all add: start_env_def NewClient_def Client.defs env.defs)
  from ping_aborts_handshake [OF this payload_ping, of 0 "''20s''" None None "[]"] show ?thesis by auto
qed

end
