(* ===== verification/Rpc_Api.thy ===== *)
theory Rpc_Api
  imports Session
begin

text \<open>
  The request methods of the client (request.go): each builds a payload, picks a default timeout
  and calls \<^verbatim>\<open>RequestResponse\<close>. Timeouts are nanoseconds, printed the way \<^verbatim>\<open>time.Duration\<close> prints
  them. A nil map passed as a value is the nil interface: both encode as null.
\<close>

section \<open>Durations\<close>

definition sec :: "int \<Rightarrow> int" where "sec n = n * 1000000000"

definition default_timeout :: "int \<Rightarrow> int \<Rightarrow> int" where
  "default_timeout dflt timeout = (if timeout \<le> 0 then sec dflt else timeout)"

text \<open>\<^verbatim>\<open>Duration.String\<close>: hours, minutes and seconds from a second on, the largest fitting unit
  below it, with the zeros at the end of a fraction left out.\<close>

definition zero_pad :: "nat \<Rightarrow> string \<Rightarrow> string" where
  "zero_pad k ds = replicate (k - length ds) CHR ''0'' @ ds"

definition dur_frac :: "nat \<Rightarrow> nat \<Rightarrow> string" where
  "dur_frac k n =
     (let ds = rev (dropWhile (\<lambda>d. d = CHR ''0'') (rev (zero_pad k (nat_dec (n mod 10 ^ k)))))
      in if ds = [] then [] else CHR ''.'' # ds)"

definition dur_abs :: "nat \<Rightarrow> string" where
  "dur_abs u =
     (if u = 0 then ''0s''
      else if u < 1000 then nat_dec u @ ''ns''
      else if u < 1000000 then nat_dec (u div 1000) @ dur_frac 3 u @ [CHR 0xC2, CHR 0xB5] @ ''s''
      else if u < 1000000000 then nat_dec (u div 1000000) @ dur_frac 6 u @ ''ms''
      else
        (let secs = u div 1000000000; mins = secs div 60; hours = mins div 60
         in (if hours > 0 then nat_dec hours @ ''h'' else [])
            @ (if mins > 0 then nat_dec (mins mod 60) @ ''m'' else [])
            @ nat_dec (secs mod 60) @ dur_frac 9 u @ ''s''))"

definition Duration_String :: "int \<Rightarrow> string" where
  "Duration_String d = (if d < 0 then CHR ''-'' # dur_abs (nat (- d)) else dur_abs (nat d))"

text \<open>A call of \<^verbatim>\<open>RequestResponse\<close> with the given timeout: what the clock and the other parties do is
  in the inputs of the call, its error message names the timeout.\<close>

definition timed_rpc :: "int \<Rightarrow> call_in \<Rightarrow> gobj \<Rightarrow> string \<Rightarrow> env \<Rightarrow> (env, goerr + gmap) run" where
  "timed_rpc timeout c payload responseType s =
     rpc_call (c\<lparr>in_d := Duration_String timeout\<rparr>) payload responseType s"

definition iface_map :: "gmap \<Rightarrow> gval" where
  "iface_map m = (case m of None \<Rightarrow> GNil | Some x \<Rightarrow> GMap x)"

section \<open>Requests\<close>

definition ListSkills :: "int \<Rightarrow> call_in \<Rightarrow> env \<Rightarrow> (env, goerr + gmap) run" where
  "ListSkills timeout c s =
     timed_rpc (default_timeout 15 timeout) c
       [(''type'', GStr ''skills_list'')]
       ''skills_list_response'' s"

definition ListModels :: "int \<Rightarrow> call_in \<Rightarrow> env \<Rightarrow> (env, goerr + gmap) run" where
  "ListModels timeout c s =
     timed_rpc (default_timeout 15 timeout) c
       [(''type'', GStr ''models_list'')]
       ''models_list_response'' s"

definition InvokeSkill :: "string \<Rightarrow> string \<Rightarrow> string \<Rightarrow> int \<Rightarrow> call_in \<Rightarrow> env \<Rightarrow> (env, goerr + gmap) run" where
  "InvokeSkill skill args interactionMode timeout c s =
     timed_rpc (default_timeout 120 timeout) c
       (put_if (interactionMode \<noteq> []) ''interaction_mode'' (GStr interactionMode)
          [(''type'', GStr ''invoke_skill''), (''skill'', GStr skill), (''args'', GStr args)])
       ''invoke_skill_response'' s"

definition CommandRequest :: "string \<Rightarrow> string \<Rightarrow> gmap \<Rightarrow> int \<Rightarrow> call_in \<Rightarrow> env \<Rightarrow> (env, goerr + gmap) run" where
  "CommandRequest command loopID params timeout c s =
     timed_rpc (default_timeout 30 timeout) c
       (put_if (params \<noteq> None) ''params'' (iface_map params)
          (put_if (loopID \<noteq> []) ''loop_id'' (GStr loopID)
          [(''type'', GStr ''command_request''), (''command'', GStr command)]))
       ''command_response'' s"

definition LoopList :: "gmap \<Rightarrow> int \<Rightarrow> int \<Rightarrow> call_in \<Rightarrow> env \<Rightarrow> (env, goerr + gmap) run" where
  "LoopList flt limit timeout c s =
     timed_rpc (default_timeout 15 timeout) c
       (put_if (limit > 0) ''limit'' (GInt limit)
          (put_if (flt \<noteq> None) ''filter'' (iface_map flt)
          [(''type'', GStr ''loop_list'')]))
       ''loop_list_response'' s"

definition LoopGet :: "string \<Rightarrow> bool \<Rightarrow> int \<Rightarrow> call_in \<Rightarrow> env \<Rightarrow> (env, goerr + gmap) run" where
  "LoopGet loopID verbose timeout c s =
     timed_rpc (default_timeout 15 timeout) c
       (loop_get_payload loopID verbose)
       ''loop_get_response'' s"

definition LoopTree :: "string \<Rightarrow> string \<Rightarrow> int \<Rightarrow> call_in \<Rightarrow> env \<Rightarrow> (env, goerr + gmap) run" where
  "LoopTree loopID fmt timeout c s =
     timed_rpc (default_timeout 15 timeout) c
       (put_if (fmt \<noteq> []) ''format'' (GStr fmt)
          [(''type'', GStr ''loop_tree''), (''loop_id'', GStr loopID)])
       ''loop_tree_response'' s"

definition LoopPrune :: "string \<Rightarrow> int \<Rightarrow> bool \<Rightarrow> int \<Rightarrow> call_in \<Rightarrow> env \<Rightarrow> (env, goerr + gmap) run" where
  "LoopPrune loopID retentionDays dryRun timeout c s =
     timed_rpc (default_timeout 30 timeout) c
       (put_if (dryRun) ''dry_run'' (GBool True)
          (put_if (retentionDays > 0) ''retention_days'' (GInt retentionDays)
          [(''type'', GStr ''loop_prune''), (''loop_id'', GStr loopID)]))
       ''loop_prune_response'' s"

definition LoopDelete :: "string \<Rightarrow> int \<Rightarrow> call_in \<Rightarrow> env \<Rightarrow> (env, goerr + gmap) run" where
  "LoopDelete loopID timeout c s =
     timed_rpc (default_timeout 10 timeout) c
       [(''type'', GStr ''loop_delete''), (''loop_id'', GStr loopID)]
       ''loop_delete_response'' s"

definition LoopReattach :: "string \<Rightarrow> int \<Rightarrow> call_in \<Rightarrow> env \<Rightarrow> (env, goerr + gmap) run" where
  "LoopReattach loopID timeout c s =
     timed_rpc (default_timeout 15 timeout) c
       [(''type'', GStr ''loop_reattach''), (''loop_id'', GStr loopID)]
       ''loop_reattach_response'' s"

definition LoopNew :: "int \<Rightarrow> call_in \<Rightarrow> env \<Rightarrow> (env, goerr + gmap) run" where
  "LoopNew timeout c s =
     timed_rpc (default_timeout 15 timeout) c
       [(''type'', GStr ''loop_new'')]
       ''loop_new_response'' s"

definition LoopInput :: "string \<Rightarrow> string \<Rightarrow> int \<Rightarrow> call_in \<Rightarrow> env \<Rightarrow> (env, goerr + gmap) run" where
  "LoopInput loopID content timeout c s =
     timed_rpc (default_timeout 60 timeout) c
       [(''type'', GStr ''loop_input''), (''loop_id'', GStr loopID), (''content'', GStr content)]
       ''loop_input_response'' s"

section \<open>Commands\<close>

definition CommandClear :: "string \<Rightarrow> int \<Rightarrow> call_in \<Rightarrow> env \<Rightarrow> (env, goerr + gmap) run" where
  "CommandClear loopID timeout c s = CommandRequest ''clear'' loopID None (default_timeout 10 timeout) c s"

definition CommandExit :: "string \<Rightarrow> int \<Rightarrow> call_in \<Rightarrow> env \<Rightarrow> (env, goerr + gmap) run" where
  "CommandExit loopID timeout c s = CommandRequest ''exit'' loopID None (default_timeout 10 timeout) c s"

definition CommandQuit :: "string \<Rightarrow> int \<Rightarrow> call_in \<Rightarrow> env \<Rightarrow> (env, goerr + gmap) run" where
  "CommandQuit loopID timeout c s = CommandRequest ''quit'' loopID None (default_timeout 10 timeout) c s"

definition CommandDetach :: "string \<Rightarrow> int \<Rightarrow> call_in \<Rightarrow> env \<Rightarrow> (env, goerr + gmap) run" where
  "CommandDetach loopID timeout c s = CommandRequest ''detach'' loopID None (default_timeout 10 timeout) c s"

definition CommandCancel :: "string \<Rightarrow> int \<Rightarrow> call_in \<Rightarrow> env \<Rightarrow> (env, goerr + gmap) run" where
  "CommandCancel loopID timeout c s = CommandRequest ''cancel'' loopID None (default_timeout 10 timeout) c s"

definition CommandMemory :: "string \<Rightarrow> int \<Rightarrow> call_in \<Rightarrow> env \<Rightarrow> (env, goerr + gmap) run" where
  "CommandMemory loopID timeout c s = CommandRequest ''memory'' loopID None (default_timeout 10 timeout) c s"

definition CommandPolicy :: "int \<Rightarrow> call_in \<Rightarrow> env \<Rightarrow> (env, goerr + gmap) run" where
  "CommandPolicy timeout c s = CommandRequest ''policy'' [] None (default_timeout 10 timeout) c s"

definition CommandHistory :: "string \<Rightarrow> int \<Rightarrow> call_in \<Rightarrow> env \<Rightarrow> (env, goerr + gmap) run" where
  "CommandHistory loopID timeout c s = CommandRequest ''history'' loopID None (default_timeout 10 timeout) c s"

definition CommandConfig :: "int \<Rightarrow> call_in \<Rightarrow> env \<Rightarrow> (env, goerr + gmap) run" where
  "CommandConfig timeout c s = CommandRequest ''config'' [] None (default_timeout 10 timeout) c s"

definition CommandReview :: "string \<Rightarrow> int \<Rightarrow> call_in \<Rightarrow> env \<Rightarrow> (env, goerr + gmap) run" where
  "CommandReview loopID timeout c s = CommandRequest ''review'' loopID None (default_timeout 10 timeout) c s"

definition CommandPlan :: "string \<Rightarrow> int \<Rightarrow> call_in \<Rightarrow> env \<Rightarrow> (env, goerr + gmap) run" where
  "CommandPlan loopID timeout c s = CommandRequest ''plan'' loopID None (default_timeout 10 timeout) c s"

definition CommandAutopilotDashboard :: "string \<Rightarrow> int \<Rightarrow> call_in \<Rightarrow> env \<Rightarrow> (env, goerr + gmap) run" where
  "CommandAutopilotDashboard loopID timeout c s = CommandRequest ''autopilot_dashboard'' loopID None (default_timeout 10 timeout) c s"

section \<open>Loop state\<close>

definition LoopMessages :: "string \<Rightarrow> int \<Rightarrow> int \<Rightarrow> bool \<Rightarrow> int \<Rightarrow> call_in \<Rightarrow> env \<Rightarrow> (env, goerr + gmap) run" where
  "LoopMessages loopID limit offset includeEvents timeout c s =
     timed_rpc (default_timeout 15 timeout) c
       (put_if (includeEvents) ''include_events'' (GBool True)
          (put_if (offset > 0) ''offset'' (GInt offset)
          (put_if (limit > 0) ''limit'' (GInt limit)
          [(''type'', GStr ''loop_messages''), (''loop_id'', GStr loopID)])))
       ''loop_messages_response'' s"

definition LoopStateGet :: "string \<Rightarrow> int \<Rightarrow> call_in \<Rightarrow> env \<Rightarrow> (env, goerr + gmap) run" where
  "LoopStateGet loopID timeout c s =
     timed_rpc (default_timeout 15 timeout) c
       [(''type'', GStr ''loop_state_get''), (''loop_id'', GStr loopID)]
       ''loop_state_get_response'' s"

definition LoopStateUpdate :: "string \<Rightarrow> gmap \<Rightarrow> string \<Rightarrow> int \<Rightarrow> call_in \<Rightarrow> env \<Rightarrow> (env, goerr + gmap) run" where
  "LoopStateUpdate loopID vals asNode timeout c s =
     timed_rpc (default_timeout 15 timeout) c
       (put_if (asNode \<noteq> []) ''as_node'' (GStr asNode)
          [(''type'', GStr ''loop_state_update''), (''loop_id'', GStr loopID), (''values'', iface_map vals)])
       ''loop_state_update_response'' s"

definition MCPStatus :: "int \<Rightarrow> call_in \<Rightarrow> env \<Rightarrow> (env, goerr + gmap) run" where
  "MCPStatus timeout c s =
     timed_rpc (default_timeout 15 timeout) c
       [(''type'', GStr ''mcp_status'')]
       ''mcp_status_response'' s"

definition LoopHistoryFetch :: "string \<Rightarrow> int \<Rightarrow> call_in \<Rightarrow> env \<Rightarrow> (env, goerr + gmap) run" where
  "LoopHistoryFetch loopID timeout c s =
     timed_rpc (default_timeout 15 timeout) c
       [(''type'', GStr ''loop_history_fetch''), (''loop_id'', GStr loopID)]
       ''loop_history_fetch_response'' s"

definition LoopExecutionStateFetch :: "string \<Rightarrow> int \<Rightarrow> call_in \<Rightarrow> env \<Rightarrow> (env, goerr + gmap) run" where
  "LoopExecutionStateFetch loopID timeout c s =
     timed_rpc (default_timeout 15 timeout) c
       [(''type'', GStr ''loop_execution_state_fetch''), (''loop_id'', GStr loopID)]
       ''loop_execution_state_fetch_response'' s"

section \<open>Lemmas\<close>

fun run_env :: "('s, 'a) run \<Rightarrow> 's" where
  "run_env (Ret x s) = s"
| "run_env (Hang s) = s"
| "run_env (Crash s) = s"

text \<open>What waiting and reading leave alone. A relation between states that holds over the few
  writes a read makes (pongs, the drop signal, the delivery sequence numbers, the buffers) holds
  over every read and every wait, whether it returns, blocks or panics.\<close>

locale wait_frame =
  fixes keeps :: "env \<Rightarrow> env \<Rightarrow> bool"
  assumes keeps_refl: "keeps s s"
    and keeps_trans: "keeps s s1 \<Longrightarrow> keeps s1 s2 \<Longrightarrow> keeps s s2"
    and keeps_mux: "keeps s (s\<lparr>c_mux := mx\<rparr>)"
    and keeps_pending: "keeps s (s\<lparr>c_pendingEvents := pe\<rparr>)"
    and keeps_reads: "keeps s (s\<lparr>e_reads := rs\<rparr>)"
    and keeps_pong: "keeps s (snd (write_msg (MEnvelope NewPongEnvelope) s))"
    and keeps_signal: "keeps s (run_env (signalDisconnect cause s))"
    and keeps_track: "keeps s (run_env (track_one e s))"
begin

lemma keeps_andThen:
  "keeps s (run_env r) \<Longrightarrow> (\<And>x s1. r = Ret x s1 \<Longrightarrow> keeps s1 (run_env (k x s1))) \<Longrightarrow>
   keeps s (run_env (andThen r k))"
  by (cases r) (auto simp: andThen_def intro: keeps_trans)

lemma keeps_control: "keeps s (run_env (isControlFrame m s))"
proof -
  have "keeps s (run_env (sendPong s))"
    using keeps_pong [of s] by (auto simp: sendPong_def locked_def keeps_refl)
  then show ?thesis
    by (auto simp: isControlFrame_def keeps_refl intro!: keeps_andThen keeps_signal split: msg.split)
qed

lemma keeps_ack: "keeps s (run_env (trackInboundDeliveryAck oe s))"
proof -
  have "keeps s (run_env (track_all es s))" for es s
    by (induction es arbitrary: s) (auto intro!: keeps_andThen keeps_track simp: keeps_refl)
  then show ?thesis by (auto simp: trackInboundDeliveryAck_def keeps_refl split: option.split)
qed

lemma keeps_read_msgs: "keeps s (run_env (read_msgs ms s))"
proof (induction ms arbitrary: s)
  case (Cons m ms)
  have "keeps s1 (run_env (read_msgs ms (s1\<lparr>c_mux := mx\<rparr>)))" for s1 mx
    using keeps_trans [OF keeps_mux Cons.IH] .
  then show ?case
    by (auto simp: Let_def keeps_refl intro!: keeps_andThen keeps_control keeps_ack Cons.IH split: prod.split bool.split)
qed (simp add: keeps_refl)

lemma keeps_ReadEvent: "keeps s (run_env (ReadEvent s))"
proof -
  have "keeps s (run_env (trackInboundDeliveryAck (Some ev) (s\<lparr>c_pendingEvents := rest\<rparr>)))" for ev rest
    using keeps_trans [OF keeps_pending keeps_ack] .
  moreover have "keeps s (run_env (read_msgs ms (s\<lparr>e_reads := rs\<rparr>)))" for ms rs
    using keeps_trans [OF keeps_reads keeps_read_msgs] .
  ultimately show ?thesis
    by (auto simp: ReadEvent_def Let_def keeps_refl keeps_reads intro!: keeps_andThen
        split: list.split read.split option.split)
qed

lemma keeps_route_env: "keeps s (route_env fs s)"
  unfolding route_env_def by (rule keeps_mux)

lemma keeps_await: "keeps s (run_env (await_rpc derr what d rid pc its s))"
proof (induction its arbitrary: s rid)
  case (Cons it its)
  obtain p arr where it: "it = (p, arr)" by fastforce
  have mux: "keeps s1 (run_env (await_rpc derr what d rid pc its (s1\<lparr>c_mux := mx\<rparr>)))" for s1 mx rid
    using keeps_trans [OF keeps_mux Cons.IH] .
  have "keeps (route_env arr s) (run_env (await_rpc derr what d rid pc (it # its) s))"
    by (auto simp: it Let_def keeps_refl keeps_mux intro!: keeps_andThen keeps_ReadEvent mux Cons.IH
        split: poll.split option.split sum.split prod.split)
  with keeps_route_env show ?case by (rule keeps_trans)
qed (simp add: keeps_refl)

lemma keeps_after_rpc: "keeps s (run_env r) \<Longrightarrow> keeps s (run_env (after_rpc pc rid r))"
  unfolding after_rpc_def by (rule keeps_andThen) (simp_all add: keeps_mux)

end

text \<open>Between two states only pongs were written.\<close>

definition all_pongs :: "msg list \<Rightarrow> bool" where
  "all_pongs ms \<longleftrightarrow> set ms \<subseteq> {MEnvelope NewPongEnvelope}"

definition pongs_after :: "env \<Rightarrow> env \<Rightarrow> bool" where
  "pongs_after s s' \<longleftrightarrow> (\<exists>ps. e_sent s' = e_sent s @ ps \<and> all_pongs ps)"

lemma track_one_sent [simp]: "e_sent (run_env (track_one e s)) = e_sent s"
  "e_closedConns (run_env (track_one e s)) = e_closedConns s" "c_conn (run_env (track_one e s)) = c_conn s"
  "c_closed (run_env (track_one e s)) = c_closed s" "c_mu (run_env (track_one e s)) = c_mu s"
  by (simp_all add: track_one_def Let_def)

lemma signal_sent [simp]: "e_sent (run_env (signalDisconnect cause s)) = e_sent s"
  "e_closedConns (run_env (signalDisconnect cause s)) = e_closedConns s"
  "c_conn (run_env (signalDisconnect cause s)) = c_conn s"
  "c_closed (run_env (signalDisconnect cause s)) = c_closed s"
  "c_mu (run_env (signalDisconnect cause s)) = c_mu s"
  by (simp_all add: signalDisconnect_def Let_def split: once.split)

lemma write_msg_link [simp]: "e_closedConns (snd (write_msg m s)) = e_closedConns s"
  "c_conn (snd (write_msg m s)) = c_conn s" "c_closed (snd (write_msg m s)) = c_closed s"
  "c_mu (snd (write_msg m s)) = c_mu s"
  by (simp_all add: write_msg_def split: list.split bool.split)

interpretation pongs: wait_frame pongs_after
proof
  show "pongs_after s (snd (write_msg (MEnvelope NewPongEnvelope) s))" for s
    by (auto simp: write_msg_def pongs_after_def all_pongs_def split: list.split bool.split)
qed (auto simp: pongs_after_def all_pongs_def)

text \<open>Between two states the socket and the mutex are the same, and no socket was closed.\<close>

definition link_kept :: "env \<Rightarrow> env \<Rightarrow> bool" where
  "link_kept s s' \<longleftrightarrow>
     c_conn s' = c_conn s \<and> c_closed s' = c_closed s \<and> e_closedConns s' = e_closedConns s \<and> c_mu s' = c_mu s"

interpretation link: wait_frame link_kept
  by unfold_locales (simp_all add: link_kept_def)

text \<open>A request is one envelope, well formed: protocol, type, method and id are set, the
  parameters have one entry per key, and the method and id are not repeated in them.\<close>

definition wf_request :: "string \<Rightarrow> Envelope \<Rightarrow> bool" where
  "wf_request mth e \<longleftrightarrow>
     env_Proto e = ProtoVersion \<and> env_Type e = ''request'' \<and> env_Method e = mth \<and> mth \<noteq> [] \<and> env_ID e \<noteq> []
     \<and> (case env_Params e of
          None \<Rightarrow> False
        | Some ps \<Rightarrow> wf_obj ps \<and> \<not> has_key ps ''type'' \<and> \<not> has_key ps ''request_id'')"

text \<open>The payload of a request: it names the method, has no id of its own and one entry per key.\<close>

definition wf_payload :: "string \<Rightarrow> gobj \<Rightarrow> bool" where
  "wf_payload mth p \<longleftrightarrow> mth \<noteq> [] \<and> idx p ''type'' = GStr mth \<and> \<not> has_key p ''request_id'' \<and> wf_obj p"

definition request_of :: "string \<Rightarrow> string \<Rightarrow> gobj \<Rightarrow> Envelope" where
  "request_of uuid mth p = NewRequestEnvelopeWithID uuid mth (Some (request_params p)) []"

lemma copy_into_nodup: "wf_obj m \<Longrightarrow> copy_into m [] = m"
proof -
  have gen: "wf_obj (d @ m) \<Longrightarrow> copy_into m d = d @ m" for d
  proof (induction m arbitrary: d)
    case (Cons kv m)
    obtain k v where kv: "kv = (k, v)" by fastforce
    have "k \<notin> fst ` set d" using Cons.prems by (auto simp: wf_obj_def kv)
    then have "put k v d = d @ [(k, v)]" by (induction d) auto
    with Cons.IH [of "d @ [(k, v)]"] Cons.prems show ?case by (simp add: kv)
  qed simp
  then show "wf_obj m \<Longrightarrow> copy_into m [] = m" using gen [of "[]"] by simp
qed

lemma request_params_eq:
  "wf_obj p \<Longrightarrow> request_params p = filter (\<lambda>(k, v). \<not> (k = ''type'' \<or> k = ''request_id'')) p"
  unfolding request_params_def by (rule copy_into_nodup) (auto simp: wf_obj_def intro: distinct_map_filter)

lemma wf_request_of:
  assumes "wf_payload mth p" "uuid \<noteq> []"
  shows "wf_request mth (request_of uuid mth p)"
  using assms
  by (auto simp: wf_request_def request_of_def wf_payload_def NewRequestEnvelopeWithID_def zero_envelope_def
      request_params_eq has_key_def map_of_eq_None_iff wf_obj_def intro: distinct_map_filter)

text \<open>What a timed request writes: nothing, or its request and then only pongs.\<close>

definition sends_request :: "env \<Rightarrow> Envelope \<Rightarrow> env \<Rightarrow> bool" where
  "sends_request s e s' \<longleftrightarrow> (\<exists>ps. e_sent s' = e_sent s @ MEnvelope e # ps \<and> all_pongs ps)"

lemma sends_pongs: "sends_request s e s1 \<Longrightarrow> pongs_after s1 s2 \<Longrightarrow> sends_request s e s2"
  by (auto simp: sends_request_def pongs_after_def all_pongs_def)

lemma timed_rpc_unfold:
  assumes "wf_payload mth p"
  shows "timed_rpc t c p rt s =
    andThen (SendMessage (in_cx c) (MEnvelope (request_of (in_uuid c) mth p)) s)
      (\<lambda>err s1. case err of
         Some e \<Rightarrow> Ret (Inl (ErrWrap ''send request'' e)) s1
       | None \<Rightarrow>
           (case registerRPC (in_uuid c) (c_mux (route_env (in_early c) s1)) of
              (pc, mx) \<Rightarrow>
                after_rpc pc (in_uuid c)
                  (await_rpc frame_daemon_error rt (Duration_String t) (in_uuid c) pc (in_rounds c)
                     ((route_env (in_early c) s1)\<lparr>c_mux := mx\<rparr>))))"
proof -
  have "asString (idx p ''type'') = mth" "asString (idx p ''request_id'') = []" "mth \<noteq> []"
    using assms by (auto simp: wf_payload_def idx_def has_key_def)
  then show ?thesis by (simp add: timed_rpc_def rpc_call_def RequestResponse_def Let_def request_of_def cong: option.case_cong)
qed

lemma timed_rpc_sent:
  assumes "wf_payload mth p"
  shows "e_sent (run_env (timed_rpc t c p rt s)) = e_sent s
    \<or> sends_request s (request_of (in_uuid c) mth p) (run_env (timed_rpc t c p rt s))"
proof (cases "SendMessage (in_cx c) (MEnvelope (request_of (in_uuid c) mth p)) s")
  case (Ret err s1)
  have fail: "SendMessage cx m s = Ret (Some e) s1 \<Longrightarrow> e_sent s1 = e_sent s" for cx m e
    by (auto simp: SendMessage_def write_msg_def andThen_Ret_iff signalDisconnect_def Let_def
        split: if_splits option.splits list.splits bool.splits once.splits)
  show ?thesis
  proof (cases err)
    case None
    have s1: "sends_request s (request_of (in_uuid c) mth p) s1"
      using Ret None
      by (auto simp: SendMessage_def write_msg_def andThen_Ret_iff sends_request_def all_pongs_def
          split: if_splits option.splits list.splits bool.splits)
    obtain pc mx where reg: "registerRPC (in_uuid c) (c_mux (route_env (in_early c) s1)) = (pc, mx)" by fastforce
    let ?s2 = "(route_env (in_early c) s1)\<lparr>c_mux := mx\<rparr>"
    have "sends_request s (request_of (in_uuid c) mth p) ?s2"
      using s1 by (simp add: sends_request_def route_env_def)
    from sends_pongs [OF this pongs.keeps_after_rpc [OF pongs.keeps_await]] show ?thesis
      using Ret None reg by (auto simp: timed_rpc_unfold [OF assms])
  qed (use Ret fail timed_rpc_unfold [OF assms] in auto)
next
  case (Hang s1)
  then show ?thesis
    by (auto simp: timed_rpc_unfold [OF assms] SendMessage_def write_msg_def signalDisconnect_def Let_def andThen_def
        split: if_splits option.splits list.splits bool.splits once.splits)
next
  case (Crash s1)
  then show ?thesis
    by (auto simp: timed_rpc_unfold [OF assms] SendMessage_def write_msg_def signalDisconnect_def Let_def andThen_def
        split: if_splits option.splits list.splits bool.splits once.splits)
qed

text \<open>A client that can send: connected, the mutex free and its writes succeeding.\<close>

definition can_send :: "env \<Rightarrow> bool" where
  "can_send s \<longleftrightarrow> c_conn s \<noteq> None \<and> \<not> c_closed s \<and> \<not> c_mu s \<and> e_writes s = []"

lemma timed_rpc_sends:
  assumes "wf_payload mth p" "can_send s" "in_cx c = None"
  shows "sends_request s (request_of (in_uuid c) mth p) (run_env (timed_rpc t c p rt s))"
proof -
  let ?m = "MEnvelope (request_of (in_uuid c) mth p)"
  let ?s1 = "s\<lparr>e_sent := e_sent s @ [?m]\<rparr>"
  have ok: "SendMessage None ?m s = Ret None ?s1" using assms(2) by (simp add: SendMessage_ok can_send_def)
  obtain pc mx where reg: "registerRPC (in_uuid c) (c_mux (route_env (in_early c) ?s1)) = (pc, mx)" by fastforce
  have "sends_request s (request_of (in_uuid c) mth p) ((route_env (in_early c) ?s1)\<lparr>c_mux := mx\<rparr>)"
    by (simp add: sends_request_def route_env_def all_pongs_def)
  from sends_pongs [OF this pongs.keeps_after_rpc [OF pongs.keeps_await]] show ?thesis
    using reg by (auto simp: timed_rpc_unfold [OF assms(1)] ok assms(3))
qed

end
