(* ===== verification/Send_Api.thy ===== *)
theory Send_Api
  imports Rpc_Api
begin

text \<open>
  The sending methods of the client (send_methods.go): user input with its options, and one method
  per request that sends an envelope without waiting for the answer. The options are functions on
  the option struct, applied in order.
\<close>

section \<open>Sending\<close>

text \<open>The inputs of one send: the context's state when it is polled, and the id the UUID library
  would give.\<close>

record send_in =
  si_cx :: "goerr option"
  si_uuid :: string

definition optRequestID :: "string list \<Rightarrow> string" where
  "optRequestID requestID = (case requestID of r # _ \<Rightarrow> if r \<noteq> [] then r else [] | [] \<Rightarrow> [])"

definition send_request :: "send_in \<Rightarrow> string \<Rightarrow> gobj \<Rightarrow> string \<Rightarrow> env \<Rightarrow> (env, goerr option) run" where
  "send_request c mth params rid s =
     SendMessage (si_cx c) (MEnvelope (NewRequestEnvelopeWithID (si_uuid c) mth (Some params) rid)) s"

section \<open>User input\<close>

record inputOptions =
  opt_loopID :: string
  opt_preferredSubagent :: string
  opt_intakeScope :: string
  opt_model :: string
  opt_modelParams :: gmap
  opt_attachments :: "gobj list option"
  opt_intentHint :: string
  opt_responseSchema :: gmap
  opt_responseSchemaName :: string
  opt_responseSchemaStrict :: "bool option"
  opt_clarificationMode :: string
  opt_interactionMode :: string
  opt_clarificationAnswer :: bool
  opt_clarificationAnswers :: "string list option"

type_synonym InputOption = "inputOptions \<Rightarrow> inputOptions"

definition zero_inputOptions :: inputOptions where
  "zero_inputOptions =
     \<lparr>opt_loopID = [], opt_preferredSubagent = [], opt_intakeScope = [], opt_model = [],
      opt_modelParams = None, opt_attachments = None, opt_intentHint = [], opt_responseSchema = None,
      opt_responseSchemaName = [], opt_responseSchemaStrict = None, opt_clarificationMode = [],
      opt_interactionMode = [], opt_clarificationAnswer = False, opt_clarificationAnswers = None\<rparr>"

definition WithLoopID :: "string \<Rightarrow> InputOption" where
  "WithLoopID loopID op = op\<lparr>opt_loopID := loopID\<rparr>"

definition WithSubagent :: "string \<Rightarrow> InputOption" where
  "WithSubagent name op = op\<lparr>opt_preferredSubagent := name\<rparr>"

definition WithIntakeScope :: "string \<Rightarrow> InputOption" where
  "WithIntakeScope scope op = op\<lparr>opt_intakeScope := scope\<rparr>"

definition WithAttachments :: "gobj list option \<Rightarrow> InputOption" where
  "WithAttachments attachments op = op\<lparr>opt_attachments := attachments\<rparr>"

definition WithModel :: "string \<Rightarrow> InputOption" where
  "WithModel model op = op\<lparr>opt_model := model\<rparr>"

definition WithModelParams :: "gmap \<Rightarrow> InputOption" where
  "WithModelParams params op = op\<lparr>opt_modelParams := params\<rparr>"

definition WithIntentHint :: "string \<Rightarrow> InputOption" where
  "WithIntentHint hint op = op\<lparr>opt_intentHint := hint\<rparr>"

definition WithResponseSchema :: "gmap \<Rightarrow> InputOption" where
  "WithResponseSchema schema op = op\<lparr>opt_responseSchema := schema\<rparr>"

definition WithResponseSchemaName :: "string \<Rightarrow> InputOption" where
  "WithResponseSchemaName name op = op\<lparr>opt_responseSchemaName := name\<rparr>"

definition WithResponseSchemaStrict :: "bool \<Rightarrow> InputOption" where
  "WithResponseSchemaStrict strict op = op\<lparr>opt_responseSchemaStrict := Some strict\<rparr>"

definition WithClarificationMode :: "string \<Rightarrow> InputOption" where
  "WithClarificationMode mode op = op\<lparr>opt_clarificationMode := mode\<rparr>"

definition WithInteractionMode :: "string \<Rightarrow> InputOption" where
  "WithInteractionMode mode op = op\<lparr>opt_interactionMode := mode\<rparr>"

definition WithClarificationAnswer :: InputOption where
  "WithClarificationAnswer op = op\<lparr>opt_clarificationAnswer := True\<rparr>"

definition WithClarificationAnswers :: "string list option \<Rightarrow> InputOption" where
  "WithClarificationAnswers ans op = op\<lparr>opt_clarificationAnswers := ans\<rparr>"

definition apply_options :: "InputOption list \<Rightarrow> inputOptions" where
  "apply_options opts = fold (\<lambda>opt op. opt op) opts zero_inputOptions"

definition put_some :: "string \<Rightarrow> ('a \<Rightarrow> gval) \<Rightarrow> 'a option \<Rightarrow> gobj \<Rightarrow> gobj" where
  "put_some k f v m = (case v of Some x \<Rightarrow> put k (f x) m | None \<Rightarrow> m)"

definition put_str :: "string \<Rightarrow> string \<Rightarrow> gobj \<Rightarrow> gobj" where
  "put_str k v m = put_if (v \<noteq> []) k (GStr v) m"

definition input_params :: "string \<Rightarrow> inputOptions \<Rightarrow> gobj" where
  "input_params text op =
     (let p0 = [(''loop_id'', GStr (TrimSpace (opt_loopID op))), (''content'', GStr text)];
          p1 = put_str ''preferred_subagent'' (opt_preferredSubagent op) p0;
          p2 = put_str ''intake_scope'' (opt_intakeScope op) p1;
          p3 = put_some ''attachments'' GMaps (opt_attachments op) p2;
          p4 = put_str ''model'' (opt_model op) p3;
          p5 = put_some ''model_params'' GMap (opt_modelParams op) p4;
          p6 = put_str ''intent_hint'' (opt_intentHint op) p5;
          p7 = put_some ''response_schema'' GMap (opt_responseSchema op) p6;
          p8 = put_str ''response_schema_name'' (opt_responseSchemaName op) p7;
          p9 = put_some ''response_schema_strict'' GBool (opt_responseSchemaStrict op) p8;
          p10 = put_str ''clarification_mode'' (opt_clarificationMode op) p9;
          p11 = put_str ''interaction_mode'' (opt_interactionMode op) p10;
          p12 = put_if (opt_clarificationAnswer op) ''clarification_answer'' (GBool True) p11
      in put_some ''clarification_answers'' GStrs (opt_clarificationAnswers op) p12)"

definition SendInput :: "goerr option \<Rightarrow> string \<Rightarrow> InputOption list \<Rightarrow> env \<Rightarrow> (env, goerr option) run" where
  "SendInput cx text opts s =
     (let op = apply_options opts
      in if TrimSpace (opt_loopID op) = [] then Ret (Some (ErrText ''SendInput requires WithLoopID(loopID)'')) s
         else SendMessage cx (MEnvelope (NewNotificationEnvelope ''loop_input'' (Some (input_params text op)))) s)"

definition SendCommand :: "goerr option \<Rightarrow> string \<Rightarrow> env \<Rightarrow> (env, goerr option) run" where
  "SendCommand cx cmd s =
     SendMessage cx (MEnvelope (NewNotificationEnvelope ''slash_command'' (Some [(''cmd'', GStr cmd)]))) s"

definition SendDetach :: "goerr option \<Rightarrow> env \<Rightarrow> (env, goerr option) run" where
  "SendDetach cx s = SendMessage cx (MEnvelope NewDisconnectEnvelope) s"

section \<open>Requests without waiting\<close>

definition SendDaemonStatus :: "string list \<Rightarrow> send_in \<Rightarrow> env \<Rightarrow> (env, goerr option) run" where
  "SendDaemonStatus requestID c s =
     send_request c ''daemon_status''
         []
         (optRequestID requestID) s"

definition SendDaemonShutdown :: "string list \<Rightarrow> send_in \<Rightarrow> env \<Rightarrow> (env, goerr option) run" where
  "SendDaemonShutdown requestID c s =
     send_request c ''daemon_shutdown''
         []
         (optRequestID requestID) s"

definition SendConfigGet :: "string \<Rightarrow> string list \<Rightarrow> send_in \<Rightarrow> env \<Rightarrow> (env, goerr option) run" where
  "SendConfigGet sect requestID c s =
     send_request c ''config_get''
         [(''section'', GStr sect)]
         (optRequestID requestID) s"

definition SendSkillsList :: "string list \<Rightarrow> send_in \<Rightarrow> env \<Rightarrow> (env, goerr option) run" where
  "SendSkillsList requestID c s =
     send_request c ''skills_list''
         []
         (optRequestID requestID) s"

definition SendModelsList :: "string list \<Rightarrow> send_in \<Rightarrow> env \<Rightarrow> (env, goerr option) run" where
  "SendModelsList requestID c s =
     send_request c ''models_list''
         []
         (optRequestID requestID) s"

definition SendInvokeSkill :: "string \<Rightarrow> string \<Rightarrow> string list \<Rightarrow> send_in \<Rightarrow> env \<Rightarrow> (env, goerr option) run" where
  "SendInvokeSkill skill args requestID c s =
     send_request c ''invoke_skill''
         (put_if (args \<noteq> []) ''args'' (GStr args)
          [(''skill'', GStr skill)])
         (optRequestID requestID) s"

definition SendLoopList :: "gmap \<Rightarrow> int \<Rightarrow> string list \<Rightarrow> send_in \<Rightarrow> env \<Rightarrow> (env, goerr option) run" where
  "SendLoopList flt limit requestID c s =
     send_request c ''loop_list''
         (put_if (limit > 0) ''limit'' (GInt limit)
          (put_if (flt \<noteq> None) ''filter'' (iface_map flt)
          []))
         (optRequestID requestID) s"

definition SendLoopGet :: "string \<Rightarrow> bool \<Rightarrow> string list \<Rightarrow> send_in \<Rightarrow> env \<Rightarrow> (env, goerr option) run" where
  "SendLoopGet loopID verbose requestID c s =
     send_request c ''loop_get''
         (put_if (verbose) ''verbose'' (GBool True)
          [(''loop_id'', GStr loopID)])
         (optRequestID requestID) s"

definition SendLoopTree :: "string \<Rightarrow> string \<Rightarrow> string list \<Rightarrow> send_in \<Rightarrow> env \<Rightarrow> (env, goerr option) run" where
  "SendLoopTree loopID fmt requestID c s =
     send_request c ''loop_tree''
         (put_if (fmt \<noteq> []) ''format'' (GStr fmt)
          [(''loop_id'', GStr loopID)])
         (optRequestID requestID) s"

definition SendLoopPrune :: "string \<Rightarrow> int \<Rightarrow> string list \<Rightarrow> send_in \<Rightarrow> env \<Rightarrow> (env, goerr option) run" where
  "SendLoopPrune loopID keepLatest requestID c s =
     send_request c ''loop_prune''
         (put_if (keepLatest > 0) ''keep_latest'' (GInt keepLatest)
          [(''loop_id'', GStr loopID)])
         (optRequestID requestID) s"

definition SendLoopDelete :: "string \<Rightarrow> string list \<Rightarrow> send_in \<Rightarrow> env \<Rightarrow> (env, goerr option) run" where
  "SendLoopDelete loopID requestID c s =
     send_request c ''loop_delete''
         [(''loop_id'', GStr loopID)]
         (optRequestID requestID) s"

definition SendLoopReattach :: "string \<Rightarrow> string list \<Rightarrow> send_in \<Rightarrow> env \<Rightarrow> (env, goerr option) run" where
  "SendLoopReattach loopID requestID c s =
     send_request c ''loop_reattach''
         [(''loop_id'', GStr loopID)]
         (optRequestID requestID) s"

definition SendLoopSubscribe ::
  "string \<Rightarrow> string \<Rightarrow> string \<Rightarrow> string list \<Rightarrow> send_in \<Rightarrow> env \<Rightarrow> (env, goerr option) run" where
  "SendLoopSubscribe loopID wireTier streamDelivery requestID c s =
     (let rid = optRequestID requestID;
          params = put_str ''stream_delivery'' streamDelivery
                     (put_str ''wire_tier'' wireTier [(''loop_id'', GStr loopID)]);
          env = NewSubscribeEnvelope (si_uuid c) ''loop_events'' (Some params)
      in if rid = [] then SendMessage (si_cx c) (MEnvelope env) s
         else SendMessage (si_cx c) (MEnvelope (env\<lparr>env_ID := rid\<rparr>)) s)"

definition SendLoopDetach :: "string \<Rightarrow> string list \<Rightarrow> send_in \<Rightarrow> env \<Rightarrow> (env, goerr option) run" where
  "SendLoopDetach loopID requestID c s =
     (let rid = optRequestID requestID; rid' = (if rid = [] then loopID else rid)
      in SendMessage (si_cx c) (MEnvelope (NewUnsubscribeEnvelope rid')) s)"

definition SendLoopNew :: "string \<Rightarrow> string \<Rightarrow> string \<Rightarrow> bool \<Rightarrow> string list \<Rightarrow> send_in \<Rightarrow> env \<Rightarrow> (env, goerr option) run" where
  "SendLoopNew clientWorkspace userID clientWorkspaceID isEphemeral requestID c s =
     send_request c ''loop_new''
         (put_if (isEphemeral) ''is_ephemeral'' (GBool True)
          (put_if (clientWorkspaceID \<noteq> []) ''client_workspace_id'' (GStr clientWorkspaceID)
          (put_if (userID \<noteq> []) ''user_id'' (GStr userID)
          (put_if (clientWorkspace \<noteq> []) ''client_workspace'' (GStr clientWorkspace)
          []))))
         (optRequestID requestID) s"

definition SendLoopInput :: "string \<Rightarrow> string \<Rightarrow> string list \<Rightarrow> send_in \<Rightarrow> env \<Rightarrow> (env, goerr option) run" where
  "SendLoopInput loopID content requestID c s =
     SendMessage (si_cx c)
       (MEnvelope (NewNotificationEnvelope ''loop_input'' (Some [(''loop_id'', GStr loopID), (''content'', GStr content)]))) s"

definition SendLoopMessages :: "string \<Rightarrow> int \<Rightarrow> int \<Rightarrow> bool \<Rightarrow> string list \<Rightarrow> send_in \<Rightarrow> env \<Rightarrow> (env, goerr option) run" where
  "SendLoopMessages loopID limit offset includeEvents requestID c s =
     send_request c ''loop_messages''
         (put_if (includeEvents) ''include_events'' (GBool True)
          (put_if (offset > 0) ''offset'' (GInt offset)
          (put_if (limit > 0) ''limit'' (GInt limit)
          [(''loop_id'', GStr loopID)])))
         (optRequestID requestID) s"

definition SendLoopStateGet :: "string \<Rightarrow> string list \<Rightarrow> send_in \<Rightarrow> env \<Rightarrow> (env, goerr option) run" where
  "SendLoopStateGet loopID requestID c s =
     send_request c ''loop_state_get''
         [(''loop_id'', GStr loopID)]
         (optRequestID requestID) s"

definition SendLoopStateUpdate :: "string \<Rightarrow> gmap \<Rightarrow> string \<Rightarrow> string list \<Rightarrow> send_in \<Rightarrow> env \<Rightarrow> (env, goerr option) run" where
  "SendLoopStateUpdate loopID vals asNode requestID c s =
     send_request c ''loop_state_update''
         (put_if (asNode \<noteq> []) ''as_node'' (GStr asNode)
          [(''loop_id'', GStr loopID), (''values'', iface_map vals)])
         (optRequestID requestID) s"

definition SendMCPStatus :: "string list \<Rightarrow> send_in \<Rightarrow> env \<Rightarrow> (env, goerr option) run" where
  "SendMCPStatus requestID c s =
     send_request c ''mcp_status''
         []
         (optRequestID requestID) s"

definition SendLoopHistoryFetch :: "string \<Rightarrow> string list \<Rightarrow> send_in \<Rightarrow> env \<Rightarrow> (env, goerr option) run" where
  "SendLoopHistoryFetch loopID requestID c s =
     send_request c ''loop_history_fetch''
         [(''loop_id'', GStr loopID)]
         (optRequestID requestID) s"

definition SendLoopExecutionStateFetch :: "string \<Rightarrow> string list \<Rightarrow> send_in \<Rightarrow> env \<Rightarrow> (env, goerr option) run" where
  "SendLoopExecutionStateFetch loopID requestID c s =
     send_request c ''loop_execution_state_fetch''
         [(''loop_id'', GStr loopID)]
         (optRequestID requestID) s"

definition SendConfigReload :: "string list \<Rightarrow> send_in \<Rightarrow> env \<Rightarrow> (env, goerr option) run" where
  "SendConfigReload requestID c s =
     send_request c ''config_reload''
         []
         (optRequestID requestID) s"

definition SendAuth :: "string \<Rightarrow> string \<Rightarrow> string list \<Rightarrow> send_in \<Rightarrow> env \<Rightarrow> (env, goerr option) run" where
  "SendAuth accessKey secretKey requestID c s =
     send_request c ''auth''
         [(''access_key'', GStr accessKey), (''secret_key'', GStr secretKey)]
         (optRequestID requestID) s"

definition SendAuthRefresh :: "string \<Rightarrow> string list \<Rightarrow> send_in \<Rightarrow> env \<Rightarrow> (env, goerr option) run" where
  "SendAuthRefresh refreshToken requestID c s =
     send_request c ''auth_refresh''
         [(''refresh_token'', GStr refreshToken)]
         (optRequestID requestID) s"

definition SendCronAdd :: "string \<Rightarrow> int \<Rightarrow> string list \<Rightarrow> send_in \<Rightarrow> env \<Rightarrow> (env, goerr option) run" where
  "SendCronAdd text priority requestID c s =
     send_request c ''cron_add''
         (put_if (priority > 0) ''priority'' (GInt priority)
          [(''text'', GStr text)])
         (optRequestID requestID) s"

definition SendCronList :: "string \<Rightarrow> string list \<Rightarrow> send_in \<Rightarrow> env \<Rightarrow> (env, goerr option) run" where
  "SendCronList status requestID c s =
     send_request c ''cron_list''
         (put_if (status \<noteq> []) ''status'' (GStr status)
          [])
         (optRequestID requestID) s"

definition SendCronShow :: "string \<Rightarrow> string list \<Rightarrow> send_in \<Rightarrow> env \<Rightarrow> (env, goerr option) run" where
  "SendCronShow jobID requestID c s =
     send_request c ''cron_show''
         [(''job_id'', GStr jobID)]
         (optRequestID requestID) s"

definition SendCronCancel :: "string \<Rightarrow> string list \<Rightarrow> send_in \<Rightarrow> env \<Rightarrow> (env, goerr option) run" where
  "SendCronCancel jobID requestID c s =
     send_request c ''cron_cancel''
         [(''job_id'', GStr jobID)]
         (optRequestID requestID) s"

section \<open>Lemmas\<close>

text \<open>What a receiver of the parameters reads from them.\<close>

definition read_input :: "gobj \<Rightarrow> string \<times> inputOptions" where
  "read_input p =
     (asString (idx p ''content''),
      \<lparr>opt_loopID = asString (idx p ''loop_id''), opt_preferredSubagent = asString (idx p ''preferred_subagent''),
       opt_intakeScope = asString (idx p ''intake_scope''), opt_model = asString (idx p ''model''),
       opt_modelParams = as_map (idx p ''model_params''),
       opt_attachments = (case idx p ''attachments'' of GMaps ms \<Rightarrow> Some ms | _ \<Rightarrow> None),
       opt_intentHint = asString (idx p ''intent_hint''), opt_responseSchema = as_map (idx p ''response_schema''),
       opt_responseSchemaName = asString (idx p ''response_schema_name''),
       opt_responseSchemaStrict = as_bool (idx p ''response_schema_strict''),
       opt_clarificationMode = asString (idx p ''clarification_mode''),
       opt_interactionMode = asString (idx p ''interaction_mode''),
       opt_clarificationAnswer = (idx p ''clarification_answer'' = GBool True),
       opt_clarificationAnswers = (case idx p ''clarification_answers'' of GStrs ss \<Rightarrow> Some ss | _ \<Rightarrow> None)\<rparr>)"

lemma idx_put_str: "idx (put_str k v m) k' = (if v \<noteq> [] \<and> k' = k then GStr v else idx m k')"
  by (simp add: put_str_def idx_put_if)

lemma idx_put_some: "idx (put_some k f v m) k' = (if k' = k then (case v of Some x \<Rightarrow> f x | None \<Rightarrow> idx m k') else idx m k')"
  by (simp add: put_some_def idx_put split: option.split)

lemma wf_put_str [simp]: "wf_obj m \<Longrightarrow> wf_obj (put_str k v m)"
  by (simp add: put_str_def)

lemma wf_put_some [simp]: "wf_obj m \<Longrightarrow> wf_obj (put_some k f v m)"
  by (simp add: put_some_def split: option.split)

lemma wf_input_params: "wf_obj (input_params text op)"
proof -
  have "wf_obj [(''loop_id'', GStr (TrimSpace (opt_loopID op))), (''content'', GStr text)]" by (simp add: wf_obj_def)
  then show ?thesis by (simp add: input_params_def Let_def)
qed

lemma read_some:
  "as_map (case v of Some x \<Rightarrow> GMap x | None \<Rightarrow> GNil) = v"
  "as_bool (case b of Some x \<Rightarrow> GBool x | None \<Rightarrow> GNil) = b"
  "(case (case ms of Some x \<Rightarrow> GMaps x | None \<Rightarrow> GNil) of GMaps x \<Rightarrow> Some x | _ \<Rightarrow> None) = ms"
  "(case (case ss of Some x \<Rightarrow> GStrs x | None \<Rightarrow> GNil) of GStrs x \<Rightarrow> Some x | _ \<Rightarrow> None) = ss"
  "asString (if u \<noteq> [] then GStr u else GNil) = u"
  by (simp_all split: option.split)

lemma input_idx:
  "idx (input_params text op) ''loop_id'' = GStr (TrimSpace (opt_loopID op))"
  "idx (input_params text op) ''content'' = GStr text"
  "idx (input_params text op) ''preferred_subagent'' = (if opt_preferredSubagent op \<noteq> [] then GStr (opt_preferredSubagent op) else GNil)"
  "idx (input_params text op) ''intake_scope'' = (if opt_intakeScope op \<noteq> [] then GStr (opt_intakeScope op) else GNil)"
  "idx (input_params text op) ''model'' = (if opt_model op \<noteq> [] then GStr (opt_model op) else GNil)"
  "idx (input_params text op) ''intent_hint'' = (if opt_intentHint op \<noteq> [] then GStr (opt_intentHint op) else GNil)"
  "idx (input_params text op) ''response_schema_name'' = (if opt_responseSchemaName op \<noteq> [] then GStr (opt_responseSchemaName op) else GNil)"
  "idx (input_params text op) ''clarification_mode'' = (if opt_clarificationMode op \<noteq> [] then GStr (opt_clarificationMode op) else GNil)"
  "idx (input_params text op) ''interaction_mode'' = (if opt_interactionMode op \<noteq> [] then GStr (opt_interactionMode op) else GNil)"
  "idx (input_params text op) ''attachments'' = (case opt_attachments op of Some x \<Rightarrow> GMaps x | None \<Rightarrow> GNil)"
  "idx (input_params text op) ''model_params'' = (case opt_modelParams op of Some x \<Rightarrow> GMap x | None \<Rightarrow> GNil)"
  "idx (input_params text op) ''response_schema'' = (case opt_responseSchema op of Some x \<Rightarrow> GMap x | None \<Rightarrow> GNil)"
  "idx (input_params text op) ''response_schema_strict'' = (case opt_responseSchemaStrict op of Some x \<Rightarrow> GBool x | None \<Rightarrow> GNil)"
  "idx (input_params text op) ''clarification_answers'' = (case opt_clarificationAnswers op of Some x \<Rightarrow> GStrs x | None \<Rightarrow> GNil)"
  "idx (input_params text op) ''clarification_answer'' = (if opt_clarificationAnswer op then GBool True else GNil)"
  by (simp_all only: input_params_def Let_def idx_put_str idx_put_some idx_put_if) (simp_all split: option.split)

lemma read_input_params: "read_input (input_params text op) = (text, op\<lparr>opt_loopID := TrimSpace (opt_loopID op)\<rparr>)"
  unfolding read_input_def input_idx read_some by simp

section \<open>Properties\<close>

text \<open>C18: User input arrives complete: on a client that can send, \<^verbatim>\<open>SendInput\<close> with a loop id that is not
  blank writes one \<^verbatim>\<open>loop_input\<close> notification without an id, whose parameters have one entry per key
  and give back the text and every option as set last, with the loop id trimmed; options that
  were not set are not on the wire.\<close>

theorem send_input_roundtrip:
  assumes "can_send s" "TrimSpace (opt_loopID (apply_options opts)) \<noteq> []"
  shows "\<exists>e p. SendInput None text opts s = Ret None (s\<lparr>e_sent := e_sent s @ [MEnvelope e]\<rparr>)
    \<and> env_Type e = ''notification'' \<and> env_Method e = ''loop_input'' \<and> env_ID e = [] \<and> env_Params e = Some p \<and> wf_obj p
    \<and> read_input p = (text, (apply_options opts)\<lparr>opt_loopID := TrimSpace (opt_loopID (apply_options opts))\<rparr>)"
proof -
  let ?p = "input_params text (apply_options opts)"
  let ?e = "NewNotificationEnvelope ''loop_input'' (Some ?p)"
  have "SendInput None text opts s = Ret None (s\<lparr>e_sent := e_sent s @ [MEnvelope ?e]\<rparr>)"
    using assms by (simp add: SendInput_def Let_def SendMessage_ok can_send_def)
  then show ?thesis
    by (intro exI [of _ ?e] exI [of _ ?p]) (simp add: NewNotificationEnvelope_def zero_envelope_def wf_input_params read_input_params)
qed

theorem send_input_roundtrip_witness:
  "\<exists>e p. SendInput None ''hi'' [WithModel ''m1'', WithLoopID ''l'', WithClarificationAnswer, WithModel ''m2'']
       (start_env ((NewClient ''u'' None)\<lparr>c_conn := Some 0\<rparr>) [] [])
     = Ret None (start_env ((NewClient ''u'' None)\<lparr>c_conn := Some 0\<rparr>) [] []\<lparr>e_sent := [MEnvelope e]\<rparr>)
    \<and> env_Params e = Some p \<and> opt_model (snd (read_input p)) = ''m2'' \<and> opt_clarificationAnswer (snd (read_input p))"
proof -
  let ?s = "start_env ((NewClient ''u'' None)\<lparr>c_conn := Some 0\<rparr>) [] []"
  let ?opts = "[WithModel ''m1'', WithLoopID ''l'', WithClarificationAnswer, WithModel ''m2'']"
  have o: "opt_loopID (apply_options ?opts) = ''l''" "opt_model (apply_options ?opts) = ''m2''"
    "opt_clarificationAnswer (apply_options ?opts)"
    by (simp_all add: apply_options_def WithModel_def WithLoopID_def WithClarificationAnswer_def)
  have "TrimSpace ''l'' \<noteq> []" by (simp add: TrimSpace_plain_ends plain_byteI)
  then obtain e p where e: "SendInput None ''hi'' ?opts ?s = Ret None (?s\<lparr>e_sent := e_sent ?s @ [MEnvelope e]\<rparr>)"
    "env_Params e = Some p" "read_input p = (''hi'', (apply_options ?opts)\<lparr>opt_loopID := TrimSpace (opt_loopID (apply_options ?opts))\<rparr>)"
    using send_input_roundtrip [of ?s ?opts "''hi''"] o(1)
    by (auto simp: can_send_def start_env_def NewClient_def Client.defs env.defs)
  have "e_sent ?s = []" by (simp add: start_env_def Client.defs env.defs)
  then show ?thesis using e o by (intro exI [of _ e] exI [of _ p]) simp
qed

end
