(* ===== verification/Job_Api.thy ===== *)
theory Job_Api
  imports Send_Api
begin

text \<open>
  Jobs, scheduled jobs and the autopilot (job.go and autopilot.go): requests that check their
  arguments before anything is sent, and the subscription to the events of autopilot workers with
  its own waiting loops.
\<close>

section \<open>Jobs\<close>

definition SendJobCreate :: "string \<Rightarrow> string \<Rightarrow> string list \<Rightarrow> send_in \<Rightarrow> env \<Rightarrow> (env, goerr option) run" where
  "SendJobCreate goal workspace requestID c s =
     (if goal = [] then Ret (Some (ErrText ''goal is required'')) s
      else send_request c ''job_create''
         (put_if (workspace \<noteq> []) ''workspace'' (GStr workspace)
          [(''goal'', GStr goal)])
         (optRequestID requestID) s)"

definition SendJobStatus :: "string \<Rightarrow> string list \<Rightarrow> send_in \<Rightarrow> env \<Rightarrow> (env, goerr option) run" where
  "SendJobStatus jobID requestID c s =
     (if jobID = [] then Ret (Some (ErrText ''job_id is required'')) s
      else send_request c ''job_status''
         [(''job_id'', GStr jobID)]
         (optRequestID requestID) s)"

definition SendJobPause :: "string \<Rightarrow> string list \<Rightarrow> send_in \<Rightarrow> env \<Rightarrow> (env, goerr option) run" where
  "SendJobPause jobID requestID c s =
     (if jobID = [] then Ret (Some (ErrText ''job_id is required'')) s
      else send_request c ''job_pause''
         [(''job_id'', GStr jobID)]
         (optRequestID requestID) s)"

definition SendJobResume :: "string \<Rightarrow> string list \<Rightarrow> send_in \<Rightarrow> env \<Rightarrow> (env, goerr option) run" where
  "SendJobResume jobID requestID c s =
     (if jobID = [] then Ret (Some (ErrText ''job_id is required'')) s
      else send_request c ''job_resume''
         [(''job_id'', GStr jobID)]
         (optRequestID requestID) s)"

definition SendJobCancel :: "string \<Rightarrow> string list \<Rightarrow> send_in \<Rightarrow> env \<Rightarrow> (env, goerr option) run" where
  "SendJobCancel jobID requestID c s =
     (if jobID = [] then Ret (Some (ErrText ''job_id is required'')) s
      else send_request c ''job_cancel''
         [(''job_id'', GStr jobID)]
         (optRequestID requestID) s)"

definition SendJobDag :: "string \<Rightarrow> string list \<Rightarrow> send_in \<Rightarrow> env \<Rightarrow> (env, goerr option) run" where
  "SendJobDag jobID requestID c s =
     (if jobID = [] then Ret (Some (ErrText ''job_id is required'')) s
      else send_request c ''job_dag''
         [(''job_id'', GStr jobID)]
         (optRequestID requestID) s)"

definition JobCreate :: "string \<Rightarrow> string \<Rightarrow> int \<Rightarrow> call_in \<Rightarrow> env \<Rightarrow> (env, goerr + gmap) run" where
  "JobCreate goal workspace timeout c s =
     (if goal = [] then Ret (Inl (ErrText ''goal is required'')) s
      else timed_rpc (default_timeout 15 timeout) c
         (put_if (workspace \<noteq> []) ''workspace'' (GStr workspace)
          [(''type'', GStr ''job_create''), (''goal'', GStr goal)])
         ''job_create_response'' s)"

definition JobStatus :: "string \<Rightarrow> int \<Rightarrow> call_in \<Rightarrow> env \<Rightarrow> (env, goerr + gmap) run" where
  "JobStatus jobID timeout c s =
     (if jobID = [] then Ret (Inl (ErrText ''job_id is required'')) s
      else timed_rpc (default_timeout 15 timeout) c
         [(''type'', GStr ''job_status''), (''job_id'', GStr jobID)]
         ''job_status_response'' s)"

definition JobPause :: "string \<Rightarrow> int \<Rightarrow> call_in \<Rightarrow> env \<Rightarrow> (env, goerr + gmap) run" where
  "JobPause jobID timeout c s =
     (if jobID = [] then Ret (Inl (ErrText ''job_id is required'')) s
      else timed_rpc (default_timeout 15 timeout) c
         [(''type'', GStr ''job_pause''), (''job_id'', GStr jobID)]
         ''job_pause_response'' s)"

definition JobResume :: "string \<Rightarrow> int \<Rightarrow> call_in \<Rightarrow> env \<Rightarrow> (env, goerr + gmap) run" where
  "JobResume jobID timeout c s =
     (if jobID = [] then Ret (Inl (ErrText ''job_id is required'')) s
      else timed_rpc (default_timeout 15 timeout) c
         [(''type'', GStr ''job_resume''), (''job_id'', GStr jobID)]
         ''job_resume_response'' s)"

definition JobCancel :: "string \<Rightarrow> int \<Rightarrow> call_in \<Rightarrow> env \<Rightarrow> (env, goerr + gmap) run" where
  "JobCancel jobID timeout c s =
     (if jobID = [] then Ret (Inl (ErrText ''job_id is required'')) s
      else timed_rpc (default_timeout 15 timeout) c
         [(''type'', GStr ''job_cancel''), (''job_id'', GStr jobID)]
         ''job_cancel_response'' s)"

definition JobDag :: "string \<Rightarrow> int \<Rightarrow> call_in \<Rightarrow> env \<Rightarrow> (env, goerr + gmap) run" where
  "JobDag jobID timeout c s =
     (if jobID = [] then Ret (Inl (ErrText ''job_id is required'')) s
      else timed_rpc (default_timeout 15 timeout) c
         [(''type'', GStr ''job_dag''), (''job_id'', GStr jobID)]
         ''job_dag_response'' s)"

definition JobGuidance :: "string \<Rightarrow> string \<Rightarrow> string \<Rightarrow> int \<Rightarrow> call_in \<Rightarrow> env \<Rightarrow> (env, goerr + gmap) run" where
  "JobGuidance jobID text goalID timeout c s =
     (if jobID = [] then Ret (Inl (ErrText ''job_id is required'')) s
      else (if text = [] then Ret (Inl (ErrText ''text is required'')) s
      else timed_rpc (default_timeout 30 timeout) c
         (put_if (goalID \<noteq> []) ''goal_id'' (GStr goalID)
          [(''type'', GStr ''job_guidance''), (''job_id'', GStr jobID), (''content'', GStr text)])
         ''job_guidance_response'' s))"

section \<open>The autopilot subscription\<close>

definition auto_what :: string where "auto_what = ''autopilot subscribe''"

definition auto_answer :: "string \<Rightarrow> gobj \<Rightarrow> goerr + string" where
  "auto_answer rid ev =
     (if asString (idx ev ''type'') = ''error''
      then Inl (ErrText (''autopilot subscribe error: '' @ asString (midx (as_map (idx ev ''error'')) ''message'')))
      else Inr rid)"

fun await_auto :: "string \<Rightarrow> string \<Rightarrow> nat \<Rightarrow> round list \<Rightarrow> env \<Rightarrow> (env, goerr + string) run" where
  "await_auto d rid ps [] s = Hang s"
| "await_auto d rid ps ((p, arrivals) # its) s =
     (let s0 = route_env arrivals s
      in case p of
           CtxDone e \<Rightarrow> Ret (Inl e) s0
         | TimedOut \<Rightarrow> Ret (Inl (timeout_text d auto_what)) s0
         | Ready _ \<Rightarrow>
             (case recvStream ps (c_mux s0) of
                Some (ev, mx) \<Rightarrow> Ret (auto_answer rid ev) (s0\<lparr>c_mux := mx\<rparr>)
              | None \<Rightarrow>
                  if c_readerActive s0 then await_auto d rid ps its s0
                  else
                    andThen (ReadEvent s0)
                      (\<lambda>r s1. case r of
                         Inl e \<Rightarrow> Ret (Inl (ErrWrap ''read event'' e)) s1
                       | Inr None \<Rightarrow>
                           (case recvStream ps (c_mux s1) of
                              Some (ev, mx) \<Rightarrow> Ret (auto_answer rid ev) (s1\<lparr>c_mux := mx\<rparr>)
                            | None \<Rightarrow> Ret (Inl (closed_text auto_what)) s1)
                       | Inr (Some ev) \<Rightarrow>
                           if asString (idx ev ''id'') \<noteq> rid then
                             await_auto d rid ps its (s1\<lparr>c_mux := snd (route (Some ev) (c_mux s1))\<rparr>)
                           else Ret (auto_answer rid ev) s1)))"

definition AutopilotSubscribe :: "int \<Rightarrow> call_in \<Rightarrow> env \<Rightarrow> (env, goerr + string) run" where
  "AutopilotSubscribe timeout c s =
     (let env = NewSubscribeEnvelope (in_uuid c) ''autopilot_events'' (Some [])
      in andThen (SendMessage (in_cx c) (MEnvelope env) s)
           (\<lambda>err s1. case err of
              Some e \<Rightarrow> Ret (Inl (ErrWrap ''send subscribe'' e)) s1
            | None \<Rightarrow>
                (let s2 = route_env (in_early c) s1
                 in case registerSubscription (env_ID env) (c_mux s2) of
                      (ps, mx) \<Rightarrow>
                        after_sub ps (env_ID env)
                          (await_auto (Duration_String (default_timeout 15 timeout)) (env_ID env) ps (in_rounds c)
                             (s2\<lparr>c_mux := mx\<rparr>)))))"

text \<open>The wait of \<^verbatim>\<open>AutopilotUnsubscribe\<close>: events it reads itself are dropped, and a failed read only
  starts the next round.\<close>

fun await_unsub :: "string \<Rightarrow> nat \<Rightarrow> round list \<Rightarrow> env \<Rightarrow> (env, goerr + gmap) run" where
  "await_unsub d pc [] s = Hang s"
| "await_unsub d pc ((p, arrivals) # its) s =
     (let s0 = route_env arrivals s
      in case p of
           CtxDone e \<Rightarrow> Ret (Inl e) s0
         | TimedOut \<Rightarrow> Ret (Inl (timeout_text d ''autopilot_unsubscribe'')) s0
         | Ready errFirst \<Rightarrow>
             (case take_answer errFirst pc (c_mux s0) of
                Some (res, mx) \<Rightarrow> Ret res (s0\<lparr>c_mux := mx\<rparr>)
              | None \<Rightarrow>
                  if c_readerActive s0 then await_unsub d pc its s0
                  else
                    andThen (ReadEvent s0)
                      (\<lambda>r s1. case r of
                         Inl e \<Rightarrow> Ret (Inl (ErrWrap ''read event'' e)) s1
                       | Inr None \<Rightarrow>
                           (case recvReply pc (c_mux s1) of
                              Some (x, mx) \<Rightarrow> Ret (Inr (Some x)) (s1\<lparr>c_mux := mx\<rparr>)
                            | None \<Rightarrow> await_unsub d pc its s1)
                       | Inr (Some ev) \<Rightarrow> await_unsub d pc its s1)))"

definition AutopilotUnsubscribe :: "string \<Rightarrow> int \<Rightarrow> call_in \<Rightarrow> env \<Rightarrow> (env, goerr + gmap) run" where
  "AutopilotUnsubscribe subscriptionID timeout c s =
     (if subscriptionID = [] then Ret (Inl (ErrText ''subscriptionID is required'')) s
      else
        (case registerRPC subscriptionID (c_mux s) of
           (pc, mx) \<Rightarrow>
             after_rpc pc subscriptionID
               (andThen (SendMessage (in_cx c) (MEnvelope (NewUnsubscribeEnvelope subscriptionID)) (s\<lparr>c_mux := mx\<rparr>))
                  (\<lambda>err s1. case err of
                     Some e \<Rightarrow> Ret (Inl (ErrWrap ''send unsubscribe'' e)) s1
                   | None \<Rightarrow>
                       await_unsub (Duration_String (default_timeout 15 timeout)) pc (in_rounds c)
                         (route_env (in_early c) s1)))))"

section \<open>Scheduled jobs\<close>

definition CronAdd :: "string \<Rightarrow> int \<Rightarrow> int \<Rightarrow> call_in \<Rightarrow> env \<Rightarrow> (env, goerr + gmap) run" where
  "CronAdd text priority timeout c s =
     (if text = [] then Ret (Inl (ErrText ''text is required'')) s
      else timed_rpc (default_timeout 30 timeout) c
         (put_if (priority > 0) ''priority'' (GInt priority)
          [(''type'', GStr ''cron_add''), (''text'', GStr text)])
         ''cron_add_response'' s)"

definition CronList :: "string \<Rightarrow> int \<Rightarrow> call_in \<Rightarrow> env \<Rightarrow> (env, goerr + gmap) run" where
  "CronList status timeout c s =
     timed_rpc (default_timeout 15 timeout) c
         (put_if (status \<noteq> []) ''status'' (GStr status)
          [(''type'', GStr ''cron_list'')])
         ''cron_list_response'' s"

definition CronShow :: "string \<Rightarrow> int \<Rightarrow> call_in \<Rightarrow> env \<Rightarrow> (env, goerr + gmap) run" where
  "CronShow jobID timeout c s =
     (if jobID = [] then Ret (Inl (ErrText ''job_id is required'')) s
      else timed_rpc (default_timeout 15 timeout) c
         [(''type'', GStr ''cron_show''), (''job_id'', GStr jobID)]
         ''cron_show_response'' s)"

definition CronCancel :: "string \<Rightarrow> int \<Rightarrow> call_in \<Rightarrow> env \<Rightarrow> (env, goerr + gmap) run" where
  "CronCancel jobID timeout c s =
     (if jobID = [] then Ret (Inl (ErrText ''job_id is required'')) s
      else timed_rpc (default_timeout 15 timeout) c
         [(''type'', GStr ''cron_cancel''), (''job_id'', GStr jobID)]
         ''cron_cancel_response'' s)"

section \<open>Autopilot\<close>

definition autopilotTimeout :: "int \<Rightarrow> int" where
  "autopilotTimeout timeout = (if timeout \<le> 0 then sec 15 else timeout)"

definition AutopilotStatus :: "int \<Rightarrow> call_in \<Rightarrow> env \<Rightarrow> (env, goerr + gmap) run" where
  "AutopilotStatus timeout c s =
     timed_rpc (autopilotTimeout timeout) c
         [(''type'', GStr ''autopilot_status'')]
         ''autopilot_status'' s"

definition AutopilotSubmit :: "string \<Rightarrow> int \<Rightarrow> string \<Rightarrow> int \<Rightarrow> call_in \<Rightarrow> env \<Rightarrow> (env, goerr + gmap) run" where
  "AutopilotSubmit description priority workspace timeout c s =
     (if description = [] then Ret (Inl (ErrText ''description is required'')) s
      else
        (let priority' = (if priority \<le> 0 then 50 else priority)
         in timed_rpc (autopilotTimeout timeout) c
              (put_if (workspace \<noteq> []) ''workspace'' (GStr workspace)
                 [(''type'', GStr ''autopilot_submit''), (''description'', GStr description), (''priority'', GInt priority')])
              ''autopilot_submit'' s))"

definition AutopilotListGoals :: "int \<Rightarrow> call_in \<Rightarrow> env \<Rightarrow> (env, goerr + gmap) run" where
  "AutopilotListGoals timeout c s =
     timed_rpc (autopilotTimeout timeout) c
         [(''type'', GStr ''autopilot_list_goals'')]
         ''autopilot_list_goals'' s"

definition AutopilotGetGoal :: "string \<Rightarrow> int \<Rightarrow> call_in \<Rightarrow> env \<Rightarrow> (env, goerr + gmap) run" where
  "AutopilotGetGoal goalID timeout c s =
     (if goalID = [] then Ret (Inl (ErrText ''goal_id is required'')) s
      else timed_rpc (autopilotTimeout timeout) c
         [(''type'', GStr ''autopilot_get_goal''), (''goal_id'', GStr goalID)]
         ''autopilot_get_goal'' s)"

definition AutopilotCancelGoal :: "string \<Rightarrow> int \<Rightarrow> call_in \<Rightarrow> env \<Rightarrow> (env, goerr + gmap) run" where
  "AutopilotCancelGoal goalID timeout c s =
     (if goalID = [] then Ret (Inl (ErrText ''goal_id is required'')) s
      else timed_rpc (autopilotTimeout timeout) c
         [(''type'', GStr ''autopilot_cancel_goal''), (''goal_id'', GStr goalID)]
         ''autopilot_cancel_goal'' s)"

definition AutopilotCancelAll :: "int \<Rightarrow> call_in \<Rightarrow> env \<Rightarrow> (env, goerr + gmap) run" where
  "AutopilotCancelAll timeout c s =
     timed_rpc (autopilotTimeout timeout) c
         [(''type'', GStr ''autopilot_cancel_all'')]
         ''autopilot_cancel_all'' s"

definition AutopilotWake :: "int \<Rightarrow> call_in \<Rightarrow> env \<Rightarrow> (env, goerr + gmap) run" where
  "AutopilotWake timeout c s =
     timed_rpc (autopilotTimeout timeout) c
         [(''type'', GStr ''autopilot_wake'')]
         ''autopilot_wake'' s"

definition AutopilotDream :: "int \<Rightarrow> call_in \<Rightarrow> env \<Rightarrow> (env, goerr + gmap) run" where
  "AutopilotDream timeout c s =
     timed_rpc (autopilotTimeout timeout) c
         [(''type'', GStr ''autopilot_dream'')]
         ''autopilot_dream'' s"

definition AutopilotResume :: "string \<Rightarrow> int \<Rightarrow> call_in \<Rightarrow> env \<Rightarrow> (env, goerr + gmap) run" where
  "AutopilotResume goalID timeout c s =
     (if goalID = [] then Ret (Inl (ErrText ''goal_id is required'')) s
      else timed_rpc (autopilotTimeout timeout) c
         [(''type'', GStr ''autopilot_resume''), (''goal_id'', GStr goalID)]
         ''autopilot_resume'' s)"

definition AutopilotListJobs :: "int \<Rightarrow> call_in \<Rightarrow> env \<Rightarrow> (env, goerr + gmap) run" where
  "AutopilotListJobs timeout c s =
     timed_rpc (autopilotTimeout timeout) c
         [(''type'', GStr ''autopilot_list_jobs'')]
         ''autopilot_list_jobs'' s"

definition AutopilotGetJob :: "string \<Rightarrow> int \<Rightarrow> call_in \<Rightarrow> env \<Rightarrow> (env, goerr + gmap) run" where
  "AutopilotGetJob jobID timeout c s =
     (if jobID = [] then Ret (Inl (ErrText ''job_id is required'')) s
      else timed_rpc (autopilotTimeout timeout) c
         [(''type'', GStr ''autopilot_get_job''), (''job_id'', GStr jobID)]
         ''autopilot_get_job'' s)"

definition AutopilotTopWithTerminal :: "bool \<Rightarrow> int \<Rightarrow> call_in \<Rightarrow> env \<Rightarrow> (env, goerr + gmap) run" where
  "AutopilotTopWithTerminal includeTerminal timeout c s =
     timed_rpc (autopilotTimeout timeout) c
         [(''type'', GStr ''autopilot_top''), (''include_terminal'', GBool includeTerminal)]
         ''autopilot_top'' s"

definition AutopilotTop :: "int \<Rightarrow> call_in \<Rightarrow> env \<Rightarrow> (env, goerr + gmap) run" where
  "AutopilotTop timeout c s = AutopilotTopWithTerminal False timeout c s"

section \<open>Lemmas\<close>

lemma await_unsub_failed_reads:
  "\<not> c_readerActive s \<Longrightarrow> \<not> c_mu s \<Longrightarrow> c_conn s \<noteq> None \<Longrightarrow> c_pendingEvents s = [] \<Longrightarrow> e_reads s = replicate n RError @ rs \<Longrightarrow>
   mx_calls (c_mux s) pc = Some \<lparr>pc_id = rid, pc_replyCh = [], pc_errCh = []\<rparr> \<Longrightarrow>
   await_unsub d pc (replicate n (Ready b, []) @ its) s = await_unsub d pc its (s\<lparr>e_reads := rs\<rparr>)"
proof (induction n arbitrary: s)
  case (Suc n)
  let ?s1 = "s\<lparr>e_reads := replicate n RError @ rs\<rparr>"
  have "take_answer b pc (c_mux s) = None" "recvReply pc (c_mux s) = None"
    using Suc.prems(6) by (simp_all add: take_answer_def recvReply_def recvErr_def)
  then have "await_unsub d pc (replicate (Suc n) (Ready b, []) @ its) s = await_unsub d pc (replicate n (Ready b, []) @ its) ?s1"
    using Suc.prems by (auto simp: route_env_def route_all_def ReadEvent_def Let_def)
  also have "\<dots> = await_unsub d pc its (?s1\<lparr>e_reads := rs\<rparr>)"
    by (rule Suc.IH) (use Suc.prems in simp_all)
  finally show ?case by simp
qed auto

section \<open>Properties\<close>

text \<open>\<^verbatim>\<open>AutopilotUnsubscribe\<close> does not notice a lost connection: without a reader goroutine, however
  often its read of the broken socket fails, it goes around its loop again and returns only the
  timeout error, never that the connection is closed.\<close>

theorem unsubscribe_ignores_lost_connection:
  assumes "can_send s" "\<not> c_readerActive s" "c_pendingEvents s = []" "e_reads s = replicate n RError"
    "subscriptionID \<noteq> []" "in_cx c = None" "in_early c = []" "in_rounds c = replicate n (Ready b, []) @ [(TimedOut, [])]"
  shows "\<exists>s'. AutopilotUnsubscribe subscriptionID timeout c s
    = Ret (Inl (timeout_text (Duration_String (default_timeout 15 timeout)) ''autopilot_unsubscribe'')) s'"
proof -
  obtain pc mx where reg: "registerRPC subscriptionID (c_mux s) = (pc, mx)" by fastforce
  then have call: "mx_calls mx pc = Some \<lparr>pc_id = subscriptionID, pc_replyCh = [], pc_errCh = []\<rparr>"
    by (auto simp: registerRPC_def Let_def)
  let ?s1 = "s\<lparr>c_mux := mx, e_sent := e_sent s @ [MEnvelope (NewUnsubscribeEnvelope subscriptionID)]\<rparr>"
  have snd: "SendMessage None (MEnvelope (NewUnsubscribeEnvelope subscriptionID)) (s\<lparr>c_mux := mx\<rparr>) = Ret None ?s1"
    using assms(1) SendMessage_ok [of "s\<lparr>c_mux := mx\<rparr>"] by (simp add: can_send_def)
  have "await_unsub d pc (replicate n (Ready b, []) @ [(TimedOut, [])]) ?s1
      = await_unsub d pc [(TimedOut, [])] (?s1\<lparr>e_reads := []\<rparr>)" for d
    by (rule await_unsub_failed_reads [where rid = subscriptionID])
       (use assms(1-4) call in \<open>simp_all add: can_send_def\<close>)
  then show ?thesis
    using assms(5-8) reg snd
    by (simp add: AutopilotUnsubscribe_def after_rpc_def route_env_def route_all_def)
qed

theorem unsubscribe_ignores_lost_connection_witness:
  "\<exists>s'. AutopilotUnsubscribe ''s1'' 0
      \<lparr>in_cx = None, in_uuid = [], in_early = [], in_d = [], in_rounds = replicate 3 (Ready False, []) @ [(TimedOut, [])]\<rparr>
      (start_env ((NewClient ''u'' None)\<lparr>c_conn := Some 0\<rparr>) (replicate 3 RError) [])
    = Ret (Inl (timeout_text (Duration_String (default_timeout 15 0)) ''autopilot_unsubscribe'')) s'"
  by (rule unsubscribe_ignores_lost_connection [where n = 3 and b = False])
     (simp_all add: can_send_def start_env_def NewClient_def Client.defs env.defs)

end
