(* ===== verification/Command_Api.thy ===== *)
theory Command_Api
  imports Job_Api
begin

text \<open>
  Helper functions over a client (helpers.go) and the command client (command_client.go), which
  opens a connection of its own for every request. \<open>fmt\<close> prints a map inside an error message.
\<close>

section \<open>Helpers\<close>

definition CheckDaemonStatus :: "int \<Rightarrow> call_in \<Rightarrow> env \<Rightarrow> (env, goerr + gmap) run" where
  "CheckDaemonStatus timeout c s =
     timed_rpc (default_timeout 5 timeout) c
         [(''type'', GStr ''daemon_status'')]
         ''daemon_status_response'' s"

text \<open>Deferred \<^verbatim>\<open>Close\<close>: it runs when the function returns, and its error is dropped.\<close>

definition then_Close :: "(env, 'a) run \<Rightarrow> (env, 'a) run" where
  "then_Close r = andThen r (\<lambda>x s. andThen (Close s) (\<lambda>_ s1. Ret x s1))"

text \<open>The inputs of the connection and of the call, and the results of the client's reads and
  writes.\<close>

definition IsDaemonLive ::
  "string \<Rightarrow> int \<Rightarrow> connect_in \<Rightarrow> call_in \<Rightarrow> read list \<Rightarrow> bool list \<Rightarrow> (env, bool) run" where
  "IsDaemonLive wsURL timeout ci c rs ws =
     andThen (Connect ci (start_env (NewClient wsURL None) rs ws))
       (\<lambda>err s1. case err of
          Some _ \<Rightarrow> Ret False s1
        | None \<Rightarrow>
            then_Close (andThen (CheckDaemonStatus (default_timeout 5 timeout) c s1)
              (\<lambda>r s2. Ret (case r of Inl _ \<Rightarrow> False | Inr _ \<Rightarrow> True) s2)))"

definition RequestDaemonShutdown :: "(gmap \<Rightarrow> string) \<Rightarrow> int \<Rightarrow> call_in \<Rightarrow> env \<Rightarrow> (env, goerr option) run" where
  "RequestDaemonShutdown fmt timeout c s =
     andThen (timed_rpc (default_timeout 10 timeout) c [(''type'', GStr ''daemon_shutdown'')] ''shutdown_ack'' s)
       (\<lambda>r s1. case r of
          Inl e \<Rightarrow> Ret (Some (ErrWrap ''shutdown failed'' e)) s1
        | Inr resp \<Rightarrow>
            if asString (midx resp ''status'') \<noteq> ''acknowledged''
            then Ret (Some (ErrText (''shutdown not acknowledged: '' @ fmt resp))) s1
            else Ret None s1)"

definition skills_of :: "gmap \<Rightarrow> gobj list option" where
  "skills_of resp =
     (case as_list (midx resp ''skills'') of
        None \<Rightarrow> None
      | Some skillsList \<Rightarrow> Some (List.map_filter as_map skillsList))"

definition FetchSkillsCatalog :: "int \<Rightarrow> call_in \<Rightarrow> env \<Rightarrow> (env, goerr + gobj list option) run" where
  "FetchSkillsCatalog timeout c s =
     andThen (timed_rpc (default_timeout 15 timeout) c [(''type'', GStr ''skills_list'')] ''skills_list_response'' s)
       (\<lambda>r s1. case r of Inl e \<Rightarrow> Ret (Inl e) s1 | Inr resp \<Rightarrow> Ret (Inr (skills_of resp)) s1)"

definition FetchConfigSection :: "string \<Rightarrow> int \<Rightarrow> call_in \<Rightarrow> env \<Rightarrow> (env, goerr + gmap) run" where
  "FetchConfigSection sect timeout c s =
     andThen (timed_rpc (default_timeout 5 timeout) c [(''type'', GStr ''config_get''), (''section'', GStr sect)]
                ''config_get_response'' s)
       (\<lambda>r s1. case r of
          Inl e \<Rightarrow> Ret (Inl e) s1
        | Inr resp \<Rightarrow>
            (case as_map (midx resp sect) of
               Some m \<Rightarrow> Ret (Inr (Some m)) s1
             | None \<Rightarrow> Ret (Inr resp) s1))"

definition RequestDaemonConfigReload :: "(gmap \<Rightarrow> string) \<Rightarrow> int \<Rightarrow> call_in \<Rightarrow> env \<Rightarrow> (env, goerr option) run" where
  "RequestDaemonConfigReload fmt timeout c s =
     andThen (timed_rpc (default_timeout 10 timeout) c [(''type'', GStr ''config_reload'')] ''config_reload_response'' s)
       (\<lambda>r s1. case r of
          Inl e \<Rightarrow> Ret (Some (ErrWrap ''config reload failed'' e)) s1
        | Inr resp \<Rightarrow>
            (let status = asString (midx resp ''status'')
             in if status \<noteq> ''reloaded'' \<and> status \<noteq> ''ok''
                then Ret (Some (ErrText (''config reload not acknowledged: '' @ fmt resp))) s1
                else Ret None s1))"

definition FetchLoopHistory :: "string \<Rightarrow> int \<Rightarrow> call_in \<Rightarrow> env \<Rightarrow> (env, goerr + gmap) run" where
  "FetchLoopHistory loopID timeout c s =
     (if loopID = [] then Ret (Inl (ErrText ''loop_id is required'')) s
      else timed_rpc (default_timeout 15 timeout) c
         [(''type'', GStr ''loop_history_fetch''), (''loop_id'', GStr loopID)]
         ''loop_history_fetch_response'' s)"

definition FetchLoopExecutionState :: "string \<Rightarrow> int \<Rightarrow> call_in \<Rightarrow> env \<Rightarrow> (env, goerr + gmap) run" where
  "FetchLoopExecutionState loopID timeout c s =
     (if loopID = [] then Ret (Inl (ErrText ''loop_id is required'')) s
      else timed_rpc (default_timeout 15 timeout) c
         [(''type'', GStr ''loop_execution_state_fetch''), (''loop_id'', GStr loopID)]
         ''loop_execution_state_fetch_response'' s)"

definition RequestAuth :: "string \<Rightarrow> string \<Rightarrow> int \<Rightarrow> call_in \<Rightarrow> env \<Rightarrow> (env, goerr + gmap) run" where
  "RequestAuth accessKey secretKey timeout c s =
     timed_rpc (default_timeout 15 timeout) c
         [(''type'', GStr ''auth''), (''access_key'', GStr accessKey), (''secret_key'', GStr secretKey)]
         ''auth_response'' s"

definition RequestAuthRefresh :: "string \<Rightarrow> int \<Rightarrow> call_in \<Rightarrow> env \<Rightarrow> (env, goerr + gmap) run" where
  "RequestAuthRefresh refreshToken timeout c s =
     timed_rpc (default_timeout 15 timeout) c
         [(''type'', GStr ''auth_refresh''), (''refresh_token'', GStr refreshToken)]
         ''auth_refresh_response'' s"

definition helper_LoopTree :: "string \<Rightarrow> int \<Rightarrow> call_in \<Rightarrow> env \<Rightarrow> (env, goerr + gmap) run" where
  "helper_LoopTree loopID timeout c s =
     (if loopID = [] then Ret (Inl (ErrText ''loop_id is required'')) s
      else timed_rpc (default_timeout 15 timeout) c
         [(''type'', GStr ''loop_tree''), (''loop_id'', GStr loopID)]
         ''loop_tree_response'' s)"

definition helper_LoopPrune :: "string \<Rightarrow> int \<Rightarrow> int \<Rightarrow> call_in \<Rightarrow> env \<Rightarrow> (env, goerr + gmap) run" where
  "helper_LoopPrune loopID keepLatest timeout c s =
     (if loopID = [] then Ret (Inl (ErrText ''loop_id is required'')) s
      else timed_rpc (default_timeout 15 timeout) c
         (put_if (keepLatest > 0) ''keep_latest'' (GInt keepLatest)
          [(''type'', GStr ''loop_prune''), (''loop_id'', GStr loopID)])
         ''loop_prune_response'' s)"

definition helper_LoopDelete :: "string \<Rightarrow> int \<Rightarrow> call_in \<Rightarrow> env \<Rightarrow> (env, goerr + gmap) run" where
  "helper_LoopDelete loopID timeout c s =
     (if loopID = [] then Ret (Inl (ErrText ''loop_id is required'')) s
      else timed_rpc (default_timeout 15 timeout) c
         [(''type'', GStr ''loop_delete''), (''loop_id'', GStr loopID)]
         ''loop_delete_response'' s)"

definition helper_LoopReattach :: "string \<Rightarrow> int \<Rightarrow> call_in \<Rightarrow> env \<Rightarrow> (env, goerr + gmap) run" where
  "helper_LoopReattach loopID timeout c s =
     (if loopID = [] then Ret (Inl (ErrText ''loop_id is required'')) s
      else timed_rpc (default_timeout 15 timeout) c
         [(''type'', GStr ''loop_reattach''), (''loop_id'', GStr loopID)]
         ''loop_reattach_response'' s)"

section \<open>The command client\<close>

record CommandClient =
  cc_URL :: string
  cc_Timeout :: int

definition NewCommandClient :: "string \<Rightarrow> int \<Rightarrow> CommandClient" where
  "NewCommandClient url timeout = \<lparr>cc_URL = url, cc_Timeout = default_timeout 30 timeout\<rparr>"

text \<open>The inputs of one command: its connection attempts, its call, and the results of the reads
  and writes of its client.\<close>

record cmd_in =
  cm_attempts :: "(connect_in \<times> goerr option) list"
  cm_call :: call_in
  cm_reads :: "read list"
  cm_writes :: "bool list"

definition withClient ::
  "CommandClient \<Rightarrow> cmd_in \<Rightarrow> (env \<Rightarrow> (env, goerr + gmap) run) \<Rightarrow> (env, goerr + gmap) run" where
  "withClient cc i fn =
     then_Close
       (andThen (ConnectWithRetries 5 (cm_attempts i) (start_env (NewClient (cc_URL cc) None) (cm_reads i) (cm_writes i)))
          (\<lambda>(k, err) s1. case err of Some e \<Rightarrow> Ret (Inl e) s1 | None \<Rightarrow> fn s1))"

definition cc_JobCreate :: "string \<Rightarrow> string \<Rightarrow> CommandClient \<Rightarrow> cmd_in \<Rightarrow> (env, goerr + gmap) run" where
  "cc_JobCreate goal workspace cc i = withClient cc i (JobCreate goal workspace (cc_Timeout cc) (cm_call i))"

definition cc_JobStatus :: "string \<Rightarrow> CommandClient \<Rightarrow> cmd_in \<Rightarrow> (env, goerr + gmap) run" where
  "cc_JobStatus jobID cc i = withClient cc i (JobStatus jobID (cc_Timeout cc) (cm_call i))"

definition cc_JobPause :: "string \<Rightarrow> CommandClient \<Rightarrow> cmd_in \<Rightarrow> (env, goerr + gmap) run" where
  "cc_JobPause jobID cc i = withClient cc i (JobPause jobID (cc_Timeout cc) (cm_call i))"

definition cc_JobResume :: "string \<Rightarrow> CommandClient \<Rightarrow> cmd_in \<Rightarrow> (env, goerr + gmap) run" where
  "cc_JobResume jobID cc i = withClient cc i (JobResume jobID (cc_Timeout cc) (cm_call i))"

definition cc_JobCancel :: "string \<Rightarrow> CommandClient \<Rightarrow> cmd_in \<Rightarrow> (env, goerr + gmap) run" where
  "cc_JobCancel jobID cc i = withClient cc i (JobCancel jobID (cc_Timeout cc) (cm_call i))"

definition cc_JobDag :: "string \<Rightarrow> CommandClient \<Rightarrow> cmd_in \<Rightarrow> (env, goerr + gmap) run" where
  "cc_JobDag jobID cc i = withClient cc i (JobDag jobID (cc_Timeout cc) (cm_call i))"

definition cc_JobGuidance :: "string \<Rightarrow> string \<Rightarrow> string \<Rightarrow> CommandClient \<Rightarrow> cmd_in \<Rightarrow> (env, goerr + gmap) run" where
  "cc_JobGuidance jobID text goalID cc i = withClient cc i (JobGuidance jobID text goalID (cc_Timeout cc) (cm_call i))"

definition cc_AutopilotStatus :: "CommandClient \<Rightarrow> cmd_in \<Rightarrow> (env, goerr + gmap) run" where
  "cc_AutopilotStatus cc i = withClient cc i (AutopilotStatus (cc_Timeout cc) (cm_call i))"

definition cc_AutopilotSubmit :: "string \<Rightarrow> int \<Rightarrow> string \<Rightarrow> CommandClient \<Rightarrow> cmd_in \<Rightarrow> (env, goerr + gmap) run" where
  "cc_AutopilotSubmit description priority workspace cc i = withClient cc i (AutopilotSubmit description priority workspace (cc_Timeout cc) (cm_call i))"

definition cc_AutopilotListGoals :: "CommandClient \<Rightarrow> cmd_in \<Rightarrow> (env, goerr + gmap) run" where
  "cc_AutopilotListGoals cc i = withClient cc i (AutopilotListGoals (cc_Timeout cc) (cm_call i))"

definition cc_AutopilotGetGoal :: "string \<Rightarrow> CommandClient \<Rightarrow> cmd_in \<Rightarrow> (env, goerr + gmap) run" where
  "cc_AutopilotGetGoal goalID cc i = withClient cc i (AutopilotGetGoal goalID (cc_Timeout cc) (cm_call i))"

definition cc_AutopilotCancelGoal :: "string \<Rightarrow> CommandClient \<Rightarrow> cmd_in \<Rightarrow> (env, goerr + gmap) run" where
  "cc_AutopilotCancelGoal goalID cc i = withClient cc i (AutopilotCancelGoal goalID (cc_Timeout cc) (cm_call i))"

definition cc_AutopilotCancelAll :: "CommandClient \<Rightarrow> cmd_in \<Rightarrow> (env, goerr + gmap) run" where
  "cc_AutopilotCancelAll cc i = withClient cc i (AutopilotCancelAll (cc_Timeout cc) (cm_call i))"

definition cc_AutopilotWake :: "CommandClient \<Rightarrow> cmd_in \<Rightarrow> (env, goerr + gmap) run" where
  "cc_AutopilotWake cc i = withClient cc i (AutopilotWake (cc_Timeout cc) (cm_call i))"

definition cc_AutopilotDream :: "CommandClient \<Rightarrow> cmd_in \<Rightarrow> (env, goerr + gmap) run" where
  "cc_AutopilotDream cc i = withClient cc i (AutopilotDream (cc_Timeout cc) (cm_call i))"

definition cc_AutopilotResume :: "string \<Rightarrow> CommandClient \<Rightarrow> cmd_in \<Rightarrow> (env, goerr + gmap) run" where
  "cc_AutopilotResume goalID cc i = withClient cc i (AutopilotResume goalID (cc_Timeout cc) (cm_call i))"

definition cc_AutopilotListJobs :: "CommandClient \<Rightarrow> cmd_in \<Rightarrow> (env, goerr + gmap) run" where
  "cc_AutopilotListJobs cc i = withClient cc i (AutopilotListJobs (cc_Timeout cc) (cm_call i))"

definition cc_AutopilotGetJob :: "string \<Rightarrow> CommandClient \<Rightarrow> cmd_in \<Rightarrow> (env, goerr + gmap) run" where
  "cc_AutopilotGetJob jobID cc i = withClient cc i (AutopilotGetJob jobID (cc_Timeout cc) (cm_call i))"

definition cc_AutopilotTop :: "CommandClient \<Rightarrow> cmd_in \<Rightarrow> (env, goerr + gmap) run" where
  "cc_AutopilotTop cc i = withClient cc i (AutopilotTop (cc_Timeout cc) (cm_call i))"

definition cc_CronAdd :: "string \<Rightarrow> int \<Rightarrow> CommandClient \<Rightarrow> cmd_in \<Rightarrow> (env, goerr + gmap) run" where
  "cc_CronAdd text priority cc i = withClient cc i (CronAdd text priority (cc_Timeout cc) (cm_call i))"

definition cc_CronList :: "string \<Rightarrow> CommandClient \<Rightarrow> cmd_in \<Rightarrow> (env, goerr + gmap) run" where
  "cc_CronList status cc i = withClient cc i (CronList status (cc_Timeout cc) (cm_call i))"

definition cc_CronShow :: "string \<Rightarrow> CommandClient \<Rightarrow> cmd_in \<Rightarrow> (env, goerr + gmap) run" where
  "cc_CronShow jobID cc i = withClient cc i (CronShow jobID (cc_Timeout cc) (cm_call i))"

definition cc_CronCancel :: "string \<Rightarrow> CommandClient \<Rightarrow> cmd_in \<Rightarrow> (env, goerr + gmap) run" where
  "cc_CronCancel jobID cc i = withClient cc i (CronCancel jobID (cc_Timeout cc) (cm_call i))"

definition cc_Request :: "string \<Rightarrow> gmap \<Rightarrow> CommandClient \<Rightarrow> cmd_in \<Rightarrow> (env, goerr + gmap) run" where
  "cc_Request mth params cc i =
     (if mth = [] then
        Ret (Inl (ErrText ''method is required'')) (start_env (NewClient (cc_URL cc) None) (cm_reads i) (cm_writes i))
      else
        (let payload = copy_into (case params of Some ps \<Rightarrow> ps | None \<Rightarrow> []) [(''type'', GStr mth)]
         in withClient cc i (timed_rpc (cc_Timeout cc) (cm_call i) payload (mth @ ''_response''))))"

text \<open>The commands, as one type.\<close>

datatype cc_op =
    Cc_JobCreate string string
  | Cc_JobStatus string
  | Cc_JobPause string
  | Cc_JobResume string
  | Cc_JobCancel string
  | Cc_JobDag string
  | Cc_JobGuidance string string string
  | Cc_AutopilotStatus
  | Cc_AutopilotSubmit string int string
  | Cc_AutopilotListGoals
  | Cc_AutopilotGetGoal string
  | Cc_AutopilotCancelGoal string
  | Cc_AutopilotCancelAll
  | Cc_AutopilotWake
  | Cc_AutopilotDream
  | Cc_AutopilotResume string
  | Cc_AutopilotListJobs
  | Cc_AutopilotGetJob string
  | Cc_AutopilotTop
  | Cc_CronAdd string int
  | Cc_CronList string
  | Cc_CronShow string
  | Cc_CronCancel string
  | Cc_Request string gmap

fun cc_exec :: "cc_op \<Rightarrow> CommandClient \<Rightarrow> cmd_in \<Rightarrow> (env, goerr + gmap) run" where
  "cc_exec (Cc_JobCreate a b) = cc_JobCreate a b"
| "cc_exec (Cc_JobStatus a) = cc_JobStatus a"
| "cc_exec (Cc_JobPause a) = cc_JobPause a"
| "cc_exec (Cc_JobResume a) = cc_JobResume a"
| "cc_exec (Cc_JobCancel a) = cc_JobCancel a"
| "cc_exec (Cc_JobDag a) = cc_JobDag a"
| "cc_exec (Cc_JobGuidance a b x) = cc_JobGuidance a b x"
| "cc_exec Cc_AutopilotStatus = cc_AutopilotStatus"
| "cc_exec (Cc_AutopilotSubmit a b x) = cc_AutopilotSubmit a b x"
| "cc_exec Cc_AutopilotListGoals = cc_AutopilotListGoals"
| "cc_exec (Cc_AutopilotGetGoal a) = cc_AutopilotGetGoal a"
| "cc_exec (Cc_AutopilotCancelGoal a) = cc_AutopilotCancelGoal a"
| "cc_exec Cc_AutopilotCancelAll = cc_AutopilotCancelAll"
| "cc_exec Cc_AutopilotWake = cc_AutopilotWake"
| "cc_exec Cc_AutopilotDream = cc_AutopilotDream"
| "cc_exec (Cc_AutopilotResume a) = cc_AutopilotResume a"
| "cc_exec Cc_AutopilotListJobs = cc_AutopilotListJobs"
| "cc_exec (Cc_AutopilotGetJob a) = cc_AutopilotGetJob a"
| "cc_exec Cc_AutopilotTop = cc_AutopilotTop"
| "cc_exec (Cc_CronAdd a b) = cc_CronAdd a b"
| "cc_exec (Cc_CronList a) = cc_CronList a"
| "cc_exec (Cc_CronShow a) = cc_CronShow a"
| "cc_exec (Cc_CronCancel a) = cc_CronCancel a"
| "cc_exec (Cc_Request a b) = cc_Request a b"

section \<open>Lemmas\<close>

lemma SendMessage_link:
  assumes "SendMessage cx m s = Ret e s'"
  shows "link_kept s s'"
  using assms
  by (auto simp: SendMessage_def write_msg_def andThen_Ret_iff signalDisconnect_def link_kept_def Let_def
      split: if_splits option.splits list.splits bool.splits once.splits)

lemma link_Ret: "link_kept s (run_env r) \<Longrightarrow> r = Ret x s' \<Longrightarrow> link_kept s s'"
  by simp

lemma RequestResponse_link:
  assumes "RequestResponse cx uuid early d its payload rt s = Ret r s'"
  shows "link_kept s s'"
proof (cases "asString (idx payload ''type'') = []")
  case False
  let ?env = "NewRequestEnvelopeWithID uuid (asString (idx payload ''type'')) (Some (request_params payload))
      (asString (idx payload ''request_id''))"
  obtain err s1 where s1: "SendMessage cx (MEnvelope ?env) s = Ret err s1"
    using assms False by (auto simp: RequestResponse_def Let_def andThen_Ret_iff)
  note k1 = SendMessage_link [OF s1]
  show ?thesis
  proof (cases err)
    case None
    obtain pc mx where reg: "registerRPC (env_ID ?env) (c_mux (route_env early s1)) = (pc, mx)" by fastforce
    let ?s2 = "(route_env early s1)\<lparr>c_mux := mx\<rparr>"
    have "after_rpc pc (env_ID ?env) (await_rpc frame_daemon_error rt d (env_ID ?env) pc its ?s2) = Ret r s'"
      using assms False s1 None reg by (simp add: RequestResponse_def Let_def)
    from link_Ret [OF link.keeps_after_rpc [OF link.keeps_await] this] have "link_kept ?s2 s'" .
    with k1 show ?thesis by (simp add: link_kept_def route_env_def)
  qed (use assms False s1 k1 in \<open>auto simp: RequestResponse_def Let_def\<close>)
qed (use assms in \<open>simp add: RequestResponse_def Let_def link_kept_def\<close>)

lemma timed_rpc_link: "timed_rpc t c p rt s = Ret r s' \<Longrightarrow> link_kept s s'"
  unfolding timed_rpc_def rpc_call_def by (rule RequestResponse_link)

lemma hs_loop_link: "hs_loop d its s = Ret r s' \<Longrightarrow> link_kept s s'"
proof (induction its arbitrary: s)
  case (Cons it its)
  show ?case
  proof (cases "hr_before it")
    case True
    then obtain x s1 where rd: "ReadEvent s = Ret x s1" using Cons.prems by (auto simp: andThen_Ret_iff)
    have k1: "link_kept s s1" using link.keeps_ReadEvent [of s] rd by simp
    show ?thesis
    proof (cases "\<exists>ev. x = Inr (Some ev)")
      case True
      then obtain ev where x: "x = Inr (Some ev)" by blast
      obtain act s2 where f: "hs_frame ev s1 = (act, s2)" by fastforce
      have k2: "link_kept s1 s2"
        using f by (auto simp: hs_frame_def record_ack_def link_kept_def Let_def split: if_splits option.splits)
      note k12 = link.keeps_trans [OF k1 k2]
      show ?thesis
      proof (cases act)
        case HsContinue
        then have "hs_loop d its s2 = Ret r s'" using Cons.prems \<open>hr_before it\<close> rd x f by simp
        from link.keeps_trans [OF k12 Cons.IH [OF this]] show ?thesis .
      next
        case (HsRetry label)
        show ?thesis
        proof (cases "hr_pause it")
          case None
          then obtain err s3 where snd: "send_init (hr_send it) s2 = Ret err s3"
            using Cons.prems \<open>hr_before it\<close> rd x f HsRetry by (auto simp: andThen_Ret_iff)
          have k3: "link_kept s s3" using link.keeps_trans [OF k12] SendMessage_link snd by (simp add: send_init_def)
          show ?thesis
          proof (cases err)
            case None
            then have "hs_loop d its s3 = Ret r s'"
              using Cons.prems \<open>hr_before it\<close> rd x f HsRetry \<open>hr_pause it = None\<close> snd by simp
            from link.keeps_trans [OF k3 Cons.IH [OF this]] show ?thesis .
          qed (use Cons.prems \<open>hr_before it\<close> rd x f HsRetry \<open>hr_pause it = None\<close> snd k3 in auto)
        qed (use Cons.prems \<open>hr_before it\<close> rd x f HsRetry k12 in auto)
      qed (use Cons.prems \<open>hr_before it\<close> rd x f k12 in auto)
    qed (use Cons.prems True rd k1 in \<open>auto split: sum.splits option.splits\<close>)
  qed (use Cons.prems in \<open>simp add: link_kept_def\<close>)
qed simp

text \<open>The sockets a list of connection attempts opened.\<close>

definition dialled :: "(connect_in \<times> goerr option) list \<Rightarrow> nat list" where
  "dialled ins = List.map_filter (\<lambda>(ci, _). case ci_dial ci of Inr conn \<Rightarrow> Some conn | Inl _ \<Rightarrow> None) ins"

lemma dialled_simps [simp]:
  "dialled [] = []"
  "dialled ((ci, e) # ins) = (case ci_dial ci of Inr conn \<Rightarrow> conn # dialled ins | Inl _ \<Rightarrow> dialled ins)"
  by (simp_all add: dialled_def map_filter_simps split: sum.split)

text \<open>The sockets opened are those closed, and the one in use after a success.\<close>

definition accounted :: "(connect_in \<times> goerr option) list \<Rightarrow> env \<Rightarrow> env \<Rightarrow> bool" where
  "accounted ins s s' \<longleftrightarrow>
     (case c_conn s' of Some conn \<Rightarrow> [conn] | None \<Rightarrow> []) @ e_closedConns s' = rev (dialled ins) @ e_closedConns s"

lemma Connect_accounted:
  assumes "Connect ci s = Ret r s'" "c_conn s = None"
  shows "accounted [(ci, e)] s s' \<and> (r = None \<longleftrightarrow> c_conn s' \<noteq> None) \<and> (c_conn s' \<noteq> None \<longrightarrow> \<not> c_closed s')"
proof (cases "ci_dial ci")
  case (Inr conn)
  then obtain err s1 where h: "handshake (ci_cx ci) (ci_d ci) (ci_rounds ci) (fresh_conn conn s) = Ret err s1"
    using assms(1) by (auto simp: Connect_def andThen_Ret_iff split: if_splits)
  then have "link_kept (fresh_conn conn s) s1"
    by (auto simp: handshake_def send_init_def andThen_Ret_iff
        intro: SendMessage_link link.keeps_trans [OF SendMessage_link hs_loop_link] split: option.splits)
  then show ?thesis
    using assms(1) Inr h
    by (cases err) (auto simp: Connect_def accounted_def link_kept_def fresh_conn_def split: if_splits)
qed (use assms in \<open>auto simp: Connect_def accounted_def\<close>)

lemma retry_accounted:
  "retry_loop maxr n le ins s = Ret (k, r) s' \<Longrightarrow> c_conn s = None \<Longrightarrow>
   k \<le> n \<and> accounted (take k ins) s s' \<and> (r = None \<longleftrightarrow> c_conn s' \<noteq> None) \<and> (c_conn s' \<noteq> None \<longrightarrow> \<not> c_closed s')"
proof (induction n arbitrary: le ins s k)
  case (Suc n)
  obtain ci cx ins' where ins: "ins = (ci, cx) # ins'" using Suc.prems(1) by (cases ins) auto
  obtain err s1 where c: "Connect ci s = Ret err s1" using Suc.prems(1) by (auto simp: ins andThen_Ret_iff)
  note a1 = Connect_accounted [OF c Suc.prems(2), of cx]
  show ?case
  proof (cases "err \<noteq> None \<and> cx = None")
    case True
    then obtain e k' where k': "retry_loop maxr n (Some e) ins' s1 = Ret (k', r) s'" "k = Suc k'"
      using Suc.prems(1) c by (auto simp: ins andThen_Ret_iff)
    have "c_conn s1 = None" using a1 True by auto
    from Suc.IH [OF k'(1) this] a1 k'(2) this show ?thesis
      by (auto simp: ins accounted_def split: sum.splits)
  qed (use Suc.prems(1) c a1 in \<open>auto simp: ins\<close>)
qed (auto simp: accounted_def)

lemma Close_accounted:
  assumes "Close s1 = Ret e s'" "accounted ins s s1" "c_conn s1 \<noteq> None \<longrightarrow> \<not> c_closed s1"
  shows "c_conn s' = None \<and> e_closedConns s' = rev (dialled ins) @ e_closedConns s"
  using assms
  by (auto simp: Close_def accounted_def signalDisconnect_def andThen_Ret_iff Let_def
      split: if_splits once.splits)

lemma withClient_closes:
  assumes run: "withClient cc i fn = Ret r s'" and fn: "\<And>s x s'. fn s = Ret x s' \<Longrightarrow> link_kept s s'"
  shows "c_conn s' = None \<and> (\<exists>k\<le>5. e_closedConns s' = rev (dialled (take k (cm_attempts i))))"
proof -
  let ?s = "start_env (NewClient (cc_URL cc) None) (cm_reads i) (cm_writes i)"
  have s: "c_conn ?s = None" "e_closedConns ?s = []"
    by (simp_all add: start_env_def NewClient_def Client.defs env.defs)
  from run obtain k err s1 where c: "retry_loop 5 5 None (cm_attempts i) ?s = Ret (k, err) s1"
    by (auto simp: withClient_def then_Close_def andThen_Ret_iff ConnectWithRetries_def)
  note a = retry_accounted [OF c s(1)]
  obtain s2 u where s2: "Close s2 = Ret u s'" "link_kept s1 s2"
    using run c fn
    by (cases err) (auto simp: withClient_def then_Close_def andThen_Ret_iff ConnectWithRetries_def link_kept_def)
  then have "accounted (take k (cm_attempts i)) ?s s2" "c_conn s2 \<noteq> None \<longrightarrow> \<not> c_closed s2"
    using a by (auto simp: accounted_def link_kept_def)
  from Close_accounted [OF s2(1) this] a s(2) show ?thesis by auto
qed

lemmas cc_defs = cc_JobCreate_def cc_JobStatus_def cc_JobPause_def cc_JobResume_def cc_JobCancel_def cc_JobDag_def cc_JobGuidance_def cc_AutopilotStatus_def cc_AutopilotSubmit_def cc_AutopilotListGoals_def cc_AutopilotGetGoal_def cc_AutopilotCancelGoal_def cc_AutopilotCancelAll_def cc_AutopilotWake_def cc_AutopilotDream_def cc_AutopilotResume_def cc_AutopilotListJobs_def cc_AutopilotGetJob_def cc_AutopilotTop_def cc_CronAdd_def cc_CronList_def cc_CronShow_def cc_CronCancel_def cc_Request_def
lemmas cc_fn_defs = JobCreate_def JobStatus_def JobPause_def JobResume_def JobCancel_def JobDag_def JobGuidance_def AutopilotStatus_def AutopilotSubmit_def AutopilotListGoals_def AutopilotGetGoal_def AutopilotCancelGoal_def AutopilotCancelAll_def AutopilotWake_def AutopilotDream_def AutopilotResume_def AutopilotListJobs_def AutopilotGetJob_def AutopilotTop_def CronAdd_def CronList_def CronShow_def CronCancel_def AutopilotTopWithTerminal_def

lemma command_fn:
  "cc_exec op cc i = Ret r s' \<Longrightarrow> \<nexists>params. op = Cc_Request [] params \<Longrightarrow>
   \<exists>fn. withClient cc i fn = Ret r s' \<and> (\<forall>s x s'. fn s = Ret x s' \<longrightarrow> link_kept s s')"
  by (cases op; simp only: cc_exec.simps cc_defs cc_op.inject Let_def if_False split: if_splits;
      (rule exI, rule conjI, assumption)?;
      auto simp: cc_fn_defs Let_def link_kept_def split: if_splits dest!: timed_rpc_link)

section \<open>Properties\<close>


definition demo_cmd :: cmd_in where
  "demo_cmd =
     \<lparr>cm_attempts = [(\<lparr>ci_dial = Inr 7, ci_cx = None, ci_d = ''20s'',
                       ci_rounds = [\<lparr>hr_before = True, hr_pause = None, hr_send = None\<rparr>]\<rparr>, Some (ErrText ''done''))],
      cm_call = \<lparr>in_cx = None, in_uuid = ''u1'', in_early = [], in_d = [], in_rounds = []\<rparr>,
      cm_reads = [RError], cm_writes = []\<rparr>"


end
