(* ===== verification/Api_Spec.thy ===== *)
theory Api_Spec
  imports Command_Api
begin

text \<open>
  What the request methods have in common. The operations are the methods with their arguments;
  \<open>api_exec\<close> runs one. The laws cover all of them: what is written to the wire, which arguments are
  refused before anything is sent, and that sending and calling build the same request.
\<close>

section \<open>Operations\<close>

datatype req_op =
    Op_ListSkills
  | Op_ListModels
  | Op_InvokeSkill string string string
  | Op_CommandRequest string string gmap
  | Op_LoopList gmap int
  | Op_LoopGet string bool
  | Op_LoopTree string string
  | Op_LoopPrune string int bool
  | Op_LoopDelete string
  | Op_LoopReattach string
  | Op_LoopNew
  | Op_LoopInput string string
  | Op_CommandClear string
  | Op_CommandExit string
  | Op_CommandQuit string
  | Op_CommandDetach string
  | Op_CommandCancel string
  | Op_CommandMemory string
  | Op_CommandPolicy
  | Op_CommandHistory string
  | Op_CommandConfig
  | Op_CommandReview string
  | Op_CommandPlan string
  | Op_CommandAutopilotDashboard string
  | Op_LoopMessages string int int bool
  | Op_LoopStateGet string
  | Op_LoopStateUpdate string gmap string
  | Op_MCPStatus
  | Op_LoopHistoryFetch string
  | Op_LoopExecutionStateFetch string

fun req_exec :: "req_op \<Rightarrow> int \<Rightarrow> call_in \<Rightarrow> env \<Rightarrow> (env, goerr + gmap) run" where
  "req_exec Op_ListSkills = ListSkills"
| "req_exec Op_ListModels = ListModels"
| "req_exec (Op_InvokeSkill a b x) = InvokeSkill a b x"
| "req_exec (Op_CommandRequest a b x) = CommandRequest a b x"
| "req_exec (Op_LoopList a b) = LoopList a b"
| "req_exec (Op_LoopGet a b) = LoopGet a b"
| "req_exec (Op_LoopTree a b) = LoopTree a b"
| "req_exec (Op_LoopPrune a b x) = LoopPrune a b x"
| "req_exec (Op_LoopDelete a) = LoopDelete a"
| "req_exec (Op_LoopReattach a) = LoopReattach a"
| "req_exec Op_LoopNew = LoopNew"
| "req_exec (Op_LoopInput a b) = LoopInput a b"
| "req_exec (Op_CommandClear a) = CommandClear a"
| "req_exec (Op_CommandExit a) = CommandExit a"
| "req_exec (Op_CommandQuit a) = CommandQuit a"
| "req_exec (Op_CommandDetach a) = CommandDetach a"
| "req_exec (Op_CommandCancel a) = CommandCancel a"
| "req_exec (Op_CommandMemory a) = CommandMemory a"
| "req_exec Op_CommandPolicy = CommandPolicy"
| "req_exec (Op_CommandHistory a) = CommandHistory a"
| "req_exec Op_CommandConfig = CommandConfig"
| "req_exec (Op_CommandReview a) = CommandReview a"
| "req_exec (Op_CommandPlan a) = CommandPlan a"
| "req_exec (Op_CommandAutopilotDashboard a) = CommandAutopilotDashboard a"
| "req_exec (Op_LoopMessages a b x y) = LoopMessages a b x y"
| "req_exec (Op_LoopStateGet a) = LoopStateGet a"
| "req_exec (Op_LoopStateUpdate a b x) = LoopStateUpdate a b x"
| "req_exec Op_MCPStatus = MCPStatus"
| "req_exec (Op_LoopHistoryFetch a) = LoopHistoryFetch a"
| "req_exec (Op_LoopExecutionStateFetch a) = LoopExecutionStateFetch a"

fun req_method :: "req_op \<Rightarrow> string" where
  "req_method Op_ListSkills = ''skills_list''"
| "req_method Op_ListModels = ''models_list''"
| "req_method (Op_InvokeSkill a b x) = ''invoke_skill''"
| "req_method (Op_CommandRequest a b x) = ''command_request''"
| "req_method (Op_LoopList a b) = ''loop_list''"
| "req_method (Op_LoopGet a b) = ''loop_get''"
| "req_method (Op_LoopTree a b) = ''loop_tree''"
| "req_method (Op_LoopPrune a b x) = ''loop_prune''"
| "req_method (Op_LoopDelete a) = ''loop_delete''"
| "req_method (Op_LoopReattach a) = ''loop_reattach''"
| "req_method Op_LoopNew = ''loop_new''"
| "req_method (Op_LoopInput a b) = ''loop_input''"
| "req_method (Op_CommandClear a) = ''command_request''"
| "req_method (Op_CommandExit a) = ''command_request''"
| "req_method (Op_CommandQuit a) = ''command_request''"
| "req_method (Op_CommandDetach a) = ''command_request''"
| "req_method (Op_CommandCancel a) = ''command_request''"
| "req_method (Op_CommandMemory a) = ''command_request''"
| "req_method Op_CommandPolicy = ''command_request''"
| "req_method (Op_CommandHistory a) = ''command_request''"
| "req_method Op_CommandConfig = ''command_request''"
| "req_method (Op_CommandReview a) = ''command_request''"
| "req_method (Op_CommandPlan a) = ''command_request''"
| "req_method (Op_CommandAutopilotDashboard a) = ''command_request''"
| "req_method (Op_LoopMessages a b x y) = ''loop_messages''"
| "req_method (Op_LoopStateGet a) = ''loop_state_get''"
| "req_method (Op_LoopStateUpdate a b x) = ''loop_state_update''"
| "req_method Op_MCPStatus = ''mcp_status''"
| "req_method (Op_LoopHistoryFetch a) = ''loop_history_fetch''"
| "req_method (Op_LoopExecutionStateFetch a) = ''loop_execution_state_fetch''"

datatype job_op =
    Op_JobCreate string string
  | Op_JobStatus string
  | Op_JobPause string
  | Op_JobResume string
  | Op_JobCancel string
  | Op_JobDag string
  | Op_JobGuidance string string string
  | Op_CronAdd string int
  | Op_CronList string
  | Op_CronShow string
  | Op_CronCancel string
  | Op_AutopilotStatus
  | Op_AutopilotSubmit string int string
  | Op_AutopilotListGoals
  | Op_AutopilotGetGoal string
  | Op_AutopilotCancelGoal string
  | Op_AutopilotCancelAll
  | Op_AutopilotWake
  | Op_AutopilotDream
  | Op_AutopilotResume string
  | Op_AutopilotListJobs
  | Op_AutopilotGetJob string
  | Op_AutopilotTop
  | Op_AutopilotTopWithTerminal bool

fun job_exec :: "job_op \<Rightarrow> int \<Rightarrow> call_in \<Rightarrow> env \<Rightarrow> (env, goerr + gmap) run" where
  "job_exec (Op_JobCreate a b) = JobCreate a b"
| "job_exec (Op_JobStatus a) = JobStatus a"
| "job_exec (Op_JobPause a) = JobPause a"
| "job_exec (Op_JobResume a) = JobResume a"
| "job_exec (Op_JobCancel a) = JobCancel a"
| "job_exec (Op_JobDag a) = JobDag a"
| "job_exec (Op_JobGuidance a b x) = JobGuidance a b x"
| "job_exec (Op_CronAdd a b) = CronAdd a b"
| "job_exec (Op_CronList a) = CronList a"
| "job_exec (Op_CronShow a) = CronShow a"
| "job_exec (Op_CronCancel a) = CronCancel a"
| "job_exec Op_AutopilotStatus = AutopilotStatus"
| "job_exec (Op_AutopilotSubmit a b x) = AutopilotSubmit a b x"
| "job_exec Op_AutopilotListGoals = AutopilotListGoals"
| "job_exec (Op_AutopilotGetGoal a) = AutopilotGetGoal a"
| "job_exec (Op_AutopilotCancelGoal a) = AutopilotCancelGoal a"
| "job_exec Op_AutopilotCancelAll = AutopilotCancelAll"
| "job_exec Op_AutopilotWake = AutopilotWake"
| "job_exec Op_AutopilotDream = AutopilotDream"
| "job_exec (Op_AutopilotResume a) = AutopilotResume a"
| "job_exec Op_AutopilotListJobs = AutopilotListJobs"
| "job_exec (Op_AutopilotGetJob a) = AutopilotGetJob a"
| "job_exec Op_AutopilotTop = AutopilotTop"
| "job_exec (Op_AutopilotTopWithTerminal a) = AutopilotTopWithTerminal a"

fun job_method :: "job_op \<Rightarrow> string" where
  "job_method (Op_JobCreate a b) = ''job_create''"
| "job_method (Op_JobStatus a) = ''job_status''"
| "job_method (Op_JobPause a) = ''job_pause''"
| "job_method (Op_JobResume a) = ''job_resume''"
| "job_method (Op_JobCancel a) = ''job_cancel''"
| "job_method (Op_JobDag a) = ''job_dag''"
| "job_method (Op_JobGuidance a b x) = ''job_guidance''"
| "job_method (Op_CronAdd a b) = ''cron_add''"
| "job_method (Op_CronList a) = ''cron_list''"
| "job_method (Op_CronShow a) = ''cron_show''"
| "job_method (Op_CronCancel a) = ''cron_cancel''"
| "job_method Op_AutopilotStatus = ''autopilot_status''"
| "job_method (Op_AutopilotSubmit a b x) = ''autopilot_submit''"
| "job_method Op_AutopilotListGoals = ''autopilot_list_goals''"
| "job_method (Op_AutopilotGetGoal a) = ''autopilot_get_goal''"
| "job_method (Op_AutopilotCancelGoal a) = ''autopilot_cancel_goal''"
| "job_method Op_AutopilotCancelAll = ''autopilot_cancel_all''"
| "job_method Op_AutopilotWake = ''autopilot_wake''"
| "job_method Op_AutopilotDream = ''autopilot_dream''"
| "job_method (Op_AutopilotResume a) = ''autopilot_resume''"
| "job_method Op_AutopilotListJobs = ''autopilot_list_jobs''"
| "job_method (Op_AutopilotGetJob a) = ''autopilot_get_job''"
| "job_method Op_AutopilotTop = ''autopilot_top''"
| "job_method (Op_AutopilotTopWithTerminal a) = ''autopilot_top''"

datatype hlp_op =
    Op_CheckDaemonStatus
  | Op_FetchLoopHistory string
  | Op_FetchLoopExecutionState string
  | Op_RequestAuth string string
  | Op_RequestAuthRefresh string
  | Op_helper_LoopTree string
  | Op_helper_LoopPrune string int
  | Op_helper_LoopDelete string
  | Op_helper_LoopReattach string

fun hlp_exec :: "hlp_op \<Rightarrow> int \<Rightarrow> call_in \<Rightarrow> env \<Rightarrow> (env, goerr + gmap) run" where
  "hlp_exec Op_CheckDaemonStatus = CheckDaemonStatus"
| "hlp_exec (Op_FetchLoopHistory a) = FetchLoopHistory a"
| "hlp_exec (Op_FetchLoopExecutionState a) = FetchLoopExecutionState a"
| "hlp_exec (Op_RequestAuth a b) = RequestAuth a b"
| "hlp_exec (Op_RequestAuthRefresh a) = RequestAuthRefresh a"
| "hlp_exec (Op_helper_LoopTree a) = helper_LoopTree a"
| "hlp_exec (Op_helper_LoopPrune a b) = helper_LoopPrune a b"
| "hlp_exec (Op_helper_LoopDelete a) = helper_LoopDelete a"
| "hlp_exec (Op_helper_LoopReattach a) = helper_LoopReattach a"

fun hlp_method :: "hlp_op \<Rightarrow> string" where
  "hlp_method Op_CheckDaemonStatus = ''daemon_status''"
| "hlp_method (Op_FetchLoopHistory a) = ''loop_history_fetch''"
| "hlp_method (Op_FetchLoopExecutionState a) = ''loop_execution_state_fetch''"
| "hlp_method (Op_RequestAuth a b) = ''auth''"
| "hlp_method (Op_RequestAuthRefresh a) = ''auth_refresh''"
| "hlp_method (Op_helper_LoopTree a) = ''loop_tree''"
| "hlp_method (Op_helper_LoopPrune a b) = ''loop_prune''"
| "hlp_method (Op_helper_LoopDelete a) = ''loop_delete''"
| "hlp_method (Op_helper_LoopReattach a) = ''loop_reattach''"

fun job_refusal :: "job_op \<Rightarrow> string option" where
  "job_refusal (Op_JobCreate a b) = (if a = [] then Some ''goal is required'' else None)"
| "job_refusal (Op_JobStatus a) = (if a = [] then Some ''job_id is required'' else None)"
| "job_refusal (Op_JobPause a) = (if a = [] then Some ''job_id is required'' else None)"
| "job_refusal (Op_JobResume a) = (if a = [] then Some ''job_id is required'' else None)"
| "job_refusal (Op_JobCancel a) = (if a = [] then Some ''job_id is required'' else None)"
| "job_refusal (Op_JobDag a) = (if a = [] then Some ''job_id is required'' else None)"
| "job_refusal (Op_JobGuidance a b x) = (if a = [] then Some ''job_id is required'' else (if b = [] then Some ''text is required'' else None))"
| "job_refusal (Op_CronAdd a b) = (if a = [] then Some ''text is required'' else None)"
| "job_refusal (Op_CronShow a) = (if a = [] then Some ''job_id is required'' else None)"
| "job_refusal (Op_CronCancel a) = (if a = [] then Some ''job_id is required'' else None)"
| "job_refusal (Op_AutopilotSubmit a b x) = (if a = [] then Some ''description is required'' else None)"
| "job_refusal (Op_AutopilotGetGoal a) = (if a = [] then Some ''goal_id is required'' else None)"
| "job_refusal (Op_AutopilotCancelGoal a) = (if a = [] then Some ''goal_id is required'' else None)"
| "job_refusal (Op_AutopilotResume a) = (if a = [] then Some ''goal_id is required'' else None)"
| "job_refusal (Op_AutopilotGetJob a) = (if a = [] then Some ''job_id is required'' else None)"
| "job_refusal _ = None"

fun hlp_refusal :: "hlp_op \<Rightarrow> string option" where
  "hlp_refusal (Op_FetchLoopHistory a) = (if a = [] then Some ''loop_id is required'' else None)"
| "hlp_refusal (Op_FetchLoopExecutionState a) = (if a = [] then Some ''loop_id is required'' else None)"
| "hlp_refusal (Op_helper_LoopTree a) = (if a = [] then Some ''loop_id is required'' else None)"
| "hlp_refusal (Op_helper_LoopPrune a b) = (if a = [] then Some ''loop_id is required'' else None)"
| "hlp_refusal (Op_helper_LoopDelete a) = (if a = [] then Some ''loop_id is required'' else None)"
| "hlp_refusal (Op_helper_LoopReattach a) = (if a = [] then Some ''loop_id is required'' else None)"
| "hlp_refusal _ = None"

datatype api_op = Req req_op | Job job_op | Hlp hlp_op

fun api_exec :: "api_op \<Rightarrow> int \<Rightarrow> call_in \<Rightarrow> env \<Rightarrow> (env, goerr + gmap) run" where
  "api_exec (Req op) = req_exec op"
| "api_exec (Job op) = job_exec op"
| "api_exec (Hlp op) = hlp_exec op"

fun api_method :: "api_op \<Rightarrow> string" where
  "api_method (Req op) = req_method op"
| "api_method (Job op) = job_method op"
| "api_method (Hlp op) = hlp_method op"

fun api_refusal :: "api_op \<Rightarrow> string option" where
  "api_refusal (Req op) = None"
| "api_refusal (Job op) = job_refusal op"
| "api_refusal (Hlp op) = hlp_refusal op"

text \<open>The sending methods, and the method that sends the same request and waits for its answer.\<close>

datatype send_op =
    Op_SendDaemonStatus
  | Op_SendDaemonShutdown
  | Op_SendConfigGet string
  | Op_SendSkillsList
  | Op_SendModelsList
  | Op_SendInvokeSkill string string
  | Op_SendLoopList gmap int
  | Op_SendLoopGet string bool
  | Op_SendLoopTree string string
  | Op_SendLoopPrune string int
  | Op_SendLoopDelete string
  | Op_SendLoopReattach string
  | Op_SendLoopNew string string string bool
  | Op_SendLoopMessages string int int bool
  | Op_SendLoopStateGet string
  | Op_SendLoopStateUpdate string gmap string
  | Op_SendMCPStatus
  | Op_SendLoopHistoryFetch string
  | Op_SendLoopExecutionStateFetch string
  | Op_SendConfigReload
  | Op_SendAuth string string
  | Op_SendAuthRefresh string
  | Op_SendCronAdd string int
  | Op_SendCronList string
  | Op_SendCronShow string
  | Op_SendCronCancel string
  | Op_SendJobCreate string string
  | Op_SendJobStatus string
  | Op_SendJobPause string
  | Op_SendJobResume string
  | Op_SendJobCancel string
  | Op_SendJobDag string

fun send_exec :: "send_op \<Rightarrow> string list \<Rightarrow> send_in \<Rightarrow> env \<Rightarrow> (env, goerr option) run" where
  "send_exec Op_SendDaemonStatus = SendDaemonStatus"
| "send_exec Op_SendDaemonShutdown = SendDaemonShutdown"
| "send_exec (Op_SendConfigGet a) = SendConfigGet a"
| "send_exec Op_SendSkillsList = SendSkillsList"
| "send_exec Op_SendModelsList = SendModelsList"
| "send_exec (Op_SendInvokeSkill a b) = SendInvokeSkill a b"
| "send_exec (Op_SendLoopList a b) = SendLoopList a b"
| "send_exec (Op_SendLoopGet a b) = SendLoopGet a b"
| "send_exec (Op_SendLoopTree a b) = SendLoopTree a b"
| "send_exec (Op_SendLoopPrune a b) = SendLoopPrune a b"
| "send_exec (Op_SendLoopDelete a) = SendLoopDelete a"
| "send_exec (Op_SendLoopReattach a) = SendLoopReattach a"
| "send_exec (Op_SendLoopNew a b x y) = SendLoopNew a b x y"
| "send_exec (Op_SendLoopMessages a b x y) = SendLoopMessages a b x y"
| "send_exec (Op_SendLoopStateGet a) = SendLoopStateGet a"
| "send_exec (Op_SendLoopStateUpdate a b x) = SendLoopStateUpdate a b x"
| "send_exec Op_SendMCPStatus = SendMCPStatus"
| "send_exec (Op_SendLoopHistoryFetch a) = SendLoopHistoryFetch a"
| "send_exec (Op_SendLoopExecutionStateFetch a) = SendLoopExecutionStateFetch a"
| "send_exec Op_SendConfigReload = SendConfigReload"
| "send_exec (Op_SendAuth a b) = SendAuth a b"
| "send_exec (Op_SendAuthRefresh a) = SendAuthRefresh a"
| "send_exec (Op_SendCronAdd a b) = SendCronAdd a b"
| "send_exec (Op_SendCronList a) = SendCronList a"
| "send_exec (Op_SendCronShow a) = SendCronShow a"
| "send_exec (Op_SendCronCancel a) = SendCronCancel a"
| "send_exec (Op_SendJobCreate a b) = SendJobCreate a b"
| "send_exec (Op_SendJobStatus a) = SendJobStatus a"
| "send_exec (Op_SendJobPause a) = SendJobPause a"
| "send_exec (Op_SendJobResume a) = SendJobResume a"
| "send_exec (Op_SendJobCancel a) = SendJobCancel a"
| "send_exec (Op_SendJobDag a) = SendJobDag a"

fun counterpart :: "send_op \<Rightarrow> api_op option" where
  "counterpart Op_SendDaemonStatus = Some (Hlp Op_CheckDaemonStatus)"
| "counterpart Op_SendDaemonShutdown = None"
| "counterpart (Op_SendConfigGet a) = None"
| "counterpart Op_SendSkillsList = Some (Req Op_ListSkills)"
| "counterpart Op_SendModelsList = Some (Req Op_ListModels)"
| "counterpart (Op_SendInvokeSkill a b) = (if b \<noteq> [] then Some (Req (Op_InvokeSkill a b [])) else None)"
| "counterpart (Op_SendLoopList a b) = Some (Req (Op_LoopList a b))"
| "counterpart (Op_SendLoopGet a b) = Some (Req (Op_LoopGet a b))"
| "counterpart (Op_SendLoopTree a b) = Some (Req (Op_LoopTree a b))"
| "counterpart (Op_SendLoopPrune a b) = Some (Hlp (Op_helper_LoopPrune a b))"
| "counterpart (Op_SendLoopDelete a) = Some (Req (Op_LoopDelete a))"
| "counterpart (Op_SendLoopReattach a) = Some (Req (Op_LoopReattach a))"
| "counterpart (Op_SendLoopNew a b x y) = (if a = [] \<and> b = [] \<and> x = [] \<and> \<not> y then Some (Req Op_LoopNew) else None)"
| "counterpart (Op_SendLoopMessages a b x y) = Some (Req (Op_LoopMessages a b x y))"
| "counterpart (Op_SendLoopStateGet a) = Some (Req (Op_LoopStateGet a))"
| "counterpart (Op_SendLoopStateUpdate a b x) = Some (Req (Op_LoopStateUpdate a b x))"
| "counterpart Op_SendMCPStatus = Some (Req Op_MCPStatus)"
| "counterpart (Op_SendLoopHistoryFetch a) = Some (Req (Op_LoopHistoryFetch a))"
| "counterpart (Op_SendLoopExecutionStateFetch a) = Some (Req (Op_LoopExecutionStateFetch a))"
| "counterpart Op_SendConfigReload = None"
| "counterpart (Op_SendAuth a b) = Some (Hlp (Op_RequestAuth a b))"
| "counterpart (Op_SendAuthRefresh a) = Some (Hlp (Op_RequestAuthRefresh a))"
| "counterpart (Op_SendCronAdd a b) = Some (Job (Op_CronAdd a b))"
| "counterpart (Op_SendCronList a) = Some (Job (Op_CronList a))"
| "counterpart (Op_SendCronShow a) = Some (Job (Op_CronShow a))"
| "counterpart (Op_SendCronCancel a) = Some (Job (Op_CronCancel a))"
| "counterpart (Op_SendJobCreate a b) = Some (Job (Op_JobCreate a b))"
| "counterpart (Op_SendJobStatus a) = Some (Job (Op_JobStatus a))"
| "counterpart (Op_SendJobPause a) = Some (Job (Op_JobPause a))"
| "counterpart (Op_SendJobResume a) = Some (Job (Op_JobResume a))"
| "counterpart (Op_SendJobCancel a) = Some (Job (Op_JobCancel a))"
| "counterpart (Op_SendJobDag a) = Some (Job (Op_JobDag a))"


section \<open>Lemmas\<close>

text \<open>Every operation refuses its arguments, or is one timed request with a well-formed payload.\<close>

definition is_request :: "string \<Rightarrow> string option \<Rightarrow> (int \<Rightarrow> call_in \<Rightarrow> env \<Rightarrow> (env, goerr + gmap) run) \<Rightarrow> bool" where
  "is_request mth refusal f \<longleftrightarrow>
     (case refusal of
        Some e \<Rightarrow> (\<forall>t c s. f t c s = Ret (Inl (ErrText e)) s)
      | None \<Rightarrow> (\<exists>p rt g. wf_payload mth p \<and> (\<forall>t c s. f t c s = timed_rpc (g t) c p rt s)))"

lemma is_requestI:
  "(\<And>t c s. f t c s = timed_rpc (g t) c p rt s) \<Longrightarrow> wf_payload mth p \<Longrightarrow> is_request mth None f"
  unfolding is_request_def by auto

lemma wf_obj_Cons [simp]: "wf_obj ((k, v) # m) \<longleftrightarrow> k \<notin> fst ` set m \<and> wf_obj m"
  by (auto simp: wf_obj_def)

lemmas req_defs = ListSkills_def ListModels_def InvokeSkill_def CommandRequest_def LoopList_def LoopGet_def LoopTree_def LoopPrune_def LoopDelete_def LoopReattach_def LoopNew_def LoopInput_def CommandClear_def CommandExit_def CommandQuit_def CommandDetach_def CommandCancel_def CommandMemory_def CommandPolicy_def CommandHistory_def CommandConfig_def CommandReview_def CommandPlan_def CommandAutopilotDashboard_def LoopMessages_def LoopStateGet_def LoopStateUpdate_def MCPStatus_def LoopHistoryFetch_def LoopExecutionStateFetch_def
lemmas job_defs = JobCreate_def JobStatus_def JobPause_def JobResume_def JobCancel_def JobDag_def JobGuidance_def CronAdd_def CronList_def CronShow_def CronCancel_def AutopilotStatus_def AutopilotSubmit_def AutopilotListGoals_def AutopilotGetGoal_def AutopilotCancelGoal_def AutopilotCancelAll_def AutopilotWake_def AutopilotDream_def AutopilotResume_def AutopilotListJobs_def AutopilotGetJob_def AutopilotTop_def AutopilotTopWithTerminal_def
lemmas hlp_defs = CheckDaemonStatus_def FetchLoopHistory_def FetchLoopExecutionState_def RequestAuth_def RequestAuthRefresh_def helper_LoopTree_def helper_LoopPrune_def helper_LoopDelete_def helper_LoopReattach_def

lemmas send_defs = SendDaemonStatus_def SendDaemonShutdown_def SendConfigGet_def SendSkillsList_def SendModelsList_def SendInvokeSkill_def SendLoopList_def SendLoopGet_def SendLoopTree_def SendLoopPrune_def SendLoopDelete_def SendLoopReattach_def SendLoopNew_def SendLoopMessages_def SendLoopStateGet_def SendLoopStateUpdate_def SendMCPStatus_def SendLoopHistoryFetch_def SendLoopExecutionStateFetch_def SendConfigReload_def SendAuth_def SendAuthRefresh_def SendCronAdd_def SendCronList_def SendCronShow_def SendCronCancel_def SendJobCreate_def SendJobStatus_def SendJobPause_def SendJobResume_def SendJobCancel_def SendJobDag_def

lemmas payload_simps = wf_payload_def idx_put_if has_key_put_if loop_get_payload_def

lemma req_is_request: "is_request (req_method op) None (req_exec op)"
  by (cases op; simp only: req_exec.simps req_method.simps; rule is_requestI, simp only: req_defs, simp add: payload_simps)

lemma is_request_guard:
  "is_request mth (if b then Some e else r) f \<longleftrightarrow>
     (if b then \<forall>t c s. f t c s = Ret (Inl (ErrText e)) s else is_request mth r f)"
  by (simp add: is_request_def)

lemma is_request_Some: "is_request mth (Some e) f \<longleftrightarrow> (\<forall>t c s. f t c s = Ret (Inl (ErrText e)) s)"
  by (simp add: is_request_def)

lemma job_is_request: "is_request (job_method op) (job_refusal op) (job_exec op)"
  by (cases op; simp only: job_exec.simps job_method.simps job_refusal.simps;
      (split if_split)?; (intro conjI impI)?; (split if_split)?; (intro conjI impI)?;
      (simp add: is_request_Some job_defs; fail)?;
      rule is_requestI, simp only: job_defs if_False not_False_eq_True Let_def, simp add: payload_simps)

lemma hlp_is_request: "is_request (hlp_method op) (hlp_refusal op) (hlp_exec op)"
  by (cases op; simp only: hlp_exec.simps hlp_method.simps hlp_refusal.simps;
      (split if_split)?; (intro conjI impI)?;
      (simp add: is_request_Some hlp_defs; fail)?;
      rule is_requestI, simp only: hlp_defs if_False not_False_eq_True, simp add: payload_simps)

lemma api_is_request: "is_request (api_method op) (api_refusal op) (api_exec op)"
  by (cases op) (simp_all add: req_is_request job_is_request hlp_is_request)

text \<open>A sending method and its counterpart build the same envelope.\<close>

definition same_request :: "send_op \<Rightarrow> api_op \<Rightarrow> bool" where
  "same_request so op \<longleftrightarrow>
     (\<exists>p rt g. wf_payload (api_method op) p \<and> (\<forall>t c s. api_exec op t c s = timed_rpc (g t) c p rt s)
       \<and> (\<forall>d s. send_exec so [] d s = send_request d (api_method op) (request_params p) [] s))"

lemma same_requestI:
  "(\<And>t c s. api_exec op t c s = timed_rpc (g t) c p rt s) \<Longrightarrow> wf_payload (api_method op) p \<Longrightarrow>
   (\<And>d s. send_exec so [] d s = send_request d (api_method op) (request_params p) [] s) \<Longrightarrow> same_request so op"
  unfolding same_request_def by blast

lemma counterpart_same: "counterpart so = Some op \<Longrightarrow> api_refusal op = None \<Longrightarrow> same_request so op"
  by (cases so; simp split: if_splits; clarify?; rule same_requestI,
      simp add: req_defs job_defs hlp_defs split: if_splits, simp add: payload_simps,
      simp add: send_defs loop_get_payload_def optRequestID_def put_if_def request_params_def split: if_splits)

section \<open>Properties\<close>





end
