(* ===== verification/Daemon_Session.thy ===== *)
theory Daemon_Session
  imports Command_Api Turn_Gate Chunk_Filter
begin

text \<open>
  The dual-socket session of the application kit (appkit/daemon_session.go): a stream client for
  turns and a second client for metadata requests. The mutexes of the session are held within one
  operation only, so a state between operations has none of them. The clock, the contexts and the
  consumer of the chunk channel are inputs of every iteration. \<open>fm\<close> and \<open>fmt\<close> print maps inside
  error messages.
\<close>

section \<open>State\<close>

record TurnEventStats =
  ts_Total :: int
  ts_Messages :: int
  ts_Updates :: int
  ts_Custom :: int
  ts_Skipped :: int
  ts_FilteredEarly :: int
  ts_ToolCalls :: int
  ts_ToolResults :: int
  ts_TextChunks :: int
  ts_HeartbeatsDropped :: int
  ts_PostIdleDrained :: int
  ts_InboundDropped :: int

definition NewTurnEventStats :: TurnEventStats where
  "NewTurnEventStats =
     \<lparr>ts_Total = 0, ts_Messages = 0, ts_Updates = 0, ts_Custom = 0, ts_Skipped = 0, ts_FilteredEarly = 0,
      ts_ToolCalls = 0, ts_ToolResults = 0, ts_TextChunks = 0, ts_HeartbeatsDropped = 0,
      ts_PostIdleDrained = 0, ts_InboundDropped = 0\<rparr>"

record TurnChunk =
  tc_Namespace :: "gval list option"
  tc_Mode :: string
  tc_Data :: gval

type_synonym EarlyDropFn = "gval list option \<Rightarrow> string \<Rightarrow> gval \<Rightarrow> bool"

record DaemonSession =
  ds_wsURL :: string
  ds_workspace :: string
  ds_streamDelivery :: string
  ds_postIdleDrain :: int
  ds_cfg :: Config
  ds_client :: env
  ds_rpcClient :: env
  ds_loopID :: string
  ds_rpcConnected :: bool
  ds_closed :: bool
  ds_earlyDropFn :: EarlyDropFn
  ds_TurnEventStats :: TurnEventStats
  ds_LastTurnEndState :: string
  ds_LastTurnCancelSeen :: bool
  ds_LastTurnErrorMessage :: string

record DaemonSessionOptions =
  dso_Workspace :: string
  dso_StreamDelivery :: string
  dso_PostIdleDrain :: int
  dso_Config :: "Config option"
  dso_EarlyDropFn :: "EarlyDropFn option"

definition DefaultPostIdleDrain :: int where "DefaultPostIdleDrain = 500000000"

text \<open>The results of the reads and writes of the two sockets are arguments.\<close>

definition NewDaemonSession ::
  "string \<Rightarrow> DaemonSessionOptions option \<Rightarrow> read list \<Rightarrow> bool list \<Rightarrow> read list \<Rightarrow> bool list \<Rightarrow> DaemonSession" where
  "NewDaemonSession wsURL opts rs ws rs' ws' =
     (let op = (case opts of
                  None \<Rightarrow> \<lparr>dso_Workspace = [], dso_StreamDelivery = [], dso_PostIdleDrain = 0,
                            dso_Config = None, dso_EarlyDropFn = None\<rparr>
                | Some x \<Rightarrow> x);
          cfg = (case dso_Config op of None \<Rightarrow> DefaultConfig | Some c \<Rightarrow> c);
          delivery = (if dso_StreamDelivery op = [] then ''adaptive'' else dso_StreamDelivery op);
          drain = (if dso_PostIdleDrain op \<le> 0 then DefaultPostIdleDrain else dso_PostIdleDrain op);
          dropFn = (case dso_EarlyDropFn op of None \<Rightarrow> ShouldDropStreamChunkEarly | Some f \<Rightarrow> f)
      in \<lparr>ds_wsURL = wsURL, ds_workspace = dso_Workspace op, ds_streamDelivery = delivery,
          ds_postIdleDrain = drain, ds_cfg = cfg,
          ds_client = start_env (NewClient wsURL (Some cfg)) rs ws,
          ds_rpcClient = start_env (NewClient wsURL (Some cfg)) rs' ws',
          ds_loopID = [], ds_rpcConnected = False, ds_closed = False, ds_earlyDropFn = dropFn,
          ds_TurnEventStats = NewTurnEventStats, ds_LastTurnEndState = [],
          ds_LastTurnCancelSeen = False, ds_LastTurnErrorMessage = []\<rparr>)"

text \<open>Operations of one of the two clients, as operations of the session.\<close>

definition on_client :: "(env \<Rightarrow> (env, 'a) run) \<Rightarrow> DaemonSession \<Rightarrow> (DaemonSession, 'a) run" where
  "on_client f d =
     (case f (ds_client d) of
        Ret x s \<Rightarrow> Ret x (d\<lparr>ds_client := s\<rparr>)
      | Hang s \<Rightarrow> Hang (d\<lparr>ds_client := s\<rparr>)
      | Crash s \<Rightarrow> Crash (d\<lparr>ds_client := s\<rparr>))"

definition on_rpc :: "(env \<Rightarrow> (env, 'a) run) \<Rightarrow> DaemonSession \<Rightarrow> (DaemonSession, 'a) run" where
  "on_rpc f d =
     (case f (ds_rpcClient d) of
        Ret x s \<Rightarrow> Ret x (d\<lparr>ds_rpcClient := s\<rparr>)
      | Hang s \<Rightarrow> Hang (d\<lparr>ds_rpcClient := s\<rparr>)
      | Crash s \<Rightarrow> Crash (d\<lparr>ds_rpcClient := s\<rparr>))"

section \<open>Connecting\<close>

text \<open>The inputs of bootstrapping: the calls of \<^verbatim>\<open>loop_new\<close> and of the subscription.\<close>

type_synonym boot_in = "call_in \<times> call_in"

definition bootstrapLoop :: "(gmap \<Rightarrow> string) \<Rightarrow> boot_in \<Rightarrow> string \<Rightarrow> DaemonSession \<Rightarrow> (DaemonSession, goerr + gmap) run" where
  "bootstrapLoop fmt b resumeLoopID d =
     (let sessionOpts = (if ds_workspace d \<noteq> []
                         then Some \<lparr>lso_ClientWorkspace = ds_workspace d, lso_UserID = [], lso_ClientWorkspaceID = []\<rparr>
                         else None)
      in andThen (on_client (BootstrapLoopSession fmt (fst b) (snd b) resumeLoopID (ds_workspace d) (Some (ds_cfg d)) sessionOpts) d)
           (\<lambda>r d1. case r of
              Inl e \<Rightarrow> Ret (Inl e) d1
            | Inr loopID \<Rightarrow>
                Ret (Inr (Some [(''type'', GStr ''status''), (''loop_id'', GStr loopID), (''state'', GStr ''ready'')]))
                  (d1\<lparr>ds_loopID := loopID\<rparr>)))"

definition ds_Connect ::
  "(gmap \<Rightarrow> string) \<Rightarrow> (connect_in \<times> goerr option) list \<Rightarrow> boot_in \<Rightarrow> string \<Rightarrow> DaemonSession \<Rightarrow> (DaemonSession, goerr + gmap) run" where
  "ds_Connect fmt ins b resumeLoopID d =
     andThen (on_client (ConnectWithRetries 40 ins) d)
       (\<lambda>(k, err) d1. case err of Some e \<Rightarrow> Ret (Inl e) d1 | None \<Rightarrow> bootstrapLoop fmt b resumeLoopID d1)"

definition NewLoop :: "(gmap \<Rightarrow> string) \<Rightarrow> boot_in \<Rightarrow> DaemonSession \<Rightarrow> (DaemonSession, goerr + gmap) run" where
  "NewLoop fmt b d = bootstrapLoop fmt b [] d"

definition SwitchLoop :: "(gmap \<Rightarrow> string) \<Rightarrow> boot_in \<Rightarrow> string \<Rightarrow> DaemonSession \<Rightarrow> (DaemonSession, goerr + gmap) run" where
  "SwitchLoop fmt b loopID d = bootstrapLoop fmt b loopID d"

definition is_stale_error :: "goerr \<Rightarrow> bool" where
  "is_stale_error e = (case e of StaleLoopError _ _ \<Rightarrow> True | _ \<Rightarrow> False)"

text \<open>The inputs of a reconnection: the attempt of \<^verbatim>\<open>Reconnect\<close>, the retries after it failed, the
  three calls of the probe and those of the bootstrap.\<close>

record ensure_in =
  en_reconnect :: connect_in
  en_retries :: "(connect_in \<times> goerr option) list"
  en_probe :: "call_in \<times> call_in \<times> call_in"
  en_boot :: boot_in

definition drop_rpc :: "DaemonSession \<Rightarrow> (DaemonSession, unit) run" where
  "drop_rpc d =
     (if ds_rpcConnected d then andThen (on_rpc Close d) (\<lambda>_ d1. Ret () (d1\<lparr>ds_rpcConnected := False\<rparr>))
      else Ret () d)"

definition reconnect_stream :: "ensure_in \<Rightarrow> DaemonSession \<Rightarrow> (DaemonSession, goerr option) run" where
  "reconnect_stream i d =
     andThen (on_client (Reconnect (en_reconnect i)) d)
       (\<lambda>err d1. case err of
          None \<Rightarrow> Ret None d1
        | Some _ \<Rightarrow>
            andThen (on_client Close d1)
              (\<lambda>_ d2. andThen (on_client (ConnectWithRetries 40 (en_retries i)) d2) (\<lambda>(k, err2) d3. Ret err2 d3)))"

definition EnsureConnected :: "(gmap \<Rightarrow> string) \<Rightarrow> ensure_in \<Rightarrow> DaemonSession \<Rightarrow> (DaemonSession, goerr option) run" where
  "EnsureConnected fmt i d =
     andThen (on_client IsConnectionAlive d)
       (\<lambda>alive d0.
          if alive then Ret None d0
          else
            (let resume = ds_loopID d0;
                 boot = (\<lambda>res d'. andThen (bootstrapLoop fmt (en_boot i) res d')
                                   (\<lambda>r d''. Ret (case r of Inl e \<Rightarrow> Some e | Inr _ \<Rightarrow> None) d''))
             in andThen (drop_rpc d0)
                  (\<lambda>_ d1. andThen (reconnect_stream i d1)
                     (\<lambda>err d2. case err of
                        Some e \<Rightarrow> Ret (Some e) d2
                      | None \<Rightarrow>
                          if resume \<noteq> [] then
                            (case en_probe i of
                               (c1, c2, c3) \<Rightarrow>
                                 andThen (on_client (ReattachAndProbe c1 c2 c3 resume) d2)
                                   (\<lambda>perr d3. case perr of
                                      None \<Rightarrow> Ret None (d3\<lparr>ds_loopID := resume\<rparr>)
                                    | Some e \<Rightarrow>
                                        (case errors_as is_stale_error e of
                                           Some _ \<Rightarrow> boot [] d3
                                         | None \<Rightarrow> Ret (Some e) d3)))
                          else boot resume d2))))"

definition ds_Close :: "DaemonSession \<Rightarrow> (DaemonSession, goerr option) run" where
  "ds_Close d =
     (if ds_closed d then Ret None d
      else
        andThen (on_client Close (d\<lparr>ds_closed := True\<rparr>))
          (\<lambda>_ d1. andThen (on_rpc Close d1) (\<lambda>_ d2. Ret None (d2\<lparr>ds_rpcConnected := False\<rparr>))))"

definition Detach :: "goerr option \<Rightarrow> DaemonSession \<Rightarrow> (DaemonSession, goerr option) run" where
  "Detach cx d =
     andThen (on_client IsConnected d)
       (\<lambda>b d1. if \<not> b then Ret None d1 else on_client (Notify cx ''disconnect'' (Some [])) d1)"

section \<open>Turns\<close>

record SendTurnOptions =
  sto_PreferredSubagent :: string
  sto_Model :: string
  sto_ModelParams :: gmap
  sto_Attachments :: "gobj list option"
  sto_ClarificationMode :: string
  sto_InteractionMode :: string
  sto_ClarificationAnswer :: bool
  sto_IntentHint :: string

definition turn_options :: "string \<Rightarrow> SendTurnOptions option \<Rightarrow> InputOption list" where
  "turn_options loopID opts =
     [WithLoopID loopID] @
     (case opts of
        None \<Rightarrow> []
      | Some op \<Rightarrow>
          (if sto_PreferredSubagent op \<noteq> [] then [WithSubagent (sto_PreferredSubagent op)] else []) @
          (if sto_Model op \<noteq> [] then [WithModel (sto_Model op)] else []) @
          (if sto_ModelParams op \<noteq> None then [WithModelParams (sto_ModelParams op)] else []) @
          (if sto_Attachments op \<noteq> None then [WithAttachments (sto_Attachments op)] else []) @
          (if sto_ClarificationMode op \<noteq> [] then [WithClarificationMode (sto_ClarificationMode op)] else []) @
          (if sto_InteractionMode op \<noteq> [] then [WithInteractionMode (sto_InteractionMode op)] else []) @
          (if sto_ClarificationAnswer op then [WithClarificationAnswer] else []) @
          (if sto_IntentHint op \<noteq> [] then [WithIntentHint (sto_IntentHint op)] else []))"

definition SendTurn :: "goerr option \<Rightarrow> string \<Rightarrow> SendTurnOptions option \<Rightarrow> DaemonSession \<Rightarrow> (DaemonSession, goerr option) run" where
  "SendTurn cx text opts d =
     (if ds_loopID d = [] then Ret (Some (ErrText ''no active loop session'')) d
      else on_client (SendInput cx text (turn_options (ds_loopID d) opts)) d)"

definition ds_InvokeSkill :: "string \<Rightarrow> string \<Rightarrow> string \<Rightarrow> call_in \<Rightarrow> DaemonSession \<Rightarrow> (DaemonSession, goerr + gmap) run" where
  "ds_InvokeSkill skill args interactionMode c d = on_client (InvokeSkill skill args interactionMode (sec 120) c) d"

definition CancelActiveTurn :: "goerr option \<Rightarrow> DaemonSession \<Rightarrow> (DaemonSession, goerr option) run" where
  "CancelActiveTurn cx d = on_client (Notify cx ''slash_command'' (Some [(''cmd'', GStr ''/cancel'')])) d"

section \<open>Metadata requests\<close>

definition ensureRPCConnectedLocked :: "(connect_in \<times> goerr option) list \<Rightarrow> DaemonSession \<Rightarrow> (DaemonSession, goerr option) run" where
  "ensureRPCConnectedLocked ins d =
     andThen (if ds_rpcConnected d then on_rpc IsConnected d else Ret False d)
       (\<lambda>ok d0.
          if ok then Ret None d0
          else
            andThen (on_rpc (ConnectWithRetries 5 ins) d0)
              (\<lambda>(k, err) d1. case err of Some e \<Rightarrow> Ret (Some e) d1 | None \<Rightarrow> Ret None (d1\<lparr>ds_rpcConnected := True\<rparr>)))"

definition ds_ListLoops ::
  "(connect_in \<times> goerr option) list \<Rightarrow> int \<Rightarrow> call_in \<Rightarrow> DaemonSession \<Rightarrow> (DaemonSession, goerr + gmap) run" where
  "ds_ListLoops ins limit c d =
     andThen (ensureRPCConnectedLocked ins d)
       (\<lambda>err d1. case err of
          Some e \<Rightarrow> Ret (Inl e) d1
        | None \<Rightarrow> on_rpc (LoopList None (if limit \<le> 0 then 20 else limit) (sec 15) c) d1)"

definition ds_FetchLoopHistory ::
  "(connect_in \<times> goerr option) list \<Rightarrow> string \<Rightarrow> call_in \<Rightarrow> DaemonSession \<Rightarrow> (DaemonSession, goerr + gmap) run" where
  "ds_FetchLoopHistory ins loopID c d =
     andThen (ensureRPCConnectedLocked ins d)
       (\<lambda>err d1. case err of
          Some e \<Rightarrow> Ret (Inl e) d1
        | None \<Rightarrow> on_rpc (FetchLoopHistory loopID (sec 30) c) d1)"

definition SetClarificationMode ::
  "(connect_in \<times> goerr option) list \<Rightarrow> string \<Rightarrow> string \<Rightarrow> call_in \<Rightarrow> DaemonSession \<Rightarrow> (DaemonSession, goerr + bool) run" where
  "SetClarificationMode ins mode interactionMode c d =
     (if ds_loopID d = [] then Ret (Inr False) d
      else
        andThen (ensureRPCConnectedLocked ins d)
          (\<lambda>err d1. case err of
             Some e \<Rightarrow> Ret (Inl e) d1
           | None \<Rightarrow>
               (let payload = put_if (interactionMode \<noteq> []) ''interaction_mode'' (GStr interactionMode)
                      [(''type'', GStr ''loop_set_clarification_mode''), (''loop_id'', GStr (ds_loopID d)), (''mode'', GStr mode)]
                in andThen (on_rpc (timed_rpc (sec 5) c payload ''loop_set_clarification_mode_response'') d1)
                     (\<lambda>r d2. case r of
                        Inl e \<Rightarrow> Ret (Inl e) d2
                      | Inr result \<Rightarrow>
                          Ret (Inr (case as_bool (midx result ''applied'') of Some b \<Rightarrow> b | None \<Rightarrow> False)) d2))))"

end
