(* ===== verification/Turn_Iter.thy ===== *)
theory Turn_Iter
  imports Daemon_Session
begin

text \<open>
  Streaming one turn (IterTurnChunks and its drain in appkit/daemon_session.go). The loop reads
  frames from the stream client, skips those of other loops and turns, forwards chunks to the
  consumer's channel and ends on a turn end. Each iteration has its inputs: the context's error
  when it is polled, whether the deadline has passed, and the context's error if it ends the send of
  a chunk. What a run returns is the chunks it sent and the error of the error channel.
\<close>

section \<open>One frame\<close>

text \<open>The local variables of the loop.\<close>

record turn_locals =
  tl_queryStarted :: bool
  tl_expectedLoopID :: string
  tl_expectedTurnID :: string
  tl_turnProgressSeen :: bool

definition session_frame :: "gobj \<Rightarrow> gmap" where
  "session_frame ev = (if asString (idx ev ''type'') = ''next'' then UnwrapNext (Some ev) else Some ev)"

definition foreign_loop :: "string \<Rightarrow> gmap \<Rightarrow> bool" where
  "foreign_loop expected frame =
     (let eventLoopID = asString (midx frame ''loop_id'')
      in expected \<noteq> [] \<and> eventLoopID \<noteq> [] \<and> eventLoopID \<noteq> expected)"

definition other_turn :: "string \<Rightarrow> gmap \<Rightarrow> bool" where
  "other_turn expected frame =
     (let eventType = asString (midx frame ''type''); evTurnID = FrameTurnID frame;
          statusState = (if eventType = ''status'' then asString (midx frame ''state'') else [])
      in expected \<noteq> [] \<and> (eventType = ''event'' \<or> eventType = ''status'') \<and> statusState \<noteq> ''running''
         \<and> (if statusState = ''idle'' \<or> statusState = ''stopped''
            then evTurnID \<noteq> [] \<and> \<not> TurnIDsMatch expected evTurnID
            else \<not> TurnIDsMatch expected evTurnID))"

definition daemon_error_text :: "gmap \<Rightarrow> string" where
  "daemon_error_text frame =
     (let msg = asString (midx frame ''message'');
          msg1 = (case as_map (midx frame ''error'') of
                    Some errObj \<Rightarrow> if asString (idx errObj ''message'') \<noteq> [] then asString (idx errObj ''message'') else msg
                  | None \<Rightarrow> msg)
      in if msg1 = [] then ''daemon error'' else msg1)"

text \<open>What the loop does with a frame: go on, return an error, end the turn with the given state,
  or send a chunk and then end the turn if a state is given.\<close>

datatype iter_action = ItContinue | ItFail string | ItEnd string | ItEmit TurnChunk "string option"

definition bind_status :: "string \<Rightarrow> turn_locals \<Rightarrow> turn_locals" where
  "bind_status statusTurn st =
     (if statusTurn = [] then st
      else
        (let newGen = ParseTurnGeneration statusTurn; oldGen = ParseTurnGeneration (tl_expectedTurnID st)
         in if tl_expectedTurnID st = [] \<or> (newGen > 0 \<and> (oldGen < 0 \<or> newGen \<ge> oldGen)) then
              (let st1 = (if tl_expectedTurnID st \<noteq> [] \<and> statusTurn \<noteq> tl_expectedTurnID st
                          then st\<lparr>tl_turnProgressSeen := False\<rparr> else st)
               in st1\<lparr>tl_expectedTurnID := statusTurn\<rparr>)
            else st))"

definition status_frame ::
  "gmap \<Rightarrow> turn_locals \<Rightarrow> DaemonSession \<Rightarrow> iter_action \<times> turn_locals \<times> DaemonSession" where
  "status_frame frame st d =
     (let lid = asString (midx frame ''loop_id'');
          d1 = (if lid \<noteq> [] then d\<lparr>ds_loopID := lid\<rparr> else d);
          st1 = (if lid \<noteq> [] then st\<lparr>tl_expectedLoopID := lid\<rparr> else st);
          statusState = asString (midx frame ''state'')
      in if statusState = ''running'' then
           (ItContinue, bind_status (FrameTurnID frame) (st1\<lparr>tl_queryStarted := True\<rparr>), d1)
         else if tl_queryStarted st1 \<and> statusState = ''stopped'' then
           (if tl_expectedTurnID st1 \<noteq> [] \<and> \<not> TurnIDsMatch (tl_expectedTurnID st1) (FrameTurnID frame)
            then (ItContinue, st1, d1) else (ItEnd statusState, st1, d1))
         else if tl_queryStarted st1 \<and> statusState = ''idle'' then
           (if \<not> IsIdleTerminalAllowed (tl_expectedTurnID st1) (FrameTurnID frame) (tl_queryStarted st1)
                   (tl_turnProgressSeen st1) (ds_LastTurnCancelSeen d1)
            then (ItContinue, st1, d1) else (ItEnd statusState, st1, d1))
         else (ItContinue, st1, d1))"

definition count_filtered :: "DaemonSession \<Rightarrow> DaemonSession" where
  "count_filtered d =
     d\<lparr>ds_TurnEventStats := (ds_TurnEventStats d)\<lparr>ts_FilteredEarly := ts_FilteredEarly (ds_TurnEventStats d) + 1\<rparr>\<rparr>"

definition frame_chunk :: "gmap \<Rightarrow> TurnChunk" where
  "frame_chunk frame =
     \<lparr>tc_Namespace = asNamespace (midx frame ''namespace''), tc_Mode = asString (midx frame ''mode''),
      tc_Data = midx frame ''data''\<rparr>"

definition early_drop :: "DaemonSession \<Rightarrow> TurnChunk \<Rightarrow> bool" where
  "early_drop d c = ds_earlyDropFn d (tc_Namespace c) (tc_Mode c) (tc_Data c)"

definition end_state :: "gval \<Rightarrow> string" where
  "end_state data =
     (if (case as_map data of Some m \<Rightarrow> asString (idx m ''type'') | None \<Rightarrow> []) = STREAM_END
      then ''stream_end'' else ''completed'')"

definition event_frame ::
  "gmap \<Rightarrow> turn_locals \<Rightarrow> DaemonSession \<Rightarrow> iter_action \<times> turn_locals \<times> DaemonSession" where
  "event_frame frame st d =
     (let c = frame_chunk frame; ending = (tc_Mode c = ''custom'' \<and> IsTurnEndCustomData (tc_Data c))
      in if early_drop d c then (ItContinue, st, count_filtered d)
         else if ending
              \<and> \<not> IsTurnTerminalAllowed (tl_expectedTurnID st) (event_turn (FrameTurnID frame) (tc_Data c))
                    (tl_queryStarted st) (tl_turnProgressSeen st)
         then (ItContinue, st, d)
         else
           (ItEmit c (if ending then Some (end_state (tc_Data c)) else None),
            (if IsTurnProgressChunk (tc_Mode c) (tc_Data c) then st\<lparr>tl_turnProgressSeen := True\<rparr> else st), d))"

definition iter_frame ::
  "gobj \<Rightarrow> turn_locals \<Rightarrow> DaemonSession \<Rightarrow> iter_action \<times> turn_locals \<times> DaemonSession" where
  "iter_frame ev st d =
     (let frame = session_frame ev; eventType = asString (midx frame ''type'')
      in if foreign_loop (tl_expectedLoopID st) frame then (ItContinue, st, d)
         else if other_turn (tl_expectedTurnID st) frame then (ItContinue, st, d)
         else if eventType = ''error'' then (ItFail (daemon_error_text frame), st, d)
         else if eventType = ''status'' then status_frame frame st d
         else if eventType = ''command_response'' then
           (ItContinue, st,
            (if Contains (asString (midx frame ''content'')) ''Cancellation requested''
             then d\<lparr>ds_LastTurnCancelSeen := True\<rparr> else d))
         else if eventType \<noteq> ''event'' then (ItContinue, st, d)
         else event_frame frame st d)"

section \<open>The drain\<close>

record drain_in =
  dr_before :: bool
  dr_ctx :: bool
  dr_send :: bool

definition count_drained :: "DaemonSession \<Rightarrow> DaemonSession" where
  "count_drained d =
     d\<lparr>ds_TurnEventStats := (ds_TurnEventStats d)\<lparr>ts_PostIdleDrained := ts_PostIdleDrained (ds_TurnEventStats d) + 1\<rparr>\<rparr>"

text \<open>The flags of an iteration: the clock is before the deadline, the context has ended, the chunk
  is sent rather than the context's end taken.\<close>

fun drainAfterIdle :: "drain_in list \<Rightarrow> string \<Rightarrow> DaemonSession \<Rightarrow> (DaemonSession, TurnChunk list) run" where
  "drainAfterIdle [] expd d = Hang d"
| "drainAfterIdle (i # its) expd d =
     (if \<not> dr_before i then Ret [] d
      else if dr_ctx i then Ret [] d
      else
        andThen (on_client ReadEventWithTimeout d)
          (\<lambda>r d1. case r of
             Inl _ \<Rightarrow> Ret [] d1
           | Inr None \<Rightarrow> Ret [] d1
           | Inr (Some ev) \<Rightarrow>
               (let frame = session_frame ev; eventType = asString (midx frame ''type'');
                    lid = asString (midx frame ''loop_id''); c = frame_chunk frame
                in if foreign_loop expd frame then drainAfterIdle its expd d1
                   else if eventType = ''error'' then Ret [] d1
                   else if eventType = ''status'' then
                     (if lid \<noteq> [] then drainAfterIdle its lid (d1\<lparr>ds_loopID := lid\<rparr>) else drainAfterIdle its expd d1)
                   else if eventType \<noteq> ''event'' then drainAfterIdle its expd d1
                   else if early_drop d1 c then drainAfterIdle its expd (count_filtered d1)
                   else if dr_send i then
                     andThen (drainAfterIdle its expd (count_drained d1)) (\<lambda>cs d2. Ret (c # cs) d2)
                   else Ret [] (count_drained d1))))"

section \<open>The loop\<close>

record iter_in =
  ii_ctx :: "goerr option"
  ii_late :: bool
  ii_send :: "goerr option"

definition fail_turn :: "(gobj \<Rightarrow> string) \<Rightarrow> goerr \<Rightarrow> DaemonSession \<Rightarrow> (DaemonSession, TurnChunk list \<times> goerr option) run" where
  "fail_turn fm e d = Ret ([], Some e) (d\<lparr>ds_LastTurnErrorMessage := Error fm e\<rparr>)"

definition end_turn :: "drain_in list \<Rightarrow> string \<Rightarrow> turn_locals \<Rightarrow> DaemonSession \<Rightarrow> (DaemonSession, TurnChunk list \<times> goerr option) run" where
  "end_turn dr endState st d =
     andThen (drainAfterIdle dr (tl_expectedLoopID st) (d\<lparr>ds_LastTurnEndState := endState\<rparr>)) (\<lambda>cs d1. Ret (cs, None) d1)"

definition lost_text :: goerr where "lost_text = ErrText ''daemon connection lost''"

definition turn_timeout :: "int \<Rightarrow> turn_locals \<Rightarrow> goerr" where
  "turn_timeout maxWait st =
     ErrText (''turn timed out after '' @ Duration_String maxWait @ '' (loop='' @ tl_expectedLoopID st @ '')'')"

fun iter_loop ::
  "(gobj \<Rightarrow> string) \<Rightarrow> int \<Rightarrow> drain_in list \<Rightarrow> iter_in list \<Rightarrow> turn_locals \<Rightarrow> DaemonSession
     \<Rightarrow> (DaemonSession, TurnChunk list \<times> goerr option) run" where
  "iter_loop fm maxWait dr [] st d = Hang d"
| "iter_loop fm maxWait dr (i # its) st d =
     (case ii_ctx i of
        Some e \<Rightarrow> fail_turn fm e d
      | None \<Rightarrow>
          if maxWait > 0 \<and> ii_late i then fail_turn fm (turn_timeout maxWait st) d
          else
            andThen (on_client ReadEvent d)
              (\<lambda>r d1. case r of
                 Inl e \<Rightarrow> fail_turn fm e d1
               | Inr None \<Rightarrow>
                   if tl_queryStarted st then
                     andThen (on_client IsConnectionAlive d1)
                       (\<lambda>alive d2. if \<not> alive then fail_turn fm lost_text (d2\<lparr>ds_LastTurnEndState := ''connection_lost''\<rparr>)
                                   else Ret ([], None) d2)
                   else Ret ([], None) d1
               | Inr (Some ev) \<Rightarrow>
                   (case iter_frame ev st d1 of
                      (ItContinue, st1, d2) \<Rightarrow> iter_loop fm maxWait dr its st1 d2
                    | (ItFail msg, st1, d2) \<Rightarrow> fail_turn fm (ErrText msg) d2
                    | (ItEnd endState, st1, d2) \<Rightarrow> end_turn dr endState st1 d2
                    | (ItEmit c fin, st1, d2) \<Rightarrow>
                        (case ii_send i of
                           Some e \<Rightarrow> fail_turn fm e d2
                         | None \<Rightarrow>
                             andThen (case fin of
                                        Some endState \<Rightarrow> end_turn dr endState st1 d2
                                      | None \<Rightarrow> iter_loop fm maxWait dr its st1 d2)
                               (\<lambda>(cs, e) d3. Ret (c # cs, e) d3)))))"

definition start_locals :: "DaemonSession \<Rightarrow> turn_locals" where
  "start_locals d =
     \<lparr>tl_queryStarted = False, tl_expectedLoopID = ds_loopID d, tl_expectedTurnID = [], tl_turnProgressSeen = False\<rparr>"

definition reset_turn :: "DaemonSession \<Rightarrow> DaemonSession" where
  "reset_turn d =
     d\<lparr>ds_TurnEventStats := NewTurnEventStats, ds_LastTurnEndState := [], ds_LastTurnCancelSeen := False,
       ds_LastTurnErrorMessage := []\<rparr>"

definition iterTurnChunksLocked ::
  "(gobj \<Rightarrow> string) \<Rightarrow> int \<Rightarrow> drain_in list \<Rightarrow> iter_in list \<Rightarrow> DaemonSession
     \<Rightarrow> (DaemonSession, TurnChunk list \<times> goerr option) run" where
  "iterTurnChunksLocked fm maxWait dr its d =
     andThen (on_client InboundDropped (reset_turn d))
       (\<lambda>inboundBaseline d1.
          andThen
            (andThen (on_client PeelStalePendingControlEvents d1)
               (\<lambda>_ d2. iter_loop fm maxWait dr its (start_locals d1) d2))
            (\<lambda>res d3.
               andThen (on_client InboundDropped d3)
                 (\<lambda>n d4. Ret res
                    (d4\<lparr>ds_TurnEventStats :=
                          (ds_TurnEventStats d4)\<lparr>ts_InboundDropped := max 0 (n - inboundBaseline)\<rparr>\<rparr>))))"

text \<open>The goroutine of \<^verbatim>\<open>IterTurnChunks\<close>: the chunks and the error, if any, arrive on its two channels,
  which are closed when it ends.\<close>

definition IterTurnChunks ::
  "(gobj \<Rightarrow> string) \<Rightarrow> int \<Rightarrow> drain_in list \<Rightarrow> iter_in list \<Rightarrow> DaemonSession
     \<Rightarrow> (DaemonSession, TurnChunk list \<times> goerr list) run" where
  "IterTurnChunks fm maxWait dr its d =
     andThen (iterTurnChunksLocked fm maxWait dr its d)
       (\<lambda>(cs, err) d1. Ret (cs, case err of Some e \<Rightarrow> [e] | None \<Rightarrow> []) d1)"

end
