(* ===== verification/Turn_Iter_Returns.thy ===== *)
theory Turn_Iter_Returns
  imports Turn_Iter
begin

text \<open>
  Streaming a turn terminates: every round of the loop and of its drain consumes a buffered event or
  a read of the socket, so a turn whose connection fails in the end is over after at most one
  round more than there are frames.
\<close>

section \<open>Reads are consumed\<close>

definition unread :: "env \<Rightarrow> nat" where
  "unread s = length (c_pendingEvents s) + length (e_reads s)"

text \<open>The last \<open>k\<close> reads of the environment fail.\<close>

definition fails_after :: "nat \<Rightarrow> env \<Rightarrow> bool" where
  "fails_after k s \<longleftrightarrow> (\<exists>rs. e_reads s = rs @ replicate k RError)"

lemma fails_after_weaken: "fails_after (Suc k) s \<Longrightarrow> fails_after k s"
proof -
  assume "fails_after (Suc k) s"
  then obtain rs where "e_reads s = rs @ replicate (Suc k) RError" by (auto simp: fails_after_def)
  then have "e_reads s = (rs @ [RError]) @ replicate k RError" by simp
  then show ?thesis unfolding fails_after_def by blast
qed

lemma fails_after_Cons: "fails_after (Suc k) s \<Longrightarrow> \<exists>r rs. e_reads s = r # rs
    \<and> fails_after k (s\<lparr>e_reads := rs\<rparr>) \<and> (r \<noteq> RError \<longrightarrow> fails_after (Suc k) (s\<lparr>e_reads := rs\<rparr>))"
proof -
  assume "fails_after (Suc k) s"
  then obtain rs where rs: "e_reads s = rs @ replicate (Suc k) RError" by (auto simp: fails_after_def)
  show ?thesis
  proof (cases rs)
    case (Cons r rs')
    then have "fails_after (Suc k) (s\<lparr>e_reads := rs' @ replicate (Suc k) RError\<rparr>)" by (auto simp: fails_after_def)
    with Cons rs show ?thesis using fails_after_weaken by auto
  qed (use rs in \<open>auto simp: fails_after_def\<close>)
qed

lemma read_msgs_returns:
  "link_inv got s \<Longrightarrow>
   \<exists>r s'. read_msgs ms s = Ret r s' \<and> link_inv got s' \<and> c_pendingEvents s' = c_pendingEvents s \<and> e_reads s' = e_reads s"
proof (induction ms arbitrary: s)
  case (Cons m ms)
  obtain s1 where s1: "isControlFrame m s = Ret (is_control m) s1" "link_inv got s1"
    using isControlFrame_returns [OF Cons.prems] by blast
  note f1 = isControlFrame_frame [OF s1(1)]
  obtain b mx where rt: "route (msg_map m) (c_mux s1) = (b, mx)" by fastforce
  show ?case
  proof (cases "is_control m \<or> b")
    case True
    let ?s2 = "if is_control m then s1 else s1\<lparr>c_mux := mx\<rparr>"
    have "read_msgs (m # ms) s = read_msgs ms ?s2" using True s1(1) rt by (auto simp: Let_def)
    with Cons.IH [of ?s2] s1(2) f1 show ?thesis by auto
  next
    case False
    obtain s2 where s2: "trackInboundDeliveryAck (msg_map m) s1 = Ret () s2" "link_inv got s2"
      using track_link_inv [OF s1(2)] by blast
    with False s1 rt track_frame [OF s2(1)] f1 show ?thesis by (simp add: Let_def)
  qed
qed simp

lemma ReadEvent_returns:
  assumes inv: "link_inv got s" and sup: "fails_after (Suc k) s"
  shows "\<exists>r s'. ReadEvent s = Ret r s' \<and> link_inv got s' \<and> fails_after k s' \<and> unread s' \<le> unread s
    \<and> (\<forall>ev. r = Inr (Some ev) \<longrightarrow> fails_after (Suc k) s' \<and> unread s' < unread s)"
proof -
  have mu: "\<not> c_mu s" using inv by (simp add: link_inv_def)
  show ?thesis
  proof (cases "c_pendingEvents s")
    case (Cons ev rest)
    let ?s1 = "s\<lparr>c_pendingEvents := rest\<rparr>"
    obtain s2 where s2: "trackInboundDeliveryAck (Some ev) ?s1 = Ret () s2" "link_inv got s2"
      using track_link_inv [of got ?s1] inv by auto
    have "e_reads s2 = e_reads s" "c_pendingEvents s2 = rest" using track_frame [OF s2(1)] by simp_all
    then have "fails_after (Suc k) s2" "unread s2 < unread s" using sup Cons by (simp_all add: fails_after_def unread_def)
    with mu Cons s2 show ?thesis using fails_after_weaken by (auto simp: ReadEvent_def)
  next
    case Nil
    show ?thesis
    proof (cases "c_conn s = None")
      case True
      with mu Nil inv sup show ?thesis using fails_after_weaken by (auto simp: ReadEvent_def)
    next
      case False
      obtain r rs where r: "e_reads s = r # rs" "fails_after k (s\<lparr>e_reads := rs\<rparr>)"
        "r \<noteq> RError \<longrightarrow> fails_after (Suc k) (s\<lparr>e_reads := rs\<rparr>)"
        using fails_after_Cons [OF sup] by blast
      show ?thesis
      proof (cases r)
        case (RData data)
        obtain x s2 where s2: "read_msgs (payload_msgs data) (s\<lparr>e_reads := rs\<rparr>) = Ret x s2" "link_inv got s2"
          "c_pendingEvents s2 = c_pendingEvents s" "e_reads s2 = rs"
          using read_msgs_returns [of got "s\<lparr>e_reads := rs\<rparr>" "payload_msgs data"] inv by auto
        have "fails_after (Suc k) s2" "fails_after k s2" "unread s2 < unread s"
          using r RData s2 by (auto simp: fails_after_def unread_def)
        with mu Nil False r(1) RData s2 show ?thesis by (auto simp: ReadEvent_def Let_def)
      qed (use mu Nil False r inv in \<open>auto simp: ReadEvent_def unread_def\<close>)
    qed
  qed
qed

lemma ReadEventWithTimeout_returns:
  assumes inv: "link_inv got s" and sup: "fails_after (Suc k) s"
  shows "\<exists>r s'. ReadEventWithTimeout s = Ret r s' \<and> link_inv got s' \<and> fails_after k s' \<and> unread s' \<le> unread s
    \<and> (\<forall>ev. r = Inr (Some ev) \<longrightarrow> fails_after (Suc k) s' \<and> unread s' < unread s)"
proof -
  have mu: "\<not> c_mu s" using inv by (simp add: link_inv_def)
  show ?thesis
  proof (cases "c_pendingEvents s")
    case (Cons ev rest)
    let ?s1 = "s\<lparr>c_pendingEvents := rest\<rparr>"
    have "fails_after (Suc k) ?s1" "fails_after k ?s1" "unread ?s1 < unread s"
      using sup fails_after_weaken [OF sup] Cons by (simp_all add: fails_after_def unread_def)
    with mu Cons inv show ?thesis by (auto simp: ReadEventWithTimeout_def)
  next
    case Nil
    obtain r s' where r: "ReadEvent s = Ret r s'" "link_inv got s'" "fails_after k s'" "unread s' \<le> unread s"
      "\<forall>ev. r = Inr (Some ev) \<longrightarrow> fails_after (Suc k) s' \<and> unread s' < unread s"
      using ReadEvent_returns [OF assms] by blast
    show ?thesis
    proof (cases r)
      case (Inl e)
      then show ?thesis using mu Nil r inv sup fails_after_weaken [OF sup]
        by (cases "is_net_timeout e") (auto simp: ReadEventWithTimeout_def)
    next
      case (Inr x)
      then show ?thesis using mu Nil r inv sup fails_after_weaken [OF sup]
        by (auto simp: ReadEventWithTimeout_def)
    qed
  qed
qed

section \<open>Peeling\<close>

lemma enqueue_keeps:
  "e_reads (enqueuePendingLocked ev s) = e_reads s"
  "length (c_pendingEvents (enqueuePendingLocked ev s)) \<le> Suc (length (c_pendingEvents s))"
  "link_inv got (enqueuePendingLocked ev s) = link_inv got s"
  by (auto simp: enqueuePendingLocked_def noteInboundDropLocked_def link_inv_def Let_def
      split: prod.split once.split option.split)

lemma peel_live_returns:
  "link_inv got s \<Longrightarrow> fails_after (Suc k) s \<Longrightarrow>
   \<exists>ls s'. peel_live n s = Ret ls s' \<and> link_inv got s' \<and> fails_after k s' \<and> unread s' \<le> unread s"
proof (induction n arbitrary: s)
  case 0
  then show ?case using fails_after_weaken by auto
next
  case (Suc n)
  obtain r s1 where r: "ReadEventWithTimeout s = Ret r s1" "link_inv got s1" "fails_after k s1" "unread s1 \<le> unread s"
    "\<forall>ev. r = Inr (Some ev) \<longrightarrow> fails_after (Suc k) s1 \<and> unread s1 < unread s"
    using ReadEventWithTimeout_returns [OF Suc.prems] by blast
  show ?case
  proof (cases "\<exists>ev. r = Inr (Some ev)")
    case True
    then obtain ev where ev: "r = Inr (Some ev)" by blast
    show ?thesis
    proof (cases "StalePendingFrameLabel (Some ev) = []")
      case True
      let ?s2 = "enqueuePendingLocked ev s1"
      have "fails_after k ?s2" "unread ?s2 \<le> unread s" "\<not> c_mu s1"
        using r ev enqueue_keeps(1,2) [of ev s1] by (auto simp: fails_after_def unread_def link_inv_def)
      then show ?thesis using True r ev enqueue_keeps(3) by (simp add: Let_def)
    next
      case False
      obtain ls s2 where "peel_live n s1 = Ret ls s2" "link_inv got s2" "fails_after k s2" "unread s2 \<le> unread s1"
        using Suc.IH [of s1] r ev by blast
      then show ?thesis using False r ev by (auto simp: Let_def)
    qed
  next
    case False
    then show ?thesis using r by (cases r) (auto split: option.splits)
  qed
qed

lemma peel_pending_length: "length (snd (peel_pending evs)) \<le> length evs"
  by (induction evs) (auto simp: Let_def split: prod.splits)

lemma Peel_returns:
  assumes "link_inv got s" "fails_after (Suc k) s"
  shows "\<exists>ls s'. PeelStalePendingControlEvents s = Ret ls s' \<and> link_inv got s' \<and> fails_after k s' \<and> unread s' \<le> unread s"
proof -
  obtain ls kept where p: "peel_pending (c_pendingEvents s) = (ls, kept)" by fastforce
  let ?s1 = "s\<lparr>c_pendingEvents := kept\<rparr>"
  have le: "unread ?s1 \<le> unread s" using peel_pending_length [of "c_pendingEvents s"] p by (simp add: unread_def)
  obtain ls' s' where "peel_live 8 ?s1 = Ret ls' s'" "link_inv got s'" "fails_after k s'" "unread s' \<le> unread ?s1"
    using peel_live_returns [of got ?s1 k 8] assms by (auto simp: fails_after_def)
  moreover have "\<not> c_mu s" using assms(1) by (simp add: link_inv_def)
  ultimately show ?thesis using p le by (auto simp: PeelStalePendingControlEvents_def)
qed

section \<open>The drain and the loop\<close>

text \<open>A run of the session that returns with the stream client in order.\<close>

definition settles :: "DisconnectCause list \<Rightarrow> (DaemonSession, 'a) run \<Rightarrow> bool" where
  "settles got r \<longleftrightarrow> (\<exists>x d. r = Ret x d \<and> link_inv got (ds_client d))"

lemma settles_Ret [simp]: "settles got (Ret x d) \<longleftrightarrow> link_inv got (ds_client d)"
  by (simp add: settles_def)

lemma settles_andThen:
  "settles got r \<Longrightarrow> (\<And>x d. r = Ret x d \<Longrightarrow> link_inv got (ds_client d) \<Longrightarrow> settles got (f x d)) \<Longrightarrow> settles got (andThen r f)"
  by (auto simp: settles_def)

lemma client_counts [simp]:
  "ds_client (count_filtered d) = ds_client d" "ds_client (count_drained d) = ds_client d"
  by (simp_all add: count_filtered_def count_drained_def)

lemma drain_returns:
  "link_inv got (ds_client d) \<Longrightarrow> fails_after (Suc k) (ds_client d) \<Longrightarrow> unread (ds_client d) < length dr \<Longrightarrow>
   settles got (drainAfterIdle dr expd d)"
proof (induction dr arbitrary: expd d)
  case (Cons i dr)
  obtain r s1 where r: "ReadEventWithTimeout (ds_client d) = Ret r s1" "link_inv got s1"
    "\<forall>ev. r = Inr (Some ev) \<longrightarrow> fails_after (Suc k) s1 \<and> unread s1 < unread (ds_client d)"
    using ReadEventWithTimeout_returns [OF Cons.prems(1,2)] by blast
  let ?d1 = "d\<lparr>ds_client := s1\<rparr>"
  have oc: "on_client ReadEventWithTimeout d = Ret r ?d1" using r(1) by (simp add: on_client_def)
  have IH: "settles got (drainAfterIdle dr e d2)" if "ds_client d2 = s1" "r = Inr (Some ev)" for e d2 ev
    by (rule Cons.IH) (use that r Cons.prems(3) in auto)
  show ?case
    using Cons.prems(1) r(2)
    by (auto simp: oc Let_def intro!: IH settles_andThen split: sum.split option.split)
qed simp

lemma iter_frame_client:
  "iter_frame ev st d = (act, st1, d1) \<Longrightarrow> ds_client d1 = ds_client d"
  by (auto simp: iter_frame_def status_frame_def event_frame_def Let_def split: if_splits)

lemma iter_loop_returns:
  "link_inv got (ds_client d) \<Longrightarrow> fails_after (Suc (Suc k)) (ds_client d) \<Longrightarrow> unread (ds_client d) < length its \<Longrightarrow>
   unread (ds_client d) < length dr \<Longrightarrow> settles got (iter_loop fm maxWait dr its st d)"
proof (induction its arbitrary: st d)
  case (Cons i its)
  obtain r s1 where r: "ReadEvent (ds_client d) = Ret r s1" "link_inv got s1" "fails_after (Suc k) s1" "unread s1 \<le> unread (ds_client d)"
    "\<forall>ev. r = Inr (Some ev) \<longrightarrow> fails_after (Suc (Suc k)) s1 \<and> unread s1 < unread (ds_client d)"
    using ReadEvent_returns [OF Cons.prems(1,2)] by blast
  let ?d1 = "d\<lparr>ds_client := s1\<rparr>"
  have oc: "on_client ReadEvent d = Ret r ?d1" using r(1) by (simp add: on_client_def)
  have alive: "\<exists>b. on_client IsConnectionAlive ?d1 = Ret b ?d1"
    using r(2) by (auto simp: on_client_def IsConnectionAlive_def IsConnected_def locked_def link_inv_def)
  have go: "settles got (iter_loop fm maxWait dr its st2 d2)" if "ds_client d2 = s1" "r = Inr (Some ev)" for st2 d2 ev
    by (rule Cons.IH) (use that r Cons.prems(3,4) in auto)
  have fin: "settles got (end_turn dr es st2 d2)" if "ds_client d2 = s1" for es st2 d2
    unfolding end_turn_def
    by (rule settles_andThen, rule drain_returns [where k = k]) (use that r Cons.prems(4) in auto)
  show ?case
  proof (cases "\<exists>ev. r = Inr (Some ev)")
    case True
    then obtain ev where ev: "r = Inr (Some ev)" by blast
    obtain act st2 d2 where f: "iter_frame ev st ?d1 = (act, st2, d2)" by (metis prod.exhaust)
    have c: "ds_client d2 = s1" using iter_frame_client [OF f] by simp
    show ?thesis
      using Cons.prems(1) r(2) c
      by (cases act)
         (auto simp: oc ev f fail_turn_def intro!: go [OF _ ev] fin settles_andThen split: option.split)
  next
    case False
    then show ?thesis using Cons.prems(1) r(2) oc alive
      by (cases r) (auto simp: fail_turn_def split: option.split)
  qed
qed simp

section \<open>Properties\<close>


text \<open>A session connected for the examples, with the given reads.\<close>

definition example_session :: "read list \<Rightarrow> DaemonSession" where
  "example_session rs =
     (NewDaemonSession ''u'' None rs [] [] [])\<lparr>ds_client := (start_env (NewClient ''u'' None) rs [])\<lparr>c_conn := Some 0\<rparr>\<rparr>"

lemma example_client:
  "ds_client (example_session rs) = (start_env (NewClient ''u'' None) rs [])\<lparr>c_conn := Some 0\<rparr>"
  "link_inv [] (ds_client (example_session rs))" "e_reads (ds_client (example_session rs)) = rs"
  "c_pendingEvents (ds_client (example_session rs)) = []" "ds_loopID (example_session rs) = []"
  "ds_earlyDropFn (example_session rs) = ShouldDropStreamChunkEarly" "\<not> ds_LastTurnCancelSeen (example_session rs)"
  by (simp_all add: example_session_def NewDaemonSession_def start_env_def NewClient_def Client.defs env.defs
      link_inv_def open_dchan_def Let_def)

definition example_round :: iter_in where
  "example_round = \<lparr>ii_ctx = None, ii_late = False, ii_send = None\<rparr>"

definition example_drain :: drain_in where
  "example_drain = \<lparr>dr_before = True, dr_ctx = False, dr_send = True\<rparr>"


end
