(* ===== verification/Turn_Iter_Spec.thy ===== *)
theory Turn_Iter_Spec
  imports Turn_Iter_Returns
begin

text \<open>
  Properties of the turn iteration: agreement with the turn boundary of the turn runner and where the
  two differ, bounded iterations, delivery of a streamed turn, and what is lost on the way.
\<close>

section \<open>Agreement with the turn boundary\<close>

text \<open>The end state the loop reaches on a list of frames.\<close>

fun iter_end :: "gobj list \<Rightarrow> turn_locals \<Rightarrow> DaemonSession \<Rightarrow> string option" where
  "iter_end [] st d = None"
| "iter_end (f # fs) st d =
     (case iter_frame f st d of
        (ItContinue, st1, d1) \<Rightarrow> iter_end fs st1 d1
      | (ItFail _, st1, d1) \<Rightarrow> None
      | (ItEnd es, st1, d1) \<Rightarrow> Some es
      | (ItEmit c (Some es), st1, d1) \<Rightarrow> Some es
      | (ItEmit c None, st1, d1) \<Rightarrow> iter_end fs st1 d1)"

definition end_reason_of :: "string \<Rightarrow> string" where
  "end_reason_of es =
     (if es = ''idle'' then TurnEndIdle else if es = ''stopped'' then TurnEndStopped else TurnEndStreamEnd)"

text \<open>Frames of one turn of one loop: statuses, and events that carry the turn id and pass the early
  filter; running statuses have no other turn id.\<close>

definition turn_frame :: "EarlyDropFn \<Rightarrow> string \<Rightarrow> string \<Rightarrow> gobj \<Rightarrow> bool" where
  "turn_frame dropFn loopID tid f \<longleftrightarrow>
     asString (idx f ''loop_id'') \<in> {[], loopID}
     \<and> (asString (idx f ''type'') = ''status'' \<and> asString (idx f ''mode'') = []
          \<and> (asString (idx f ''state'') = ''running'' \<longrightarrow> FrameTurnID (Some f) \<in> {[], tid})
        \<or> asString (idx f ''type'') = ''event'' \<and> FrameTurnID (Some f) = tid
          \<and> \<not> (let c = frame_chunk (Some f) in dropFn (tc_Namespace c) (tc_Mode c) (tc_Data c)))"

text \<open>The gate that the local variables of the loop stand for.\<close>

definition gate_of :: "turn_locals \<Rightarrow> DaemonSession \<Rightarrow> TurnLifecycleGate" where
  "gate_of st d =
     \<lparr>g_SawRunning = tl_queryStarted st, g_SawTurnProgress = tl_turnProgressSeen st,
      g_ExpectedTurnID = tl_expectedTurnID st, g_CancellationSeen = ds_LastTurnCancelSeen d\<rparr>"

definition turn_sim :: "EarlyDropFn \<Rightarrow> string \<Rightarrow> string \<Rightarrow> turn_locals \<Rightarrow> DaemonSession \<Rightarrow> bool" where
  "turn_sim dropFn loopID tid st d \<longleftrightarrow>
     tl_expectedLoopID st \<in> {[], loopID} \<and> tl_expectedTurnID st \<in> {[], tid} \<and> ds_earlyDropFn d = dropFn"

lemma bind_status_gate: "gate_of (bind_status t st) d = bind_turn t (gate_of st d)"
  by (auto simp: bind_status_def bind_turn_def gate_of_def Let_def)

lemma bind_status_turn: "tl_expectedTurnID (bind_status t st) \<in> {tl_expectedTurnID st, t}"
  by (auto simp: bind_status_def Let_def)

lemma bind_status_loop [simp]: "tl_expectedLoopID (bind_status t st) = tl_expectedLoopID st"
  by (auto simp: bind_status_def Let_def)

lemma gate_of_loop [simp]:
  "gate_of (st\<lparr>tl_expectedLoopID := l\<rparr>) d = gate_of st d" "gate_of st (d\<lparr>ds_loopID := l\<rparr>) = gate_of st d"
  by (simp_all add: gate_of_def)

definition step_agrees :: "EarlyDropFn \<Rightarrow> string \<Rightarrow> string \<Rightarrow> gobj \<Rightarrow> TurnLifecycleGate \<Rightarrow> iter_action \<times> turn_locals \<times> DaemonSession \<Rightarrow> bool" where
  "step_agrees dropFn loopID tid f g r =
     (let m = MMap (Some f); g1 = Observe m g
      in case r of
           (ItContinue, st1, d1) \<Rightarrow> end_reason m g1 = None \<and> gate_of st1 d1 = g1 \<and> turn_sim dropFn loopID tid st1 d1
         | (ItFail _, st1, d1) \<Rightarrow> False
         | (ItEnd es, st1, d1) \<Rightarrow> end_reason m g1 = Some (end_reason_of es)
         | (ItEmit c (Some es), st1, d1) \<Rightarrow> end_reason m g1 = Some (end_reason_of es)
         | (ItEmit c None, st1, d1) \<Rightarrow> end_reason m g1 = None \<and> gate_of st1 d1 = g1 \<and> turn_sim dropFn loopID tid st1 d1)"

lemma status_agrees:
  assumes f: "turn_frame dropFn loopID tid f" and ty: "asString (idx f ''type'') = ''status''" and sim: "turn_sim dropFn loopID tid st d"
  shows "step_agrees dropFn loopID tid f (gate_of st d) (iter_frame f st d)"
proof -
  let ?s = "asString (idx f ''state'')" and ?e = "tl_expectedTurnID st" and ?t = "FrameTurnID (Some f)"
  define st1 where "st1 = (if asString (idx f ''loop_id'') \<noteq> [] then st\<lparr>tl_expectedLoopID := asString (idx f ''loop_id'')\<rparr> else st)"
  define d1 where "d1 = (if asString (idx f ''loop_id'') \<noteq> [] then d\<lparr>ds_loopID := asString (idx f ''loop_id'')\<rparr> else d)"
  have g1: "gate_of st1 d1 = gate_of st d" by (auto simp: st1_def d1_def)
  have sim1: "turn_sim dropFn loopID tid st1 d1"
    using sim f by (auto simp: turn_sim_def st1_def d1_def turn_frame_def)
  have fr: "session_frame f = Some f" using ty by (simp add: session_frame_def)
  have nf: "\<not> foreign_loop (tl_expectedLoopID st) (Some f)"
    using f sim by (auto simp: foreign_loop_def turn_frame_def turn_sim_def Let_def)
  have mode: "asString (idx f ''mode'') = []" using f ty by (auto simp: turn_frame_def)
  show ?thesis
  proof (cases "?s = ''running''")
    case True
    then have t: "?t \<in> {[], tid}" using f ty by (auto simp: turn_frame_def)
    have "iter_frame f st d = (ItContinue, bind_status ?t (st1\<lparr>tl_queryStarted := True\<rparr>), d1)"
      using True ty fr nf by (simp add: iter_frame_def other_turn_def status_frame_def st1_def d1_def Let_def)
    moreover have "Observe (MMap (Some f)) (gate_of st d) = bind_turn ?t ((gate_of st d)\<lparr>g_SawRunning := True\<rparr>)"
      using True ty mode by (simp add: Observe_def Let_def)
    moreover have "gate_of (bind_status ?t (st1\<lparr>tl_queryStarted := True\<rparr>)) d1 = bind_turn ?t ((gate_of st d)\<lparr>g_SawRunning := True\<rparr>)"
      unfolding bind_status_gate using g1 by (simp add: gate_of_def)
    moreover have "turn_sim dropFn loopID tid (bind_status ?t (st1\<lparr>tl_queryStarted := True\<rparr>)) d1"
      using sim1 t bind_status_turn [of ?t "st1\<lparr>tl_queryStarted := True\<rparr>"] by (auto simp: turn_sim_def)
    ultimately show ?thesis
      using True ty mode by (simp add: step_agrees_def end_reason_def Let_def)
  next
    case False
    then have obs: "Observe (MMap (Some f)) (gate_of st d) = gate_of st d"
      using ty mode by (simp add: Observe_def Let_def)
    have gs: "g_SawRunning (gate_of st d) = tl_queryStarted st" "g_ExpectedTurnID (gate_of st d) = ?e"
      "AllowIdleComplete t (gate_of st d) = IsIdleTerminalAllowed ?e t (tl_queryStarted st) (tl_turnProgressSeen st) (ds_LastTurnCancelSeen d)" for t
      by (simp_all add: gate_of_def AllowIdleComplete_def)
    have l1: "tl_queryStarted st1 = tl_queryStarted st" "tl_expectedTurnID st1 = ?e" "tl_turnProgressSeen st1 = tl_turnProgressSeen st"
      "ds_LastTurnCancelSeen d1 = ds_LastTurnCancelSeen d" by (simp_all add: st1_def d1_def)
    have idle: "IsIdleTerminalAllowed ?e ?t q p x \<Longrightarrow> ?t \<noteq> [] \<Longrightarrow> TurnIDsMatch ?e ?t" for q p x
      using FrameTurnID_trimmed [of "Some f"] by (auto simp: IsIdleTerminalAllowed_iff TurnIDsMatch_iff)
    show ?thesis
    proof (cases "other_turn ?e (Some f)")
      case True
      then have "iter_frame f st d = (ItContinue, st, d)" using fr nf by (simp add: iter_frame_def Let_def)
      moreover have "end_reason (MMap (Some f)) (gate_of st d) = None"
        using True False ty mode gs idle
        by (auto simp: end_reason_def other_turn_def Let_def split: if_splits)
      ultimately show ?thesis using obs sim by (simp add: step_agrees_def Let_def)
    next
      case nt: False
      have sf: "iter_frame f st d =
         (if tl_queryStarted st \<and> ?s = ''stopped'' then
            (if ?e \<noteq> [] \<and> \<not> TurnIDsMatch ?e ?t then (ItContinue, st1, d1) else (ItEnd ?s, st1, d1))
          else if tl_queryStarted st \<and> ?s = ''idle'' then
            (if \<not> AllowIdleComplete ?t (gate_of st d) then (ItContinue, st1, d1) else (ItEnd ?s, st1, d1))
          else (ItContinue, st1, d1))"
        using fr nf nt ty False gs(3)
        by (simp add: iter_frame_def status_frame_def st1_def d1_def Let_def)
      have nr: "AllowIdleComplete ?t (gate_of st d) \<Longrightarrow> tl_queryStarted st"
        unfolding gs(3) by (simp add: IsIdleTerminalAllowed_iff)
      have er: "end_reason (MMap (Some f)) (gate_of st d) =
         (if ?s = ''stopped'' \<and> tl_queryStarted st then
            (if ?e \<noteq> [] \<and> \<not> TurnIDsMatch ?e ?t then None else Some TurnEndStopped)
          else if ?s = ''idle'' \<and> AllowIdleComplete ?t (gate_of st d) then Some TurnEndIdle else None)"
        using ty mode gs(1,2) by (simp add: end_reason_def Let_def)
      show ?thesis
        using sim1 nr by (simp add: step_agrees_def Let_def obs er sf g1 end_reason_of_def)
    qed
  qed
qed

lemma end_state_reason [simp]: "end_reason_of (end_state data) = TurnEndStreamEnd"
  by (simp add: end_reason_of_def end_state_def)

lemma event_agrees:
  assumes f: "turn_frame dropFn loopID tid f" and ty: "asString (idx f ''type'') = ''event''" and sim: "turn_sim dropFn loopID tid st d"
    and tid: "tid \<noteq> []"
  shows "step_agrees dropFn loopID tid f (gate_of st d) (iter_frame f st d)"
proof -
  let ?e = "tl_expectedTurnID st" and ?c = "frame_chunk (Some f)" and ?m = "asString (idx f ''mode'')" and ?dt = "idx f ''data''"
  have fr: "session_frame f = Some f" using ty by (simp add: session_frame_def)
  have nf: "\<not> foreign_loop (tl_expectedLoopID st) (Some f)"
    using f sim by (auto simp: foreign_loop_def turn_frame_def turn_sim_def Let_def)
  have t: "FrameTurnID (Some f) = tid" "\<not> early_drop d ?c"
    using f ty sim by (auto simp: turn_frame_def turn_sim_def early_drop_def Let_def)
  have "TurnIDsMatch tid tid" using tid FrameTurnID_trimmed [of "Some f"] t(1) by (simp add: TurnIDsMatch_iff)
  then have nt: "\<not> other_turn ?e (Some f)"
    using sim t(1) ty by (auto simp: other_turn_def turn_sim_def Let_def)
  let ?st = "if IsTurnProgressChunk ?m ?dt then st\<lparr>tl_turnProgressSeen := True\<rparr> else st"
  let ?ending = "?m = ''custom'' \<and> IsTurnEndCustomData ?dt"
  let ?ok = "AllowStreamEnd (event_turn tid ?dt) (gate_of st d)"
  have it: "iter_frame f st d =
     (if ?ending \<and> \<not> ?ok then (ItContinue, st, d)
      else (ItEmit ?c (if ?ending then Some (end_state ?dt) else None), ?st, d))"
    using fr nf nt ty t by (simp add: iter_frame_def event_frame_def frame_chunk_def AllowStreamEnd_def gate_of_def Let_def)
  have np: "?ending \<Longrightarrow> \<not> IsTurnProgressChunk ?m ?dt" by (simp add: IsTurnProgressChunk_def)
  have obs: "Observe (MMap (Some f)) (gate_of st d) = gate_of ?st d"
    using ty by (simp add: Observe_def gate_of_def Let_def)
  have er: "end_reason (MMap (Some f)) g = (if ?ending \<and> AllowStreamEnd (event_turn tid ?dt) g then Some TurnEndStreamEnd else None)" for g
    using ty t(1) by (simp add: end_reason_def Let_def)
  have sim1: "turn_sim dropFn loopID tid ?st d" using sim by (simp add: turn_sim_def)
  show ?thesis
  proof (cases ?ending)
    case True
    then have "gate_of ?st d = gate_of st d" using np by simp
    then show ?thesis using True sim1 np by (simp add: step_agrees_def Let_def it obs er)
  next
    case False
    then have "iter_frame f st d = (ItEmit ?c None, ?st, d)" "end_reason (MMap (Some f)) (gate_of ?st d) = None"
      unfolding it er by auto
    then show ?thesis using sim1 unfolding step_agrees_def Let_def obs by simp
  qed
qed

lemma turn_frame_agrees:
  assumes "turn_frame dropFn loopID tid f" "turn_sim dropFn loopID tid st d" "tid \<noteq> []"
  shows "step_agrees dropFn loopID tid f (gate_of st d) (iter_frame f st d)"
  using status_agrees [OF assms(1) _ assms(2)] event_agrees [OF assms(1) _ assms(2,3)] assms(1)
  unfolding turn_frame_def by blast

lemma feed_all_Cons: "feed_all (m # ms) b = feed_all ms (snd (Feed m b))"
  by (simp add: feed_all_def)

lemma feed_all_ended: "b_Ended b \<Longrightarrow> feed_all ms b = b"
  using boundary.feeds_ended unfolding feed_all_feeds .

definition verdict :: "TurnBoundary \<Rightarrow> string option" where
  "verdict b = (if b_Ended b then Some (b_Reason b) else None)"

lemma iter_end_verdict:
  "\<forall>f\<in>set fs. turn_frame dropFn loopID tid f \<Longrightarrow> turn_sim dropFn loopID tid st d \<Longrightarrow> tid \<noteq> [] \<Longrightarrow>
   b_Gate b = gate_of st d \<Longrightarrow> \<not> b_Ended b \<Longrightarrow>
   map_option end_reason_of (iter_end fs st d) = verdict (feed_all (map (\<lambda>f. MMap (Some f)) fs) b)"
proof (induction fs arbitrary: st d b)
  case (Cons f fs)
  let ?m = "MMap (Some f)" and ?g1 = "Observe (MMap (Some f)) (gate_of st d)"
  obtain act st1 d1 where it: "iter_frame f st d = (act, st1, d1)" by (metis prod.exhaust)
  have ag: "step_agrees dropFn loopID tid f (gate_of st d) (act, st1, d1)"
    using turn_frame_agrees [of dropFn loopID tid f st d] Cons.prems by (simp add: it)
  have fd: "snd (Feed ?m b) =
      (case end_reason ?m ?g1 of None \<Rightarrow> b\<lparr>b_Gate := ?g1\<rparr> | Some r \<Rightarrow> b\<lparr>b_Gate := ?g1, b_Ended := True, b_Reason := r\<rparr>)"
    using Cons.prems(4,5) by (simp add: Feed_def mark_def Let_def split: option.split)
  have stop: "verdict (feed_all ms (snd (Feed ?m b))) = Some r" if "end_reason ?m ?g1 = Some r" for ms r
    using that by (simp add: fd feed_all_ended verdict_def)
  have go: "map_option end_reason_of (iter_end fs st1 d1) = verdict (feed_all (map (\<lambda>f. MMap (Some f)) fs) (snd (Feed ?m b)))"
    if "end_reason ?m ?g1 = None" "gate_of st1 d1 = ?g1" "turn_sim dropFn loopID tid st1 d1"
    by (rule Cons.IH) (use that Cons.prems fd in simp_all)
  show ?case
  proof (cases act)
    case (ItEmit c fin)
    then show ?thesis using it ag go stop
      by (cases fin) (simp_all add: step_agrees_def Let_def feed_all_Cons)
  qed (use it ag go stop in \<open>simp_all add: step_agrees_def Let_def feed_all_Cons\<close>)
qed (simp add: feed_all_def verdict_def)

section \<open>Properties\<close>


definition running_frame :: "string \<Rightarrow> gobj" where
  "running_frame tid = [(''type'', GStr ''status''), (''state'', GStr ''running''), (''turn_id'', GStr tid)]"

definition chunk_frame :: "string \<Rightarrow> string \<Rightarrow> gval \<Rightarrow> gobj" where
  "chunk_frame tid mode data =
     [(''type'', GStr ''event''), (''mode'', GStr mode), (''turn_id'', GStr tid), (''data'', data)]"

definition stream_end_data :: gval where
  "stream_end_data = GMap [(''type'', GStr STREAM_END)]"

lemma demo_trim: "TrimSpace ''l:1'' = ''l:1''"
  by (simp add: TrimSpace_plain_ends plain_byteI)

lemma frame_turn_demo: "FrameTurnID (Some (running_frame ''l:1'')) = ''l:1''" "FrameTurnID (Some (chunk_frame ''l:1'' m x)) = ''l:1''"
  by (simp_all add: FrameTurnID_def running_frame_def chunk_frame_def demo_trim)


definition cancel_frame :: gobj where
  "cancel_frame = [(''type'', GStr ''command_response''), (''content'', GStr ''Cancellation requested'')]"

definition idle_frame :: gobj where
  "idle_frame = [(''type'', GStr ''status''), (''state'', GStr ''idle'')]"

lemma feed_idle:
  assumes "\<not> b_Ended b" "\<not> g_CancellationSeen (b_Gate b)"
  shows "feed_all (replicate n (MMap (Some idle_frame))) b = b"
proof (induction n)
  case (Suc n)
  have "Feed (MMap (Some idle_frame)) b = ((False, []), b)"
    using assms
    by (simp add: Feed_def Observe_def end_reason_def idle_frame_def AllowIdleComplete_def IsIdleTerminalAllowed_iff
        FrameTurnID_def Let_def)
  with Suc show ?case by (simp add: feed_all_Cons)
qed (simp add: feed_all_def)

text \<open>C39: The two decisions differ on a cancelled turn: after a running status, the daemon's confirmation of
  the cancellation and idle statuses without a turn id, the session's loop has ended the turn,
  while the turn runner's boundary has not, however many such statuses follow, since nothing
  records the cancellation in its gate.\<close>

theorem cancelled_turn_ends_only_in_session:
  assumes "TrimSpace tid = tid" "tid \<noteq> []" "fs = running_frame tid # cancel_frame # replicate (Suc n) idle_frame"
  shows "iter_end fs (start_locals d) d = Some ''idle''
    \<and> \<not> b_Ended (feed_all (map (\<lambda>f. MMap (Some f)) fs) zero_boundary)"
proof -
  have t: "FrameTurnID (Some (running_frame tid)) = tid" "FrameTurnID (Some cancel_frame) = []" "FrameTurnID (Some idle_frame) = []"
    using assms(1,2) by (simp_all add: FrameTurnID_def running_frame_def cancel_frame_def idle_frame_def)
  let ?st = "\<lparr>tl_queryStarted = True, tl_expectedLoopID = ds_loopID d, tl_expectedTurnID = tid, tl_turnProgressSeen = False\<rparr>"
  let ?d = "d\<lparr>ds_LastTurnCancelSeen := True\<rparr>"
  have 1: "iter_frame (running_frame tid) (start_locals d) d = (ItContinue, ?st, d)"
    using assms(2) t(1)
    by (simp add: iter_frame_def session_frame_def foreign_loop_def other_turn_def status_frame_def bind_status_def
        start_locals_def running_frame_def Let_def)
  have "Contains ''Cancellation requested'' ''Cancellation requested''" by (simp add: Contains_def)
  then have 2: "iter_frame cancel_frame ?st d = (ItContinue, ?st, ?d)"
    by (simp add: iter_frame_def session_frame_def foreign_loop_def other_turn_def cancel_frame_def Let_def)
  have 3: "iter_frame idle_frame ?st ?d = (ItEnd ''idle'', ?st, ?d)"
    using assms t(3)
    by (simp add: iter_frame_def session_frame_def foreign_loop_def other_turn_def status_frame_def idle_frame_def
        IsIdleTerminalAllowed_iff Let_def)
  let ?g = "\<lparr>g_SawRunning = True, g_SawTurnProgress = False, g_ExpectedTurnID = tid, g_CancellationSeen = False\<rparr>"
  have b1: "snd (Feed (MMap (Some (running_frame tid))) zero_boundary) = zero_boundary\<lparr>b_Gate := ?g\<rparr>"
    using assms(2) t(1)
    by (simp add: Feed_def zero_boundary_def zero_gate_def Observe_def bind_turn_def end_reason_def running_frame_def Let_def)
  have b2: "snd (Feed (MMap (Some cancel_frame)) (zero_boundary\<lparr>b_Gate := ?g\<rparr>)) = zero_boundary\<lparr>b_Gate := ?g\<rparr>"
    by (simp add: Feed_def zero_boundary_def Observe_def end_reason_def cancel_frame_def Let_def)
  have "map (\<lambda>f. MMap (Some f)) fs = MMap (Some (running_frame tid)) # MMap (Some cancel_frame)
      # replicate (Suc n) (MMap (Some idle_frame))" by (simp add: assms(3))
  then have "feed_all (map (\<lambda>f. MMap (Some f)) fs) zero_boundary = zero_boundary\<lparr>b_Gate := ?g\<rparr>"
    by (simp only: feed_all_Cons b1 b2) (rule feed_idle, simp_all add: zero_boundary_def)
  then show ?thesis by (simp add: assms(3) 1 2 3 zero_boundary_def)
qed

theorem cancelled_turn_ends_only_in_session_witness:
  "iter_end [running_frame ''l:1'', cancel_frame, idle_frame, idle_frame] (start_locals (example_session [])) (example_session [])
     = Some ''idle''
   \<and> \<not> b_Ended (feed_all (map (\<lambda>f. MMap (Some f)) [running_frame ''l:1'', cancel_frame, idle_frame, idle_frame]) zero_boundary)"
  by (rule cancelled_turn_ends_only_in_session [where n = 1, OF demo_trim]) simp_all

text \<open>C40: Chunks sent inside \<^verbatim>\<open>next\<close> envelopes are lost: once the loop has bound a turn id, an event whose
  data names no turn and that the daemon wraps is skipped, whatever turn id it carried, because
  decoding drops the id and the loop accepts no event without it.\<close>

theorem wrapped_chunks_lost:
  assumes "wire_event e" "event_turn [] (ev_Data e) = []"
    "decode_doc (marshal (GMap (wrap_next (event_obj e)))) = Some m" "msg_map m = Some f" "tl_expectedTurnID st \<noteq> []"
  shows "iter_frame f st d = (ItContinue, st, d)"
proof -
  have ty: "idx (event_obj e) ''type'' = GStr ''event''" "has_key (event_obj e) ''mode''" "wf_obj (event_obj e)"
    using assms(1) by (simp_all add: wire_event_def event_obj_def opt_str_def opt_int_def opt_val_def wf_obj_def)
  have dat: "wire_val (ev_Data e)" "to_iface (marshal (idx (event_obj e) ''data'')) = ev_Data e"
    using assms(1) by (simp_all add: wire_event_def event_obj_def opt_str_def opt_int_def opt_val_def to_iface_marshal)
  have "\<exists>em. m = MEvent em \<and> ev_Type em = ''event'' \<and> ev_TurnID em = [] \<and> ev_Data em = ev_Data e"
    using decode_wrapped_event [OF ty(3) _ ty(2)] ty(1) dat(2) assms(3) by (auto simp: zero_event_def)
  then obtain em where em: "m = MEvent em" "ev_Type em = ''event''" "ev_TurnID em = []" "ev_Data em = ev_Data e" by blast
  then have f: "f = reread (event_obj em)" using assms(4) by (simp add: msg_map_event)
  have idx: "idx f ''type'' = GStr ''event''" "idx f ''turn_id'' = GNil" "idx f ''data'' = ev_Data e"
    using em dat(1) by (simp_all add: f event_obj_def opt_str_def opt_int_def opt_val_def to_iface_marshal)
  have "FrameTurnID (Some f) = []"
    using assms(2) by (auto simp: FrameTurnID_def idx event_turn_def Let_def split: option.splits if_splits)
  then have "other_turn (tl_expectedTurnID st) (Some f)"
    using assms(5) by (simp add: other_turn_def idx TurnIDsMatch_iff Let_def)
  then show ?thesis by (simp add: iter_frame_def session_frame_def idx Let_def)
qed

theorem wrapped_chunks_lost_witness:
  "iter_frame (reread (event_obj (zero_event\<lparr>ev_Type := ''event'', ev_Mode := ''messages'', ev_Data := GStr ''hello''\<rparr>)))
      \<lparr>tl_queryStarted = True, tl_expectedLoopID = [], tl_expectedTurnID = ''l:1'', tl_turnProgressSeen = False\<rparr> (example_session [])
   = (ItContinue, \<lparr>tl_queryStarted = True, tl_expectedLoopID = [], tl_expectedTurnID = ''l:1'', tl_turnProgressSeen = False\<rparr>,
      example_session [])"
proof -
  let ?e = "zero_event\<lparr>ev_Type := ''event'', ev_Mode := ''messages'', ev_TurnID := ''l:1'', ev_Data := GStr ''hello''\<rparr>"
  let ?m = "MEvent (?e\<lparr>ev_TurnID := []\<rparr>)"
  have w: "wire_event ?e"
    by (simp add: wire_event_def zero_event_def zero_time_def rfc3339_def two_digits_def char_digit_def
        days_in_def zone_ok_def int64_min_def int64_max_def is_digit_def)
  have ev: "event_turn [] (ev_Data ?e) = []" by code_simp
  have wf: "wf_obj (event_obj ?e)" by (simp add: event_obj_def wf_obj_def opt_str_def opt_int_def opt_val_def)
  have dec: "decode_doc (marshal (GMap (wrap_next (event_obj ?e)))) = Some ?m"
    using decode_wrapped_event [OF wf] w
    by (simp add: wire_event_def event_obj_def opt_str_def opt_int_def opt_val_def zero_event_def)
  show ?thesis using wrapped_chunks_lost [OF w ev dec msg_map_event] by (simp add: zero_event_def)
qed

text \<open>C33: A ping ends the turn early: when the loop reads a payload that holds only a ping, it answers it
  and then returns without an error and without an end state, although the connection is alive, the
  turn has started and its frames are still to be read.\<close>

theorem ping_ends_turn_iteration:
  assumes "link_inv got (ds_client d)" "c_pendingEvents (ds_client d) = []" "c_conn (ds_client d) \<noteq> None"
    "\<not> c_closed (ds_client d)" "\<not> c_disconnected (ds_client d)" "e_reads (ds_client d) = RData data # rs"
    "payload_msgs data = [MEnvelope env]" "env_Type env = ''ping''" "ii_ctx i = None" "\<not> ii_late i"
  shows "\<exists>d'. iter_loop fm maxWait dr (i # its) st d = Ret ([], None) d'
    \<and> ds_LastTurnEndState d' = ds_LastTurnEndState d \<and> e_reads (ds_client d') = rs"
proof -
  have dc: "c_disconnected (snd (write_msg m s)) = c_disconnected s" for m s
    by (simp add: write_msg_def split: list.split bool.split)
  have "\<exists>s'. ReadEvent (ds_client d) = Ret (Inr None) s' \<and> c_conn s' \<noteq> None \<and> \<not> c_closed s' \<and> \<not> c_disconnected s'
      \<and> \<not> c_mu s' \<and> e_reads s' = rs"
    using assms(1-8) dc
    by (auto simp: ReadEvent_def isControlFrame_def sendPong_def locked_def link_inv_def Let_def)
  then obtain s' where s': "ReadEvent (ds_client d) = Ret (Inr None) s'" "c_conn s' \<noteq> None" "\<not> c_closed s'"
    "\<not> c_disconnected s'" "\<not> c_mu s'" "e_reads s' = rs" by blast
  then have "on_client ReadEvent d = Ret (Inr None) (d\<lparr>ds_client := s'\<rparr>)"
    "on_client IsConnectionAlive (d\<lparr>ds_client := s'\<rparr>) = Ret True (d\<lparr>ds_client := s'\<rparr>)"
    by (simp_all add: on_client_def IsConnectionAlive_def IsConnected_def IsDisconnected_def locked_def)
  then show ?thesis using s'(6) assms(9,10) by (auto simp: Let_def)
qed

theorem ping_ends_turn_iteration_witness:
  "\<exists>d'. iter_loop (\<lambda>_. []) 0 [] [example_round]
      \<lparr>tl_queryStarted = True, tl_expectedLoopID = ''l'', tl_expectedTurnID = ''l:1'', tl_turnProgressSeen = True\<rparr>
      (example_session [RData (type_text ''ping''), RData (type_text ''event'')]) = Ret ([], None) d'
    \<and> e_reads (ds_client d') = [RData (type_text ''event'')]"
proof -
  let ?d = "example_session [RData (type_text ''ping''), RData (type_text ''event'')]"
  have "c_conn (ds_client ?d) \<noteq> None" "\<not> c_closed (ds_client ?d)" "\<not> c_disconnected (ds_client ?d)"
    by (simp_all add: example_client(1) start_env_def NewClient_def Client.defs env.defs)
  moreover have "env_Type (zero_envelope\<lparr>env_Type := ''ping''\<rparr>) = ''ping''" "ii_ctx example_round = None" "\<not> ii_late example_round"
    by (simp_all add: example_round_def)
  ultimately show ?thesis
    using ping_ends_turn_iteration [OF example_client(2,4) _ _ _ example_client(3) payload_ping] by blast
qed

text \<open>Peeling reorders the buffer: when two or more events are buffered and none of them is stale,
  peeling before a turn moves the first event behind the others, so the turn sees its frames out
  of order.\<close>

theorem peel_reorders_pending:
  assumes "\<not> c_mu s" "c_pendingEvents s = ev # evs" "evs \<noteq> []" "\<forall>e\<in>set (ev # evs). StalePendingFrameLabel (Some e) = []"
    "int (length (ev # evs)) \<le> inbound_cap s"
  shows "\<exists>s'. PeelStalePendingControlEvents s = Ret [] s' \<and> c_pendingEvents s' = evs @ [ev]"
proof -
  have "\<forall>e\<in>set es. StalePendingFrameLabel (Some e) = [] \<Longrightarrow> peel_pending es = ([], es)" for es
    by (induction es) auto
  then have p: "peel_pending (ev # evs) = ([], ev # evs)" using assms(4) by blast
  have cap: "int (length evs) < inbound_cap (s\<lparr>c_pendingEvents := evs\<rparr>)"
    using assms(5) by (simp add: inbound_cap_def split: if_splits)
  have "peel_live (Suc n) s = Ret [] (s\<lparr>c_pendingEvents := evs @ [ev]\<rparr>)" for n
    using assms(1,2,4) cap by (simp add: ReadEventWithTimeout_def enqueuePendingLocked_def Let_def)
  from this [of 7] have "peel_live 8 s = Ret [] (s\<lparr>c_pendingEvents := evs @ [ev]\<rparr>)" by simp
  moreover have "s\<lparr>c_pendingEvents := ev # evs\<rparr> = s" using assms(2) by (cases s) simp
  ultimately have "PeelStalePendingControlEvents s = Ret [] (s\<lparr>c_pendingEvents := evs @ [ev]\<rparr>)"
    unfolding PeelStalePendingControlEvents_def assms(2) p using assms(1) by simp
  then show ?thesis by simp
qed

theorem peel_reorders_pending_witness:
  "\<exists>s'. PeelStalePendingControlEvents
       (start_env ((NewClient ''u'' None)\<lparr>c_conn := Some 0, c_pendingEvents := [chunk_frame ''l:1'' ''messages'' (GStr ''a''),
          chunk_frame ''l:1'' ''messages'' (GStr ''b'')]\<rparr>) [] []) = Ret [] s'
     \<and> c_pendingEvents s' = [chunk_frame ''l:1'' ''messages'' (GStr ''b''), chunk_frame ''l:1'' ''messages'' (GStr ''a'')]"
proof -
  let ?a = "chunk_frame ''l:1'' ''messages'' (GStr ''a'')" and ?b = "chunk_frame ''l:1'' ''messages'' (GStr ''b'')"
  let ?s = "start_env ((NewClient ''u'' None)\<lparr>c_conn := Some 0, c_pendingEvents := [?a, ?b]\<rparr>) [] []"
  have st: "StalePendingFrameLabel (Some (chunk_frame x ''messages'' y)) = []" for x y
    using stale_types_not_event by (simp add: StalePendingFrameLabel.simps chunk_frame_def)
  have s: "\<not> c_mu ?s" "c_pendingEvents ?s = ?a # [?b]" "int (length (?a # [?b])) \<le> inbound_cap ?s"
    by (simp_all add: start_env_def NewClient_def Client.defs env.defs inbound_cap_def DefaultInboundMaxSize_def)
  from peel_reorders_pending [OF s(1,2) _ _ s(3)] st show ?thesis by simp
qed

end
