(* ===== verification/Daemon_Session_Spec.thy ===== *)
theory Daemon_Session_Spec
  imports Daemon_Session
begin

text \<open>
  Properties of the dual-socket session outside its turns: reconnecting, sending a turn and closing.
\<close>

section \<open>Lemmas\<close>

context wait_frame
begin

lemma keeps_await_stream: "keeps s (run_env (await_stream d rid ps its s))"
proof (induction its arbitrary: s rid)
  case (Cons it its)
  obtain p arr where it: "it = (p, arr)" by fastforce
  have mux: "keeps s1 (run_env (await_stream d rid ps its (s1\<lparr>c_mux := mx\<rparr>)))" for s1 mx rid
    using keeps_trans [OF keeps_mux Cons.IH] .
  have "keeps (route_env arr s) (run_env (await_stream d rid ps (it # its) s))"
    by (auto simp: it Let_def keeps_refl keeps_mux intro!: keeps_andThen keeps_ReadEvent mux Cons.IH
        split: poll.split option.split sum.split prod.split)
  with keeps_route_env show ?case by (rule keeps_trans)
qed (simp add: keeps_refl)

lemma keeps_after_sub: "keeps s (run_env r) \<Longrightarrow> keeps s (run_env (after_sub ps rid r))"
  unfolding after_sub_def by (rule keeps_andThen) (simp_all add: keeps_mux keeps_refl split: option.split)

end

lemma LoopSubscribe_link:
  assumes "LoopSubscribe cx uuid early d its loopID verbosity s = Ret r s'"
  shows "link_kept s s'"
proof -
  let ?env = "NewSubscribeEnvelope uuid ''loop_events''
      (Some (put_if (verbosity \<noteq> []) ''verbosity'' (GStr verbosity) [(''loop_id'', GStr loopID)]))"
  obtain err s1 where s1: "SendMessage cx (MEnvelope ?env) s = Ret err s1"
    using assms by (auto simp: LoopSubscribe_def Let_def andThen_Ret_iff)
  note k1 = SendMessage_link [OF s1]
  show ?thesis
  proof (cases err)
    case None
    obtain ps mx where reg: "registerSubscription (env_ID ?env) (c_mux (route_env early s1)) = (ps, mx)" by fastforce
    let ?s2 = "(route_env early s1)\<lparr>c_mux := mx\<rparr>"
    have "after_sub ps (env_ID ?env) (await_stream d (env_ID ?env) ps its ?s2) = Ret r s'"
      using assms s1 None reg by (simp add: LoopSubscribe_def Let_def)
    from link_Ret [OF link.keeps_after_sub [OF link.keeps_await_stream] this] have "link_kept ?s2 s'" .
    with k1 show ?thesis by (simp add: link_kept_def route_env_def)
  qed (use assms s1 k1 in \<open>auto simp: LoopSubscribe_def Let_def\<close>)
qed

lemmas call_links = RequestResponse_link LoopSubscribe_link

lemma obtain_loop_link:
  assumes "obtain_loop c resume ws opts s = Ret r s1"
  shows "link_kept s s1 \<and> (\<forall>lid. r = Inr lid \<longrightarrow> lid \<noteq> [])"
proof (cases "TrimSpace resume = []")
  case True
  then obtain x sa where x: "rpc_call c (loop_new_payload ws opts) ''loop_new'' s = Ret x sa"
    using assms by (auto simp: obtain_loop_def Let_def andThen_Ret_iff)
  then have "link_kept s sa" by (simp add: rpc_call_def RequestResponse_link)
  then show ?thesis using assms True x by (cases x) (auto simp: obtain_loop_def Let_def split: if_splits)
qed (use assms in \<open>auto simp: obtain_loop_def Let_def link.keeps_refl\<close>)

lemma Bootstrap_link:
  assumes "BootstrapLoopSession fmt c1 c2 resume ws cfgo opts s = Ret r s'"
  shows "link_kept s s' \<and> (\<forall>lid. r = Inr lid \<longrightarrow> lid \<noteq> [])"
proof -
  let ?cfg = "case cfgo of None \<Rightarrow> DefaultConfig | Some c \<Rightarrow> c"
  obtain r1 s1 where ob: "obtain_loop c1 resume ws opts s = Ret r1 s1"
    using assms by (auto simp: BootstrapLoopSession_def Let_def andThen_Ret_iff)
  have k1: "link_kept s s1" "\<forall>lid. r1 = Inr lid \<longrightarrow> lid \<noteq> []"
    using obtain_loop_link [OF ob] by auto
  show ?thesis
  proof (cases r1)
    case (Inr lid)
    then obtain r2 s2 where sub: "sub_call c2 lid (cfg_VerbosityLevel ?cfg) s1 = Ret r2 s2"
      using assms ob by (auto simp: BootstrapLoopSession_def Let_def andThen_Ret_iff)
    have "link_kept s s2" using link.keeps_trans [OF k1(1)] LoopSubscribe_link sub by (simp add: sub_call_def)
    then show ?thesis using assms ob Inr sub k1(2)
      by (auto simp: BootstrapLoopSession_def Let_def split: sum.splits option.splits bool.splits)
  qed (use assms ob k1 in \<open>auto simp: BootstrapLoopSession_def Let_def\<close>)
qed

lemma Probe_link:
  assumes "ReattachAndProbe c1 c2 c3 loopID s = Ret r s'"
  shows "link_kept s s'"
proof (cases "loopID = []")
  case False
  let ?p1 = "[(''type'', GStr ''loop_reattach''), (''loop_id'', GStr loopID)]"
  obtain r1 s1 where 1: "rpc_call c1 ?p1 ''loop_reattach'' s = Ret r1 s1"
    using assms False by (auto simp: ReattachAndProbe_def andThen_Ret_iff)
  then have k1: "link_kept s s1" by (simp add: rpc_call_def RequestResponse_link)
  show ?thesis
  proof (cases r1)
    case (Inr x)
    then obtain r2 s2 where 2: "sub_call c2 loopID (cfg_VerbosityLevel (c_config s1)) s1 = Ret r2 s2"
      using assms False 1 by (auto simp: ReattachAndProbe_def andThen_Ret_iff)
    then have k2: "link_kept s s2" using link.keeps_trans [OF k1] by (simp add: sub_call_def LoopSubscribe_link)
    show ?thesis
    proof (cases r2)
      case (Inr y)
      then obtain r3 s3 where 3: "rpc_call c3 (loop_get_payload loopID False) ''loop_get_response'' s2 = Ret r3 s3"
        using assms False 1 2 \<open>r1 = Inr x\<close> by (auto simp: ReattachAndProbe_def andThen_Ret_iff)
      then have k3: "link_kept s s3" using link.keeps_trans [OF k2] by (simp add: rpc_call_def RequestResponse_link)
      have "s' = s3"
        using assms False 1 2 3 Inr \<open>r1 = Inr x\<close>
        by (auto simp: ReattachAndProbe_def split: sum.splits option.splits goerr.splits if_splits)
      with k3 show ?thesis by simp
    qed (use assms False 1 2 \<open>r1 = Inr x\<close> k2 in \<open>auto simp: ReattachAndProbe_def\<close>)
  qed (use assms False 1 k1 in \<open>auto simp: ReattachAndProbe_def\<close>)
qed (use assms in \<open>simp add: ReattachAndProbe_def link.keeps_refl\<close>)

lemma on_client_Ret: "on_client f d = Ret x d' \<longleftrightarrow> (\<exists>s. f (ds_client d) = Ret x s \<and> d' = d\<lparr>ds_client := s\<rparr>)"
  by (auto simp: on_client_def split: run.splits)

lemma on_rpc_Ret: "on_rpc f d = Ret x d' \<longleftrightarrow> (\<exists>s. f (ds_rpcClient d) = Ret x s \<and> d' = d\<lparr>ds_rpcClient := s\<rparr>)"
  by (auto simp: on_rpc_def split: run.splits)

text \<open>The stream client holds an open connection.\<close>

definition streaming :: "DaemonSession \<Rightarrow> bool" where
  "streaming d \<longleftrightarrow> c_conn (ds_client d) \<noteq> None \<and> \<not> c_closed (ds_client d)"

lemma streaming_kept: "streaming d \<Longrightarrow> link_kept (ds_client d) s \<Longrightarrow> streaming (d\<lparr>ds_client := s\<rparr>)"
  by (simp add: streaming_def link_kept_def)

lemma bootstrapLoop_result:
  assumes "bootstrapLoop fmt b res d = Ret r d'" "streaming d"
  shows "streaming d' \<and> ds_closed d' = ds_closed d \<and> ds_rpcConnected d' = ds_rpcConnected d
    \<and> (\<forall>x. r = Inr x \<longrightarrow> ds_loopID d' \<noteq> [])"
proof -
  let ?opts = "if ds_workspace d \<noteq> [] then Some \<lparr>lso_ClientWorkspace = ds_workspace d, lso_UserID = [], lso_ClientWorkspaceID = []\<rparr> else None"
  obtain x s where x: "BootstrapLoopSession fmt (fst b) (snd b) res (ds_workspace d) (Some (ds_cfg d)) ?opts (ds_client d) = Ret x s"
    using assms(1) by (auto simp: bootstrapLoop_def Let_def andThen_Ret_iff on_client_Ret)
  note k = Bootstrap_link [OF x]
  have "streaming (d\<lparr>ds_client := s\<rparr>)" using streaming_kept assms(2) k by blast
  then show ?thesis
    using assms(1) x k by (cases x) (auto simp: bootstrapLoop_def on_client_def streaming_def)
qed

lemma drop_rpc_result:
  assumes "drop_rpc d = Ret u d'"
  shows "\<not> ds_rpcConnected d' \<and> ds_client d' = ds_client d \<and> ds_loopID d' = ds_loopID d \<and> ds_closed d' = ds_closed d"
  using assms by (auto simp: drop_rpc_def andThen_Ret_iff on_rpc_Ret split: if_splits)

lemma ConnectWithRetries_streaming:
  assumes "ConnectWithRetries n ins s = Ret (k, None) s'"
  shows "c_conn s' \<noteq> None \<and> \<not> c_closed s'"
  using retry_loop_result [OF assms [unfolded ConnectWithRetries_def Let_def]] by simp

lemma reconnect_stream_result:
  assumes "reconnect_stream i d = Ret err d'"
  shows "(err = None \<longrightarrow> streaming d') \<and> ds_loopID d' = ds_loopID d \<and> ds_closed d' = ds_closed d
    \<and> ds_rpcConnected d' = ds_rpcConnected d"
proof -
  obtain e1 s1 where r: "Reconnect (en_reconnect i) (ds_client d) = Ret e1 s1"
    using assms by (auto simp: reconnect_stream_def andThen_Ret_iff on_client_Ret)
  show ?thesis
  proof (cases e1)
    case None
    then have "c_conn s1 \<noteq> None \<and> \<not> c_closed s1"
      using r Connect_result by (fastforce simp: Reconnect_def Let_def split: if_splits)
    then show ?thesis using assms r None by (auto simp: reconnect_stream_def on_client_def streaming_def)
  next
    case (Some e)
    then obtain u s2 k s3 where "Close s1 = Ret u s2" "ConnectWithRetries 40 (en_retries i) s2 = Ret (k, err) s3"
        "d' = d\<lparr>ds_client := s3\<rparr>"
      using assms r by (auto simp: reconnect_stream_def andThen_Ret_iff on_client_Ret)
    then show ?thesis using ConnectWithRetries_streaming by (auto simp: streaming_def)
  qed
qed

section \<open>Properties\<close>

text \<open>C22: Reconnecting restores the session: when the stream socket was dead and \<^verbatim>\<open>EnsureConnected\<close> reports
  success, the stream client holds an open connection, the session has a loop, and the stale
  metadata socket is no longer marked as connected. The loop is the previous one if there was one
  and its probe succeeded, and otherwise the one the bootstrap created.\<close>

theorem ensure_connected_restores:
  assumes "EnsureConnected fmt i d = Ret None d'" "on_client IsConnectionAlive d = Ret False d"
  shows "streaming d' \<and> ds_loopID d' \<noteq> [] \<and> \<not> ds_rpcConnected d' \<and> ds_closed d' = ds_closed d"
proof -
  define boot where "boot = (\<lambda>res d'. andThen (bootstrapLoop fmt (en_boot i) res d')
       (\<lambda>r d''. Ret (case r of Inl e \<Rightarrow> Some e | Inr _ \<Rightarrow> None) d''))"
  have bt: "streaming d4 \<and> ds_loopID d4 \<noteq> [] \<and> ds_rpcConnected d4 = ds_rpcConnected d3 \<and> ds_closed d4 = ds_closed d3"
    if st: "streaming d3" and bo: "boot res d3 = Ret None d4" for res d3 d4
  proof -
    obtain r where r: "bootstrapLoop fmt (en_boot i) res d3 = Ret r d4" "(case r of Inl e \<Rightarrow> Some e | Inr _ \<Rightarrow> None) = None"
      using bo by (auto simp: boot_def andThen_Ret_iff)
    then show ?thesis using bootstrapLoop_result [OF r(1) st] by (cases r) auto
  qed
  obtain c1 c2 c3 where pr: "en_probe i = (c1, c2, c3)" by (metis prod.exhaust)
  obtain u d1 where d1: "drop_rpc d = Ret u d1"
    using assms by (auto simp: EnsureConnected_def andThen_Ret_iff Let_def)
  obtain err d2 where d2: "reconnect_stream i d1 = Ret err d2"
    using assms d1 by (auto simp: EnsureConnected_def andThen_Ret_iff Let_def)
  have err: "err = None" using assms d1 d2 by (cases err) (auto simp: EnsureConnected_def)
  note k2 = reconnect_stream_result [OF d2] drop_rpc_result [OF d1]
  have s2: "streaming d2" "\<not> ds_rpcConnected d2" "ds_closed d2 = ds_closed d" using k2 err by auto
  show ?thesis
  proof (cases "ds_loopID d = []")
    case True
    then have "boot [] d2 = Ret None d'"
      using assms d1 d2 err unfolding boot_def by (simp add: EnsureConnected_def Let_def)
    from bt [OF s2(1) this] s2 show ?thesis by simp
  next
    case False
    then obtain perr s3 where p: "ReattachAndProbe c1 c2 c3 (ds_loopID d) (ds_client d2) = Ret perr s3"
      using assms d1 d2 err pr by (auto simp: EnsureConnected_def Let_def andThen_Ret_iff on_client_Ret)
    let ?d3 = "d2\<lparr>ds_client := s3\<rparr>"
    have s3: "streaming ?d3" using streaming_kept [OF s2(1) Probe_link [OF p]] .
    show ?thesis
    proof (cases perr)
      case None
      then have "d' = ?d3\<lparr>ds_loopID := ds_loopID d\<rparr>"
        using assms d1 d2 err pr p False by (simp add: EnsureConnected_def Let_def on_client_def)
      then show ?thesis using s3 s2 False by (simp add: streaming_def)
    next
      case (Some e)
      then have "boot [] ?d3 = Ret None d'"
        using assms d1 d2 err pr p False unfolding boot_def
        by (auto simp: EnsureConnected_def Let_def on_client_def split: option.splits)
      from bt [OF s3 this] s2 show ?thesis by simp
    qed
  qed
qed

text \<open>A daemon for the examples: it acknowledges the connection and answers every call.\<close>

definition quoted :: "string \<Rightarrow> string" where
  "quoted s = map (\<lambda>c. if c = CHR ''|'' then CHR 0x22 else c) s"

definition ack_text :: string where
  "ack_text = quoted ''{|type|:|connection_ack|,|result|:{|readiness_state|:|ready|}}''"

definition good_connect :: connect_in where
  "good_connect = \<lparr>ci_dial = Inr 7, ci_cx = None, ci_d = ''20s'',
     ci_rounds = [\<lparr>hr_before = True, hr_pause = None, hr_send = None\<rparr>]\<rparr>"

definition answered :: "string \<Rightarrow> string \<Rightarrow> call_in" where
  "answered ty rid = \<lparr>in_cx = None, in_uuid = rid, in_early = [], in_d = ''5s'',
     in_rounds = [(Ready False, [[(''type'', GStr ty), (''id'', GStr rid)]])]\<rparr>"

definition example_ensure :: ensure_in where
  "example_ensure =
     \<lparr>en_reconnect = good_connect, en_retries = [],
      en_probe = (answered ''response'' ''r1'', answered ''next'' ''s1'', answered ''response'' ''r2''),
      en_boot = (answered ''response'' ''r3'', answered ''next'' ''s2'')\<rparr>"

definition dead_session :: DaemonSession where
  "dead_session =
     (NewDaemonSession ''u'' None [RData ack_text] [] [] [])\<lparr>ds_loopID := ''l'', ds_rpcConnected := True\<rparr>"

theorem ensure_connected_restores_witness:
  "\<exists>d'. EnsureConnected (\<lambda>_. []) example_ensure dead_session = Ret None d'
     \<and> streaming d' \<and> ds_loopID d' \<noteq> [] \<and> \<not> ds_rpcConnected d'"
proof -
  have "case EnsureConnected (\<lambda>_. []) example_ensure dead_session of Ret None d' \<Rightarrow> True | _ \<Rightarrow> False"
    by code_simp
  then obtain d' where d': "EnsureConnected (\<lambda>_. []) example_ensure dead_session = Ret None d'"
    by (auto split: run.splits option.splits)
  have "on_client IsConnectionAlive dead_session = Ret False dead_session"
    by (simp add: on_client_def IsConnectionAlive_def IsConnected_def locked_def dead_session_def NewDaemonSession_def
        start_env_def NewClient_def Client.defs env.defs Let_def)
  from ensure_connected_restores [OF d' this] d' show ?thesis by blast
qed

text \<open>Closing a session that was connected again does not close it: once \<^verbatim>\<open>Close\<close> has run, its flag stays
  set, so after a successful \<^verbatim>\<open>Connect\<close> on the same session a further \<^verbatim>\<open>Close\<close> returns without an error
  and leaves the stream socket open.\<close>

theorem reconnected_session_stays_open:
  assumes "ds_Close d = Ret e1 d1" "ds_Connect fmt ins b resume d1 = Ret (Inr x) d2" "ds_Close d2 = Ret e3 d3"
  shows "e3 = None \<and> streaming d3"
proof -
  have c1: "ds_closed d1" using assms(1) by (auto simp: ds_Close_def andThen_Ret_iff on_client_Ret on_rpc_Ret split: if_splits)
  obtain k err s where s: "ConnectWithRetries 40 ins (ds_client d1) = Ret (k, err) s"
    using assms(2) by (auto simp: ds_Connect_def andThen_Ret_iff on_client_Ret)
  have "err = None" using assms(2) s by (cases err) (auto simp: ds_Connect_def on_client_def)
  then have b: "bootstrapLoop fmt b resume (d1\<lparr>ds_client := s\<rparr>) = Ret (Inr x) d2" "streaming (d1\<lparr>ds_client := s\<rparr>)"
    using assms(2) s ConnectWithRetries_streaming [of 40 ins "ds_client d1" k s]
    by (auto simp: ds_Connect_def on_client_def streaming_def)
  from bootstrapLoop_result [OF this] c1 have "streaming d2" "ds_closed d2" by auto
  then show ?thesis using assms(3) by (simp add: ds_Close_def)
qed

theorem reconnected_session_stays_open_witness:
  "\<exists>d1 x d2 d3. ds_Close dead_session = Ret None d1
     \<and> ds_Connect (\<lambda>_. []) [(good_connect, None)] (answered ''response'' ''r3'', answered ''next'' ''s2'') ''l'' d1 = Ret (Inr x) d2
     \<and> ds_Close d2 = Ret None d3 \<and> streaming d3"
proof -
  have "case ds_Close dead_session of
      Ret None d1 \<Rightarrow>
        (case ds_Connect (\<lambda>_. []) [(good_connect, None)] (answered ''response'' ''r3'', answered ''next'' ''s2'') ''l'' d1 of
           Ret (Inr x) d2 \<Rightarrow> (case ds_Close d2 of Ret e d3 \<Rightarrow> True | _ \<Rightarrow> False)
         | _ \<Rightarrow> False)
    | _ \<Rightarrow> False"
    by code_simp
  then obtain d1 x d2 e d3 where "ds_Close dead_session = Ret None d1"
      "ds_Connect (\<lambda>_. []) [(good_connect, None)] (answered ''response'' ''r3'', answered ''next'' ''s2'') ''l'' d1 = Ret (Inr x) d2"
      "ds_Close d2 = Ret e d3"
    by (auto split: run.splits option.splits sum.splits)
  with reconnected_session_stays_open [OF this] show ?thesis by blast
qed

end
