(* ===== verification/Turn_Delivery.thy ===== *)
theory Turn_Delivery
  imports Turn_Iter_Spec Daemon_Session_Spec
begin

text \<open>
  Delivery of a streamed turn: the chunks of the turn reach the consumer complete and in order, and
  nothing the early filter rejects is ever forwarded.
\<close>

section \<open>Delivery\<close>

text \<open>A payload that brings one status or event frame to the reader.\<close>

definition brings :: "string \<Rightarrow> gobj \<Rightarrow> bool" where
  "brings data f \<longleftrightarrow>
     (\<exists>m. payload_msgs data = [m] \<and> \<not> is_control m \<and> msg_map m = Some f \<and> asString (idx f ''type'') \<in> {''status'', ''event''})"

text \<open>A stream client in order with nothing buffered and the given reads.\<close>

definition reading :: "DisconnectCause list \<Rightarrow> read list \<Rightarrow> DaemonSession \<Rightarrow> bool" where
  "reading got rs d \<longleftrightarrow>
     link_inv got (ds_client d) \<and> c_pendingEvents (ds_client d) = [] \<and> c_conn (ds_client d) \<noteq> None \<and> e_reads (ds_client d) = rs"

lemma route_frame: "asString (idx f ''type'') \<in> {''status'', ''event''} \<Longrightarrow> route (Some f) m = (False, m)"
  by (auto simp: route_def route_lookup_def Let_def)

lemma read_frame:
  assumes "reading got (RData data # rs) d" "brings data f"
  shows "\<exists>d'. on_client ReadEvent d = Ret (Inr (Some f)) d' \<and> reading got rs d'
    \<and> (\<exists>s. d' = d\<lparr>ds_client := s\<rparr>)"
proof -
  let ?s = "(ds_client d)\<lparr>e_reads := rs\<rparr>"
  obtain m where m: "payload_msgs data = [m]" "\<not> is_control m" "msg_map m = Some f" "asString (idx f ''type'') \<in> {''status'', ''event''}"
    using assms(2) unfolding brings_def by blast
  have inv: "link_inv got ?s" using assms(1) by (simp add: reading_def)
  obtain s1 where s1: "isControlFrame m ?s = Ret False s1" "link_inv got s1"
    using isControlFrame_returns [OF inv, of m] m(2) by auto
  obtain s2 where s2: "trackInboundDeliveryAck (Some f) s1 = Ret () s2" "link_inv got s2"
    using track_link_inv [OF s1(2)] by blast
  have "ReadEvent (ds_client d) = Ret (Inr (Some f)) s2"
    using assms(1) m s1 s2 route_frame [OF m(4), of "c_mux s1"]
    by (auto simp: ReadEvent_def reading_def link_inv_def Let_def)
  then show ?thesis
    using isControlFrame_frame [OF s1(1)] track_frame [OF s2(1)] s2(2) assms(1)
    by (auto simp: on_client_def reading_def)
qed

lemma read_frame_timeout:
  assumes "reading got (RTimeout # rs) d"
  shows "\<exists>d'. on_client ReadEventWithTimeout d = Ret (Inr None) d' \<and> reading got rs d' \<and> (\<exists>s. d' = d\<lparr>ds_client := s\<rparr>)"
proof -
  have "\<not> c_mu (ds_client d)" using assms by (simp add: reading_def link_inv_def)
  then show ?thesis using assms by (auto simp: on_client_def ReadEventWithTimeout_def ReadEvent_def reading_def)
qed

lemma peel_quiet:
  assumes "c_pendingEvents (ds_client d) = []" "\<not> c_mu (ds_client d)"
    "on_client ReadEventWithTimeout d = Ret (Inr None) (d\<lparr>ds_client := s\<rparr>)"
  shows "on_client PeelStalePendingControlEvents d = Ret [] (d\<lparr>ds_client := s\<rparr>)"
proof -
  have "ReadEventWithTimeout (ds_client d) = Ret (Inr None) s"
    using assms(3) by (auto simp: on_client_def split: run.splits dest: arg_cong [where f = ds_client])
  then have "peel_live (Suc n) (ds_client d) = Ret [] s" for n by simp
  from this [of 7] have "peel_live 8 (ds_client d) = Ret [] s" by simp
  moreover have "ds_client d\<lparr>c_pendingEvents := []\<rparr> = ds_client d" using assms(1) by (cases "ds_client d") simp
  ultimately have "PeelStalePendingControlEvents (ds_client d) = Ret [] s"
    unfolding PeelStalePendingControlEvents_def assms(1) using assms(2) by simp
  then show ?thesis by (simp add: on_client_def)
qed

text \<open>An event of the turn that passes the filter, and whether it ends the turn.\<close>

definition turn_event :: "DaemonSession \<Rightarrow> string \<Rightarrow> gobj \<Rightarrow> bool" where
  "turn_event d tid f \<longleftrightarrow>
     asString (idx f ''type'') = ''event'' \<and> asString (idx f ''loop_id'') \<in> {[], ds_loopID d} \<and> FrameTurnID (Some f) = tid
     \<and> \<not> early_drop d (frame_chunk (Some f))"

definition ends_turn :: "gobj \<Rightarrow> bool" where
  "ends_turn f \<longleftrightarrow> asString (idx f ''mode'') = ''custom'' \<and> IsTurnEndCustomData (idx f ''data'')"

definition is_progress_frame :: "gobj \<Rightarrow> bool" where
  "is_progress_frame f \<longleftrightarrow> IsTurnProgressChunk (asString (idx f ''mode'')) (idx f ''data'')"

lemma iter_frame_event:
  assumes "turn_event d tid f" "tl_expectedLoopID st \<in> {[], ds_loopID d}" "tl_expectedTurnID st = tid" "tid \<noteq> []"
  shows "iter_frame f st d =
    (if ends_turn f \<and> \<not> IsTurnTerminalAllowed tid (event_turn tid (idx f ''data'')) (tl_queryStarted st) (tl_turnProgressSeen st)
     then (ItContinue, st, d)
     else (ItEmit (frame_chunk (Some f)) (if ends_turn f then Some (end_state (idx f ''data'')) else None),
           if is_progress_frame f then st\<lparr>tl_turnProgressSeen := True\<rparr> else st, d))"
proof -
  have "TurnIDsMatch tid tid" using assms(1,4) FrameTurnID_trimmed [of "Some f"] by (simp add: turn_event_def TurnIDsMatch_iff)
  then show ?thesis
    using assms
    by (auto simp: iter_frame_def session_frame_def turn_event_def foreign_loop_def other_turn_def event_frame_def
        frame_chunk_def ends_turn_def is_progress_frame_def Let_def)
qed


text \<open>A round that reads a frame and forwards its chunk.\<close>

lemma iter_loop_emit:
  assumes "reading got (RData data # rs) d" "brings data f" "ii_ctx i = None" "\<not> ii_late i" "ii_send i = None"
    and fr: "\<forall>d'. ds_earlyDropFn d' = ds_earlyDropFn d \<and> ds_loopID d' = ds_loopID d \<longrightarrow> iter_frame f st d' = (ItEmit c fin, st1, d')"
  shows "\<exists>s. reading got rs (d\<lparr>ds_client := s\<rparr>) \<and> iter_loop fm maxWait dr (i # its) st d =
    andThen (case fin of Some es \<Rightarrow> end_turn dr es st1 (d\<lparr>ds_client := s\<rparr>)
                       | None \<Rightarrow> iter_loop fm maxWait dr its st1 (d\<lparr>ds_client := s\<rparr>))
      (\<lambda>(cs, e) d3. Ret (c # cs, e) d3)"
proof -
  obtain s where "on_client ReadEvent d = Ret (Inr (Some f)) (d\<lparr>ds_client := s\<rparr>)" "reading got rs (d\<lparr>ds_client := s\<rparr>)"
    using read_frame [OF assms(1,2)] by blast
  with assms(3-5) fr [rule_format, of "d\<lparr>ds_client := s\<rparr>"] show ?thesis by auto
qed

lemma turn_event_client [simp]: "turn_event (d\<lparr>ds_client := s\<rparr>) tid f = turn_event d tid f"
  by (simp add: turn_event_def early_drop_def)

lemma turn_event_cong:
  "ds_earlyDropFn d' = ds_earlyDropFn d \<Longrightarrow> ds_loopID d' = ds_loopID d \<Longrightarrow> turn_event d' tid f = turn_event d tid f"
  by (simp add: turn_event_def early_drop_def)

text \<open>The loop over the events of a turn and the event that ends it.\<close>

lemma iter_loop_events:
  assumes fin: "ends_turn fin" "event_turn tid (idx fin ''data'') = tid" "brings de fin" and tid: "tid \<noteq> []"
    and dr: "dr \<noteq> []" "dr_before (hd dr)" "\<not> dr_ctx (hd dr)"
  shows "list_all2 brings ds fs \<Longrightarrow> turn_event d tid fin \<Longrightarrow> \<forall>f\<in>set fs. turn_event d tid f \<and> \<not> ends_turn f \<Longrightarrow>
    reading got (map RData ds @ [RData de, RTimeout]) d \<Longrightarrow> tl_expectedLoopID st \<in> {[], ds_loopID d} \<Longrightarrow>
    tl_expectedTurnID st = tid \<Longrightarrow> tl_queryStarted st \<Longrightarrow> tl_turnProgressSeen st \<or> (\<exists>f\<in>set fs. is_progress_frame f) \<Longrightarrow>
    \<forall>i\<in>set its. ii_ctx i = None \<and> \<not> ii_late i \<and> ii_send i = None \<Longrightarrow> length fs < length its \<Longrightarrow>
    \<exists>s. iter_loop fm maxWait dr its st d = Ret (map (\<lambda>f. frame_chunk (Some f)) (fs @ [fin]), None)
        (d\<lparr>ds_client := s, ds_LastTurnEndState := end_state (idx fin ''data'')\<rparr>) \<and> reading got [] (d\<lparr>ds_client := s\<rparr>)"
proof (induction ds fs arbitrary: d st its rule: list_all2_induct)
  case Nil
  obtain i its' where its: "its = i # its'" using Nil.prems(9) by (cases its) auto
  have i: "ii_ctx i = None" "\<not> ii_late i" "ii_send i = None" using Nil.prems(8) its by auto
  have match: "TurnIDsMatch tid tid" using Nil.prems(1) tid FrameTurnID_trimmed [of "Some fin"] by (auto simp: turn_event_def TurnIDsMatch_iff)
  have np: "\<not> is_progress_frame fin"
    using fin(1) by (auto simp: ends_turn_def is_progress_frame_def IsTurnProgressChunk_def)
  have fr: "iter_frame fin st d' = (ItEmit (frame_chunk (Some fin)) (Some (end_state (idx fin ''data''))), st, d')"
    if "ds_earlyDropFn d' = ds_earlyDropFn d" "ds_loopID d' = ds_loopID d" for d'
    using iter_frame_event [of d' tid fin st] turn_event_cong [OF that] Nil.prems fin that np match tid
    by (simp add: IsTurnTerminalAllowed_iff)
  then have fr': "\<forall>d'. ds_earlyDropFn d' = ds_earlyDropFn d \<and> ds_loopID d' = ds_loopID d \<longrightarrow>
      iter_frame fin st d' = (ItEmit (frame_chunk (Some fin)) (Some (end_state (idx fin ''data''))), st, d')" by blast
  have rd: "reading got (RData de # [RTimeout]) d" using Nil.prems(3) by simp
  obtain s where s: "reading got [RTimeout] (d\<lparr>ds_client := s\<rparr>)"
    "iter_loop fm maxWait dr its st d = andThen (end_turn dr (end_state (idx fin ''data'')) st (d\<lparr>ds_client := s\<rparr>))
       (\<lambda>(cs, e) d3. Ret (frame_chunk (Some fin) # cs, e) d3)"
    using iter_loop_emit [OF rd fin(3) i, of st "frame_chunk (Some fin)" "Some (end_state (idx fin ''data''))" st fm maxWait dr its',
        OF fr'] unfolding its by auto
  let ?d1 = "d\<lparr>ds_client := s, ds_LastTurnEndState := end_state (idx fin ''data'')\<rparr>"
  have "reading got (RTimeout # []) ?d1" using s(1) by (simp add: reading_def)
  then obtain s2 where s2: "on_client ReadEventWithTimeout ?d1 = Ret (Inr None) (?d1\<lparr>ds_client := s2\<rparr>)" "reading got [] (?d1\<lparr>ds_client := s2\<rparr>)"
    using read_frame_timeout by blast
  obtain i' dr' where dr': "dr = i' # dr'" "dr_before i'" "\<not> dr_ctx i'" using dr by (cases dr) auto
  have "end_turn dr (end_state (idx fin ''data'')) st (d\<lparr>ds_client := s\<rparr>) = Ret ([], None) (?d1\<lparr>ds_client := s2\<rparr>)"
    using s2 dr' by (simp add: end_turn_def)
  with s(2) s2(2) show ?case by (intro exI [of _ s2]) (simp add: reading_def)
next
  case (Cons data ds f fs)
  obtain i its' where its: "its = i # its'" using Cons.prems(9) by (cases its) auto
  have i: "ii_ctx i = None" "\<not> ii_late i" "ii_send i = None" using Cons.prems(8) its by auto
  let ?st = "if is_progress_frame f then st\<lparr>tl_turnProgressSeen := True\<rparr> else st"
  have fr: "iter_frame f st d' = (ItEmit (frame_chunk (Some f)) None, ?st, d')"
    if "ds_earlyDropFn d' = ds_earlyDropFn d" "ds_loopID d' = ds_loopID d" for d'
    using iter_frame_event [of d' tid f st] turn_event_cong [OF that] Cons.prems that tid by simp
  then have fr': "\<forall>d'. ds_earlyDropFn d' = ds_earlyDropFn d \<and> ds_loopID d' = ds_loopID d \<longrightarrow>
      iter_frame f st d' = (ItEmit (frame_chunk (Some f)) None, ?st, d')" by blast
  have rd: "reading got (RData data # map RData ds @ [RData de, RTimeout]) d" using Cons.prems(3) by simp
  obtain s where s: "reading got (map RData ds @ [RData de, RTimeout]) (d\<lparr>ds_client := s\<rparr>)"
    "iter_loop fm maxWait dr its st d = andThen (iter_loop fm maxWait dr its' ?st (d\<lparr>ds_client := s\<rparr>))
       (\<lambda>(cs, e) d3. Ret (frame_chunk (Some f) # cs, e) d3)"
    using iter_loop_emit [OF rd Cons.hyps(1) i, of st "frame_chunk (Some f)" None ?st fm maxWait dr its', OF fr'] unfolding its by auto
  have "\<exists>s'. iter_loop fm maxWait dr its' ?st (d\<lparr>ds_client := s\<rparr>) = Ret (map (\<lambda>f. frame_chunk (Some f)) (fs @ [fin]), None)
        ((d\<lparr>ds_client := s\<rparr>)\<lparr>ds_client := s', ds_LastTurnEndState := end_state (idx fin ''data'')\<rparr>)
      \<and> reading got [] ((d\<lparr>ds_client := s\<rparr>)\<lparr>ds_client := s'\<rparr>)"
    by (rule Cons.IH) (use Cons.prems s(1) its in auto)
  with s(2) show ?case by auto
qed

section \<open>Properties\<close>


text \<open>A concrete turn: the text of a running status, of a step and of the stream's end.\<close>

definition example_event :: "string \<Rightarrow> EventMessage" where
  "example_event ty =
     zero_event\<lparr>ev_Type := ''event'', ev_TurnID := ''l:1'', ev_Mode := ''custom'', ev_Data := GMap [(''type'', GStr ty)]\<rparr>"

definition example_status :: StatusResponse where
  "example_status =
     \<lparr>st_RequestID = [], st_Type = ''status'', st_State = ''running'', st_LoopID = [], st_TurnID = ''l:1'', st_Seq = 0,
      st_Workspace = [], st_InputHistory = None, st_ConversationHistory = None\<rparr>"

definition status_text :: string where
  "status_text = quoted ''{|type|:|status|,|state|:|running|,|turn_id|:|l:1|}''"

definition event_text :: "string \<Rightarrow> string" where
  "event_text ty = quoted (''{|type|:|event|,|mode|:|custom|,|turn_id|:|l:1|,|data|:{|type|:|'' @ ty @ ''|}}'')"

definition step_type :: string where "step_type = ''soothe.cognition.strange_loop.step''"

definition running_map :: gobj where
  "running_map = [(''type'', GStr ''status''), (''state'', GStr ''running''), (''turn_id'', GStr ''l:1''), (''workspace'', GStr [])]"

lemma example_payloads:
  "payload_msgs status_text = [MStatus example_status]"
  "payload_msgs (event_text step_type) = [MEvent (example_event step_type)]"
  "payload_msgs (event_text STREAM_END) = [MEvent (example_event STREAM_END)]"
  "msg_map (MStatus example_status) = Some running_map"
  by code_simp+

lemma example_brings:
  "brings status_text running_map"
  "brings (event_text step_type) (reread (event_obj (example_event step_type)))"
  "brings (event_text STREAM_END) (reread (event_obj (example_event STREAM_END)))"
  unfolding brings_def using example_payloads
  by (simp_all add: is_control_def msg_map_event running_map_def example_event_def)

lemma example_fields:
  "ev_Type (example_event ty) = ''event''"
  "idx (event_obj (example_event ty)) ''loop_id'' = GNil"
  "idx (event_obj (example_event ty)) ''turn_id'' = GStr ''l:1''"
  "idx (event_obj (example_event ty)) ''mode'' = GStr ''custom''"
  "idx (event_obj (example_event ty)) ''data'' = GMap [(''type'', GStr ty)]"
  by (simp_all add: example_event_def zero_event_def event_obj_def opt_str_def opt_int_def opt_val_def)


text \<open>The filter of a session does not change, and its chunks pass it.\<close>

lemma on_client_filter: "on_client f d = Ret x d' \<Longrightarrow> ds_earlyDropFn d' = ds_earlyDropFn d"
  by (auto simp: on_client_def split: run.splits)

lemma counts_filter [simp]:
  "ds_earlyDropFn (count_filtered d) = ds_earlyDropFn d" "ds_earlyDropFn (count_drained d) = ds_earlyDropFn d"
  by (simp_all add: count_filtered_def count_drained_def)

definition passes :: "EarlyDropFn \<Rightarrow> TurnChunk list \<Rightarrow> bool" where
  "passes dropFn cs \<longleftrightarrow> (\<forall>c\<in>set cs. \<not> dropFn (tc_Namespace c) (tc_Mode c) (tc_Data c))"

lemma passes_simps [simp]: "passes dropFn []"
  "passes dropFn (c # cs) \<longleftrightarrow> \<not> dropFn (tc_Namespace c) (tc_Mode c) (tc_Data c) \<and> passes dropFn cs"
  by (simp_all add: passes_def)

lemma drain_passes: "drainAfterIdle dr expd d = Ret cs d' \<Longrightarrow> passes (ds_earlyDropFn d) cs"
proof (induction dr arbitrary: expd d cs d')
  case (Cons i dr)
  show ?case
  proof (cases "dr_before i \<and> \<not> dr_ctx i")
    case True
    then obtain r d1 where r: "on_client ReadEventWithTimeout d = Ret r d1" using Cons.prems by (auto simp: andThen_Ret_iff)
    note f = on_client_filter [OF r]
    have IH: "drainAfterIdle dr e d2 = Ret cs' d3 \<Longrightarrow> ds_earlyDropFn d2 = ds_earlyDropFn d \<Longrightarrow> passes (ds_earlyDropFn d) cs'" for e d2 cs' d3
      using Cons.IH [of e d2 cs' d3] by simp
    show ?thesis
      using Cons.prems True r f
      by (auto simp: andThen_Ret_iff early_drop_def Let_def dest!: IH split: sum.splits option.splits if_splits)
  qed (use Cons.prems in \<open>auto split: if_splits\<close>)
qed simp

lemma iter_frame_filter:
  "iter_frame ev st d = (act, st1, d1) \<Longrightarrow> ds_earlyDropFn d1 = ds_earlyDropFn d
     \<and> (\<forall>c fin. act = ItEmit c fin \<longrightarrow> \<not> ds_earlyDropFn d (tc_Namespace c) (tc_Mode c) (tc_Data c))"
  by (auto simp: iter_frame_def status_frame_def event_frame_def early_drop_def Let_def split: if_splits)

lemma iter_loop_passes: "iter_loop fm maxWait dr its st d = Ret (cs, e) d' \<Longrightarrow> passes (ds_earlyDropFn d) cs"
proof (induction its arbitrary: st d cs)
  case (Cons i its)
  have fin: "end_turn dr es st2 d2 = Ret (cs', e') d3 \<Longrightarrow> passes (ds_earlyDropFn d2) cs'" for es st2 d2 cs' e' d3
    using drain_passes by (fastforce simp: end_turn_def andThen_Ret_iff)
  show ?case
  proof (cases "ii_ctx i = None \<and> \<not> (maxWait > 0 \<and> ii_late i)")
    case True
    then obtain r d1 where r: "on_client ReadEvent d = Ret r d1" using Cons.prems by (auto simp: andThen_Ret_iff split: if_splits)
    note f = on_client_filter [OF r]
    show ?thesis
    proof (cases "\<exists>ev. r = Inr (Some ev)")
      case True
      then obtain ev where ev: "r = Inr (Some ev)" by blast
      obtain act st2 d2 where fr: "iter_frame ev st d1 = (act, st2, d2)" by (metis prod.exhaust)
      note k = iter_frame_filter [OF fr]
      show ?thesis
        using Cons.prems \<open>ii_ctx i = None \<and> _\<close> r ev fr k f Cons.IH [of st2 d2] fin [of _ st2 d2]
        by (cases act) (auto simp: andThen_Ret_iff fail_turn_def split: option.splits if_splits)
    next
      case False
      then show ?thesis using Cons.prems \<open>ii_ctx i = None \<and> _\<close> r
        by (auto simp: andThen_Ret_iff fail_turn_def split: sum.splits option.splits if_splits)
    qed
  qed (use Cons.prems in \<open>auto simp: fail_turn_def split: option.splits if_splits\<close>)
qed simp

text \<open>C29: The early filter is respected everywhere: no chunk that the session's filter rejects reaches the
  consumer, neither from the turn nor from the drain after it, whatever is read.\<close>

theorem forwarded_chunks_pass_filter:
  assumes "IterTurnChunks fm maxWait dr its d = Ret (cs, errs) d'" "c \<in> set cs"
  shows "\<not> ds_earlyDropFn d (tc_Namespace c) (tc_Mode c) (tc_Data c)"
proof -
  obtain n d1 ls d2 e d3 where
    "on_client InboundDropped (reset_turn d) = Ret n d1" "on_client PeelStalePendingControlEvents d1 = Ret ls d2"
    "iter_loop fm maxWait dr its (start_locals d1) d2 = Ret (cs, e) d3"
    using assms(1) by (auto simp: IterTurnChunks_def iterTurnChunksLocked_def andThen_Ret_iff)
  with on_client_filter iter_loop_passes have "passes (ds_earlyDropFn (reset_turn d)) cs" by metis
  with assms(2) show ?thesis by (simp add: passes_def reset_turn_def)
qed

definition example_buffered :: DaemonSession where
  "example_buffered =
     (example_session [RError])\<lparr>ds_client :=
        (ds_client (example_session [RError]))\<lparr>c_pendingEvents := [chunk_frame ''l:1'' ''custom'' (GMap [(''type'', GStr step_type)])]\<rparr>\<rparr>"

theorem forwarded_chunks_pass_filter_witness:
  "\<not> ds_earlyDropFn example_buffered None ''custom'' (GMap [(''type'', GStr step_type)])"
proof -
  let ?c = "\<lparr>tc_Namespace = None, tc_Mode = ''custom'', tc_Data = GMap [(''type'', GStr step_type)]\<rparr>"
  have "case IterTurnChunks (\<lambda>_. []) 0 [] (replicate 2 example_round) example_buffered of
      Ret (cs, errs) d' \<Rightarrow> ?c \<in> set cs | _ \<Rightarrow> False"
    by code_simp
  then obtain cs errs d' where "IterTurnChunks (\<lambda>_. []) 0 [] (replicate 2 example_round) example_buffered = Ret (cs, errs) d'" "?c \<in> set cs"
    by (auto split: run.splits)
  from forwarded_chunks_pass_filter [OF this] show ?thesis by simp
qed

end
