(* ===== verification/Attachments.thy ===== *)
theory Attachments
  imports Go_Values "HOL-Library.Signed_Division"
begin

text \<open>
  Compaction of image attachments (appkit/attachments.go) with \<^verbatim>\<open>encoding/base64\<close>. Decoding, scaling and
  encoding of images are the work of the image packages: they are the fields of the argument
  \<open>lib\<close>, and what the code relies on is \<open>codec_laws\<close>.
\<close>

section \<open>Base64\<close>

text \<open>The standard alphabet with padding. Bytes are characters.\<close>

definition b64_code :: "nat \<Rightarrow> nat" where
  "b64_code n = (if n < 26 then n + 65 else if n < 52 then n + 71 else if n < 62 then n - 4 else if n = 62 then 43 else 47)"

definition b64_char :: "nat \<Rightarrow> char" where
  "b64_char n = char_of (b64_code n)"

definition b64_index :: "char \<Rightarrow> nat option" where
  "b64_index c =
     (let n = of_char c :: nat
      in if 65 \<le> n \<and> n \<le> 90 then Some (n - 65)
         else if 97 \<le> n \<and> n \<le> 122 then Some (n - 71)
         else if 48 \<le> n \<and> n \<le> 57 then Some (n + 4)
         else if n = 43 then Some 62
         else if n = 47 then Some 63
         else None)"

definition b64_pad :: char where "b64_pad = CHR ''=''"

fun EncodeToString :: "string \<Rightarrow> string" where
  "EncodeToString [] = []"
| "EncodeToString [a] =
     (let x = of_char a :: nat in [b64_char (x div 4), b64_char ((x mod 4) * 16), b64_pad, b64_pad])"
| "EncodeToString [a, b] =
     (let x = of_char a :: nat; y = of_char b
      in [b64_char (x div 4), b64_char ((x mod 4) * 16 + y div 16), b64_char ((y mod 16) * 4), b64_pad])"
| "EncodeToString (a # b # c # r) =
     (let x = of_char a :: nat; y = of_char b; z = of_char c
      in [b64_char (x div 4), b64_char ((x mod 4) * 16 + y div 16), b64_char ((y mod 16) * 4 + z div 64), b64_char (z mod 64)]
         @ EncodeToString r)"

text \<open>Decoding of groups of four; only the last group may be padded. The decoder does not check that
  the unused bits of a padded group are zero.\<close>

definition b64_bytes :: "nat \<Rightarrow> nat \<Rightarrow> nat \<Rightarrow> nat \<Rightarrow> string" where
  "b64_bytes i j k l = map char_of [i * 4 + j div 16, (j mod 16) * 16 + k div 4, (k mod 4) * 64 + l]"

fun b64_groups :: "string \<Rightarrow> string option" where
  "b64_groups [] = Some []"
| "b64_groups (a # b # c # d # r) =
     (case (b64_index a, b64_index b) of
        (Some i, Some j) \<Rightarrow>
          if c = b64_pad \<and> d = b64_pad \<and> r = [] then Some (take 1 (b64_bytes i j 0 0))
          else
            (case b64_index c of
               None \<Rightarrow> None
             | Some k \<Rightarrow>
                 if d = b64_pad \<and> r = [] then Some (take 2 (b64_bytes i j k 0))
                 else
                   (case b64_index d of
                      None \<Rightarrow> None
                    | Some l \<Rightarrow>
                        (case b64_groups r of None \<Rightarrow> None | Some bs \<Rightarrow> Some (b64_bytes i j k l @ bs))))
      | _ \<Rightarrow> None)"
| "b64_groups _ = None"

text \<open>Line breaks are ignored.\<close>

definition DecodeString :: "string \<Rightarrow> string option" where
  "DecodeString s = b64_groups (filter (\<lambda>c. c \<noteq> CHR 0x0D \<and> c \<noteq> CHR 0x0A) s)"

section \<open>Compaction\<close>

record CompactImageOptions =
  co_MaxDim :: int
  co_JPEGQuality :: int

definition compactDefaults :: "CompactImageOptions option \<Rightarrow> int \<times> int" where
  "compactDefaults opts =
     (case opts of
        None \<Rightarrow> (768, 85)
      | Some op \<Rightarrow> (if co_MaxDim op > 0 then co_MaxDim op else 768, if co_JPEGQuality op > 0 then co_JPEGQuality op else 85))"

text \<open>The image packages: decoding, the width and height of an image, scaling to a size, and the two
  encoders, which may fail.\<close>

record 'img image_lib =
  il_Decode :: "string \<Rightarrow> 'img option"
  il_Dx :: "'img \<Rightarrow> int"
  il_Dy :: "'img \<Rightarrow> int"
  il_Scale :: "'img \<Rightarrow> int \<Rightarrow> int \<Rightarrow> 'img"
  il_png :: "'img \<Rightarrow> string option"
  il_jpeg :: "'img \<Rightarrow> int \<Rightarrow> string option"

text \<open>Products of Go's 64-bit \<^verbatim>\<open>int\<close> wrap, and its division truncates.\<close>

definition mul64 :: "int \<Rightarrow> int \<Rightarrow> int" where
  "mul64 x y = signed_take_bit 63 (x * y)"

definition new_size :: "int \<Rightarrow> int \<Rightarrow> int \<Rightarrow> int \<times> int" where
  "new_size maxDim w h =
     (let (nw, nh) =
            (if w \<ge> h then (if w > maxDim then (maxDim, mul64 h maxDim sdiv w) else (w, h))
             else if h > maxDim then (mul64 w maxDim sdiv h, maxDim) else (w, h))
      in (if nw < 1 then 1 else nw, if nh < 1 then 1 else nh))"

definition CompactImageAttachment ::
  "'img image_lib \<Rightarrow> string \<Rightarrow> string \<Rightarrow> CompactImageOptions option \<Rightarrow> string \<times> string" where
  "CompactImageAttachment lib mimeType dataB64 opts =
     (if dataB64 = [] \<or> \<not> HasPrefix mimeType ''image/'' then (mimeType, dataB64)
      else
        (case DecodeString dataB64 of
           None \<Rightarrow> (mimeType, dataB64)
         | Some raw \<Rightarrow>
             if raw = [] then (mimeType, dataB64)
             else
               (case il_Decode lib raw of
                  None \<Rightarrow> (mimeType, dataB64)
                | Some img \<Rightarrow>
                    (let (maxDim, quality) = compactDefaults opts; w = il_Dx lib img; h = il_Dy lib img
                     in if w \<le> maxDim \<and> h \<le> maxDim then (mimeType, dataB64)
                        else
                          (let (nw, nh) = new_size maxDim w h; dst = il_Scale lib img nw nh
                           in if mimeType = ''image/png'' then
                                (case il_png lib dst of
                                   None \<Rightarrow> (mimeType, dataB64)
                                 | Some buf \<Rightarrow> (mimeType, EncodeToString buf))
                              else
                                (case il_jpeg lib dst quality of
                                   None \<Rightarrow> (mimeType, dataB64)
                                 | Some buf \<Rightarrow> (''image/jpeg'', EncodeToString buf)))))))"

definition compact_one :: "'img image_lib \<Rightarrow> CompactImageOptions option \<Rightarrow> gobj \<Rightarrow> gobj" where
  "compact_one lib opts att =
     (let cp = copy_into att []; mime = asString (idx cp ''mime_type''); data = asString (idx cp ''data'')
      in if mime \<noteq> [] \<and> data \<noteq> [] then
           (let (outMime, outData) = CompactImageAttachment lib mime data opts
            in put ''data'' (GStr outData) (put ''mime_type'' (GStr outMime) cp))
         else cp)"

definition CompactAttachments :: "'img image_lib \<Rightarrow> gobj list \<Rightarrow> CompactImageOptions option \<Rightarrow> gobj list" where
  "CompactAttachments lib atts opts = (if atts = [] then atts else map (compact_one lib opts) atts)"

section \<open>Lemmas\<close>

lemma of_char_less: "(of_char c :: nat) < 256"
  using of_char_mod_256 [of c, where 'a = nat] by (metis mod_less_divisor zero_less_numeral)

lemma of_b64_char: "n < 64 \<Longrightarrow> of_char (b64_char n) = b64_code n"
  by (simp add: b64_char_def b64_code_def)

lemma b64_index_char [simp]: "n < 64 \<Longrightarrow> b64_index (b64_char n) = Some n"
  unfolding b64_index_def Let_def of_b64_char b64_code_def by (simp split: if_split) arith

lemma b64_index_other [simp]: "b64_index b64_pad = None" "b64_index (CHR 0x0D) = None" "b64_index (CHR 0x0A) = None"
  by (simp_all add: b64_index_def b64_pad_def)

lemma b64_char_other [simp]:
  assumes "n < 64"
  shows "b64_char n \<noteq> b64_pad" "b64_char n \<noteq> CHR 0x0D" "b64_char n \<noteq> CHR 0x0A"
  using b64_index_char [OF assms] by (metis b64_index_other option.distinct(1))+

lemma char_parts [simp]:
  "of_char a div 4 < (64::nat)" "of_char a mod 4 * 16 + of_char b div 16 < (64::nat)" "of_char a mod 4 * 16 < (64::nat)"
  "of_char b mod 16 * 4 < (64::nat)" "of_char b mod 16 * 4 + of_char c div 64 < (64::nat)" "of_char c mod 64 < (64::nat)"
proof -
  have d: "of_char a div 4 < (64::nat)" "of_char b div 16 < (16::nat)" "of_char c div 64 < (4::nat)"
    using of_char_less by (simp_all add: less_mult_imp_div_less)
  have m: "of_char a mod 4 < (4::nat)" "of_char b mod 16 < (16::nat)" "of_char c mod 64 < (64::nat)" by simp_all
  show "of_char a div 4 < (64::nat)" "of_char a mod 4 * 16 + of_char b div 16 < (64::nat)" "of_char a mod 4 * 16 < (64::nat)"
    "of_char b mod 16 * 4 < (64::nat)" "of_char b mod 16 * 4 + of_char c div 64 < (64::nat)" "of_char c mod 64 < (64::nat)"
    using d m by linarith+
qed

lemma b64_bytes_parts:
  assumes "y < 256" "z < 256"
  shows "b64_bytes (x div 4) ((x mod 4) * 16 + y div 16) ((y mod 16) * 4 + z div 64) (z mod 64) = map char_of [x, y, z]"
proof -
  have "y div 16 < 16" "z div 64 < 4" using assms by auto
  then have "x div 4 * 4 + ((x mod 4) * 16 + y div 16) div 16 = x"
    "(((x mod 4) * 16 + y div 16) mod 16) * 16 + ((y mod 16) * 4 + z div 64) div 4 = y"
    "(((y mod 16) * 4 + z div 64) mod 4) * 64 + z mod 64 = z"
    by (simp_all add: div_mod_decomp)
  then show ?thesis unfolding b64_bytes_def by simp
qed

lemma b64_groups_Encode: "b64_groups (EncodeToString bs) = Some bs"
proof (induction bs rule: EncodeToString.induct)
  case (2 a)
  show ?case using b64_bytes_parts [of 0 0 "of_char a"] by (simp add: Let_def)
next
  case (3 a b)
  show ?case using b64_bytes_parts [of "of_char b" 0 "of_char a"] by (simp add: Let_def of_char_less)
next
  case (4 a b c r)
  then show ?case
    using b64_bytes_parts [of "of_char b" "of_char c" "of_char a"] by (simp add: Let_def of_char_less)
qed simp

lemma filter_Encode: "filter (\<lambda>c. c \<noteq> CHR 0x0D \<and> c \<noteq> CHR 0x0A) (EncodeToString bs) = EncodeToString bs"
  by (induction bs rule: EncodeToString.induct) (simp_all add: Let_def b64_pad_def)

text \<open>Base64 round-trips.\<close>

lemma Decode_Encode [simp]: "DecodeString (EncodeToString bs) = Some bs"
  by (simp add: DecodeString_def filter_Encode b64_groups_Encode)

lemma Encode_Nil_iff [simp]: "EncodeToString bs = [] \<longleftrightarrow> bs = []"
  by (cases bs rule: EncodeToString.cases) (simp_all add: Let_def)

text \<open>The product of two sizes below \<open>2 ^ 31\<close> does not wrap.\<close>

lemma mul64_exact:
  assumes "0 \<le> x" "x < 2 ^ 31" "0 \<le> y" "y < 2 ^ 31"
  shows "mul64 x y = x * y"
proof -
  have "x * y < 2 ^ 31 * 2 ^ 31" using assms by (intro mult_strict_mono) auto
  moreover have "0 \<le> x * y" using assms by simp
  ultimately show ?thesis by (simp add: mul64_def signed_take_bit_int_eq_self_iff)
qed

lemma sdiv_nonneg: "0 \<le> k \<Longrightarrow> 0 \<le> l \<Longrightarrow> k sdiv l = (k div l :: int)"
  by (cases "k = 0"; cases "l = 0") (simp_all add: signed_divide_int_def)

lemma new_size_exact:
  assumes "0 \<le> w" "w < 2 ^ 31" "0 \<le> h" "h < 2 ^ 31" "0 < maxDim" "\<not> (w \<le> maxDim \<and> h \<le> maxDim)"
  shows "new_size maxDim w h =
    (if w \<ge> h then (maxDim, max 1 (h * maxDim div w)) else (max 1 (w * maxDim div h), maxDim))"
proof (cases "w \<ge> h")
  case True
  then have "mul64 h maxDim = h * maxDim" using assms by (intro mul64_exact) auto
  then show ?thesis using True assms by (auto simp: new_size_def Let_def sdiv_nonneg)
next
  case False
  then have "mul64 w maxDim = w * maxDim" using assms by (intro mul64_exact) auto
  then show ?thesis using False assms by (auto simp: new_size_def Let_def sdiv_nonneg)
qed

text \<open>What the code relies on of the image packages: sizes are below \<open>2 ^ 31\<close>, a scaled image has the
  size asked for, encoded images are not empty and decode to an image of their size, and images of at
  most 65535 pixels a side can be encoded.\<close>

definition sized :: "'img image_lib \<Rightarrow> int \<Rightarrow> 'img \<Rightarrow> bool" where
  "sized lib n img \<longleftrightarrow> 1 \<le> il_Dx lib img \<and> il_Dx lib img < n \<and> 1 \<le> il_Dy lib img \<and> il_Dy lib img < n"

definition reads_back :: "'img image_lib \<Rightarrow> string \<Rightarrow> 'img \<Rightarrow> bool" where
  "reads_back lib s img \<longleftrightarrow>
     s \<noteq> [] \<and> (\<exists>img'. il_Decode lib s = Some img' \<and> il_Dx lib img' = il_Dx lib img \<and> il_Dy lib img' = il_Dy lib img)"

definition codec_laws :: "'img image_lib \<Rightarrow> bool" where
  "codec_laws lib \<longleftrightarrow>
     (\<forall>s img. il_Decode lib s = Some img \<longrightarrow>
        0 \<le> il_Dx lib img \<and> il_Dx lib img < 2 ^ 31 \<and> 0 \<le> il_Dy lib img \<and> il_Dy lib img < 2 ^ 31)
     \<and> (\<forall>img w h. 1 \<le> w \<and> 1 \<le> h \<longrightarrow> il_Dx lib (il_Scale lib img w h) = w \<and> il_Dy lib (il_Scale lib img w h) = h)
     \<and> (\<forall>img s. sized lib (2 ^ 31) img \<and> il_png lib img = Some s \<longrightarrow> reads_back lib s img)
     \<and> (\<forall>img q s. sized lib (2 ^ 31) img \<and> il_jpeg lib img q = Some s \<longrightarrow> reads_back lib s img)
     \<and> (\<forall>img q. sized lib 65536 img \<longrightarrow> il_png lib img \<noteq> None \<and> il_jpeg lib img q \<noteq> None)"

text \<open>The image of an attachment, and the size it should have: the longer side at the limit and the
  other in proportion, rounded down but at least one.\<close>

definition image_of :: "'img image_lib \<Rightarrow> string \<Rightarrow> 'img option" where
  "image_of lib dataB64 =
     (case DecodeString dataB64 of None \<Rightarrow> None | Some raw \<Rightarrow> if raw = [] then None else il_Decode lib raw)"

definition fitted :: "int \<Rightarrow> int \<Rightarrow> int \<Rightarrow> int \<times> int" where
  "fitted m w h =
     (if w \<le> m \<and> h \<le> m then (w, h)
      else if w \<ge> h then (m, max 1 (h * m div w)) else (max 1 (w * m div h), m))"

lemma scaled_side: "0 \<le> a \<Longrightarrow> a \<le> b \<Longrightarrow> 0 < b \<Longrightarrow> 0 < m \<Longrightarrow> a * m div b \<le> (m :: int)"
  using zdiv_mono1 [of "a * m" "b * m" b] by (simp add: mult_right_mono)

lemma fitted_bounds:
  assumes "0 < m" "0 \<le> w" "0 \<le> h"
  shows "fst (fitted m w h) \<le> m \<and> snd (fitted m w h) \<le> m"
  using assms scaled_side [of h w m] scaled_side [of w h m] by (auto simp: fitted_def)

lemma max_dim_pos: "0 < fst (compactDefaults opts)"
  by (simp add: compactDefaults_def split: option.split)

text \<open>What compaction does, in terms of the image and its new size.\<close>

lemma CompactImage_image:
  fixes opts
  defines "m \<equiv> fst (compactDefaults opts)"
  assumes "codec_laws lib" "HasPrefix mime ''image/''" "image_of lib data = Some img"
  shows "CompactImageAttachment lib mime data opts =
    (if il_Dx lib img \<le> m \<and> il_Dy lib img \<le> m then (mime, data)
     else
       (let dst = il_Scale lib img (fst (fitted m (il_Dx lib img) (il_Dy lib img))) (snd (fitted m (il_Dx lib img) (il_Dy lib img)))
        in if mime = ''image/png'' then
             (case il_png lib dst of None \<Rightarrow> (mime, data) | Some buf \<Rightarrow> (mime, EncodeToString buf))
           else
             (case il_jpeg lib dst (snd (compactDefaults opts)) of
                None \<Rightarrow> (mime, data) | Some buf \<Rightarrow> (''image/jpeg'', EncodeToString buf))))"
proof -
  obtain raw where raw: "DecodeString data = Some raw" "raw \<noteq> []" "il_Decode lib raw = Some img"
    using assms(4) by (auto simp: image_of_def split: option.splits if_splits)
  then have "data \<noteq> []" by (auto simp: DecodeString_def)
  moreover have "new_size m (il_Dx lib img) (il_Dy lib img) = fitted m (il_Dx lib img) (il_Dy lib img)"
    if "\<not> (il_Dx lib img \<le> m \<and> il_Dy lib img \<le> m)"
    using new_size_exact [OF _ _ _ _ _ that] raw(3) assms(2) max_dim_pos [of opts] that
    by (auto simp: codec_laws_def fitted_def m_def)
  ultimately show ?thesis
    using raw assms(3) by (simp add: CompactImageAttachment_def Let_def m_def case_prod_unfold)
qed

lemma CompactImage_other:
  "image_of lib data = None \<or> \<not> HasPrefix mime ''image/'' \<Longrightarrow> CompactImageAttachment lib mime data opts = (mime, data)"
  by (auto simp: CompactImageAttachment_def image_of_def split: option.splits if_splits)

lemma scaled_sized:
  assumes "codec_laws lib" "image_of lib data = Some img" "0 < m" "\<not> (il_Dx lib img \<le> m \<and> il_Dy lib img \<le> m)"
  defines "dst \<equiv> il_Scale lib img (fst (fitted m (il_Dx lib img) (il_Dy lib img))) (snd (fitted m (il_Dx lib img) (il_Dy lib img)))"
  shows "(il_Dx lib dst, il_Dy lib dst) = fitted m (il_Dx lib img) (il_Dy lib img)" "sized lib (m + 1) dst" "m < 2 ^ 31"
proof -
  have b: "0 \<le> il_Dx lib img" "il_Dx lib img < 2 ^ 31" "0 \<le> il_Dy lib img" "il_Dy lib img < 2 ^ 31"
    using assms(1,2) by (auto simp: codec_laws_def image_of_def split: option.splits if_splits)
  obtain x y where xy: "fitted m (il_Dx lib img) (il_Dy lib img) = (x, y)" by fastforce
  then have "1 \<le> x" "1 \<le> y" using assms(3,4) by (auto simp: fitted_def split: if_splits)
  moreover have "x \<le> m" "y \<le> m" using fitted_bounds [OF assms(3) b(1,3)] xy by auto
  moreover have "il_Dx lib dst = x \<and> il_Dy lib dst = y"
    using assms(1) calculation xy by (simp add: codec_laws_def dst_def)
  ultimately show "(il_Dx lib dst, il_Dy lib dst) = fitted m (il_Dx lib img) (il_Dy lib img)" "sized lib (m + 1) dst"
    using xy by (auto simp: sized_def)
  show "m < 2 ^ 31" using b assms(4) by linarith
qed

text \<open>A compacted attachment again is an attachment, of the fitted size.\<close>

lemma encoded_image:
  assumes "codec_laws lib" "sized lib (m + 1) dst" "m < 2 ^ 31" "il_png lib dst = Some buf \<or> il_jpeg lib dst q = Some buf"
  shows "\<exists>img'. image_of lib (EncodeToString buf) = Some img' \<and> il_Dx lib img' = il_Dx lib dst \<and> il_Dy lib img' = il_Dy lib dst"
proof -
  have "sized lib (2 ^ 31) dst" using assms(2,3) by (auto simp: sized_def)
  then have "reads_back lib buf dst" using assms(1,4) by (auto simp: codec_laws_def)
  then show ?thesis by (auto simp: reads_back_def image_of_def)
qed

lemma CompactImage_result:
  assumes "codec_laws lib" "HasPrefix mime ''image/''" "image_of lib data = Some img"
    "CompactImageAttachment lib mime data opts = (mime', data')" "(mime', data') \<noteq> (mime, data)"
  shows "HasPrefix mime' ''image/'' \<and> (\<exists>img'. image_of lib data' = Some img'
    \<and> (il_Dx lib img', il_Dy lib img') = fitted (fst (compactDefaults opts)) (il_Dx lib img) (il_Dy lib img))"
proof -
  let ?m = "fst (compactDefaults opts)"
  let ?dst = "il_Scale lib img (fst (fitted ?m (il_Dx lib img) (il_Dy lib img))) (snd (fitted ?m (il_Dx lib img) (il_Dy lib img)))"
  note eq = CompactImage_image [OF assms(1-3), of opts]
  have big: "\<not> (il_Dx lib img \<le> ?m \<and> il_Dy lib img \<le> ?m)" using eq assms(4,5) by auto
  note dst = scaled_sized [OF assms(1,3) max_dim_pos big]
  obtain buf where "il_png lib ?dst = Some buf \<or> il_jpeg lib ?dst (snd (compactDefaults opts)) = Some buf"
      "data' = EncodeToString buf" "HasPrefix mime' ''image/''"
    using eq assms(2,4,5) big by (auto simp: Let_def HasPrefix_def split: if_splits option.splits)
  then show ?thesis using encoded_image [OF assms(1) dst(2,3)] dst(1) by fastforce
qed

lemma CompactImage_idem:
  assumes "codec_laws lib" "CompactImageAttachment lib mime data opts = (mime', data')"
  shows "CompactImageAttachment lib mime' data' opts = (mime', data')"
proof (cases "(mime', data') = (mime, data)")
  case False
  then obtain img where img: "image_of lib data = Some img" "HasPrefix mime ''image/''"
    using assms(2) CompactImage_other [of lib data mime opts] by fastforce
  from CompactImage_result [OF assms(1) img(2,1) assms(2) False] obtain img' where
    img': "HasPrefix mime' ''image/''" "image_of lib data' = Some img'"
      "(il_Dx lib img', il_Dy lib img') = fitted (fst (compactDefaults opts)) (il_Dx lib img) (il_Dy lib img)" by blast
  have "0 \<le> il_Dx lib img" "0 \<le> il_Dy lib img"
    using assms(1) img by (auto simp: codec_laws_def image_of_def split: option.splits if_splits)
  from fitted_bounds [OF max_dim_pos this, of opts] img'(3)
  have "il_Dx lib img' \<le> fst (compactDefaults opts) \<and> il_Dy lib img' \<le> fst (compactDefaults opts)"
    by (metis fst_conv snd_conv)
  then show ?thesis using CompactImage_image [OF assms(1) img'(1,2), of opts] by simp
qed (use assms in simp)

lemma put_same: "map_of m k = Some v \<Longrightarrow> put k v m = m"
  by (induction m) auto

lemma copy_into_append: "wf_obj (dst @ src) \<Longrightarrow> copy_into src dst = dst @ src"
proof (induction src arbitrary: dst)
  case (Cons p src)
  have "put k v dst = dst @ [(k, v)]" if "k \<notin> fst ` set dst" for k v
    using that by (induction dst) auto
  with Cons.prems Cons.IH [of "dst @ [p]"] show ?case by (cases p) (auto simp: wf_obj_def)
qed simp

lemma compact_one_idem:
  assumes "codec_laws lib"
  shows "compact_one lib opts (compact_one lib opts att) = compact_one lib opts att"
proof -
  let ?cp = "copy_into att []" and ?r = "compact_one lib opts att"
  have "wf_obj ?cp" by (rule wf_copy_into) simp
  then have "wf_obj ?r" by (simp add: compact_one_def Let_def case_prod_unfold)
  then have cp: "copy_into ?r [] = ?r" by (simp add: copy_into_append)
  show ?thesis
  proof (cases "asString (idx ?cp ''mime_type'') \<noteq> [] \<and> asString (idx ?cp ''data'') \<noteq> []")
    case True
    obtain m' d' where md: "CompactImageAttachment lib (asString (idx ?cp ''mime_type'')) (asString (idx ?cp ''data'')) opts = (m', d')"
      by fastforce
    then have r: "?r = put ''data'' (GStr d') (put ''mime_type'' (GStr m') ?cp)" using True by (simp add: compact_one_def Let_def)
    define R where "R = ?r"
    have "put ''mime_type'' (GStr m') R = R" "put ''data'' (GStr d') R = R"
      "idx R ''mime_type'' = GStr m'" "idx R ''data'' = GStr d'" "copy_into R [] = R"
      using r cp by (simp_all add: R_def put_same idx_put)
    then have "compact_one lib opts R = R"
      using CompactImage_idem [OF assms md] by (simp add: compact_one_def Let_def)
    then show ?thesis by (simp add: R_def)
  next
    case False
    then have "?r = ?cp" by (auto simp: compact_one_def Let_def)
    then show ?thesis using False cp by (auto simp: compact_one_def [of lib opts "copy_into att []"] Let_def)
  qed
qed

section \<open>Properties\<close>

text \<open>C31: Compacted images fit: for a limit below 65536 pixels, whatever image an attachment holds, what is
  sent decodes to an image whose longer side is the limit and whose other side is in proportion
  (rounded down, at least one pixel), or to the same image if it fitted; neither side is above the
  limit, and the products of sizes do not overflow.\<close>

theorem compacted_image_fits:
  assumes "codec_laws lib" "HasPrefix mime ''image/''" "image_of lib data = Some img" "fst (compactDefaults opts) < 65536"
  shows "\<exists>img'. image_of lib (snd (CompactImageAttachment lib mime data opts)) = Some img'
    \<and> (il_Dx lib img', il_Dy lib img') = fitted (fst (compactDefaults opts)) (il_Dx lib img) (il_Dy lib img)
    \<and> il_Dx lib img' \<le> fst (compactDefaults opts) \<and> il_Dy lib img' \<le> fst (compactDefaults opts)"
proof -
  let ?m = "fst (compactDefaults opts)"
  obtain mime' data' where c: "CompactImageAttachment lib mime data opts = (mime', data')" by fastforce
  have b: "0 \<le> il_Dx lib img" "0 \<le> il_Dy lib img"
    using assms(1,3) by (auto simp: codec_laws_def image_of_def split: option.splits if_splits)
  have "\<exists>img'. image_of lib data' = Some img' \<and> (il_Dx lib img', il_Dy lib img') = fitted ?m (il_Dx lib img) (il_Dy lib img)"
  proof (cases "il_Dx lib img \<le> ?m \<and> il_Dy lib img \<le> ?m")
    case True
    then show ?thesis using CompactImage_image [OF assms(1-3), of opts] c assms(3) by (simp add: fitted_def)
  next
    case False
    let ?dst = "il_Scale lib img (fst (fitted ?m (il_Dx lib img) (il_Dy lib img))) (snd (fitted ?m (il_Dx lib img) (il_Dy lib img)))"
    have sz: "sized lib (?m + 1) ?dst" "(il_Dx lib ?dst, il_Dy lib ?dst) = fitted ?m (il_Dx lib img) (il_Dy lib img)" "?m < 2 ^ 31"
      using scaled_sized [OF assms(1,3) max_dim_pos] False by auto
    then have "sized lib 65536 ?dst" using assms(4) by (auto simp: sized_def)
    then have "il_png lib ?dst \<noteq> None" "il_jpeg lib ?dst (snd (compactDefaults opts)) \<noteq> None"
      using assms(1) by (auto simp: codec_laws_def)
    then obtain buf where "data' = EncodeToString buf" "il_png lib ?dst = Some buf \<or> il_jpeg lib ?dst (snd (compactDefaults opts)) = Some buf"
      using CompactImage_image [OF assms(1-3), of opts] False c by (auto simp: Let_def split: if_splits)
    then show ?thesis using encoded_image [OF assms(1) sz(1,3)] sz(2) by fastforce
  qed
  then show ?thesis using c fitted_bounds [OF max_dim_pos b, of opts] by (metis fst_conv snd_conv)
qed

text \<open>A codec for the examples: an image is its size, written as two rows of marks.\<close>

definition row_codec :: "(int \<times> int) image_lib" where
  "row_codec =
     \<lparr>il_Decode = (\<lambda>s. let w = int (length (takeWhile (\<lambda>c. c = CHR ''w'') s)); h = int (length (dropWhile (\<lambda>c. c = CHR ''w'') s))
                        in if w < 2 ^ 31 \<and> h < 2 ^ 31 then Some (w, h) else None),
      il_Dx = fst, il_Dy = snd, il_Scale = (\<lambda>img w h. (w, h)),
      il_png = (\<lambda>(w, h). Some (replicate (nat w) (CHR ''w'') @ replicate (nat h) (CHR ''h''))),
      il_jpeg = (\<lambda>(w, h) q. Some (replicate (nat w) (CHR ''w'') @ replicate (nat h) (CHR ''h'')))\<rparr>"

lemma rows_split [simp]:
  "takeWhile (\<lambda>c. c = CHR ''w'') (replicate n (CHR ''w'') @ replicate k (CHR ''h'')) = replicate n (CHR ''w'')"
  "dropWhile (\<lambda>c. c = CHR ''w'') (replicate n (CHR ''w'') @ replicate k (CHR ''h'')) = replicate k (CHR ''h'')"
  by (induction n; cases k; simp)+

lemma row_codec_laws: "codec_laws row_codec"
  by (auto simp: codec_laws_def row_codec_def sized_def reads_back_def Let_def)

definition row_photo :: string where
  "row_photo = EncodeToString (replicate 6 (CHR ''w'') @ replicate 3 (CHR ''h''))"

lemma row_photo_image: "image_of row_codec row_photo = Some (6, 3)"
  by (simp add: image_of_def row_codec_def row_photo_def Let_def)

theorem compacted_image_fits_witness:
  "\<exists>img'. image_of row_codec (snd (CompactImageAttachment row_codec ''image/png'' row_photo (Some \<lparr>co_MaxDim = 4, co_JPEGQuality = 0\<rparr>)))
       = Some img' \<and> img' = (4, 2)"
  using compacted_image_fits [OF row_codec_laws _ row_photo_image, of "''image/png''" "Some \<lparr>co_MaxDim = 4, co_JPEGQuality = 0\<rparr>"]
  by (simp add: HasPrefix_def compactDefaults_def fitted_def row_codec_def)

text \<open>Compaction is idempotent: compacting the attachments of a message again changes nothing, for
  every list of attachments and all options.\<close>

theorem compaction_idempotent:
  assumes "codec_laws lib"
  shows "CompactAttachments lib (CompactAttachments lib atts opts) opts = CompactAttachments lib atts opts"
  using compact_one_idem [OF assms] by (simp add: CompactAttachments_def)

theorem compaction_idempotent_witness:
  "let atts = [[(''mime_type'', GStr ''image/gif''), (''data'', GStr row_photo)]]; opts = Some \<lparr>co_MaxDim = 4, co_JPEGQuality = 0\<rparr>
   in CompactAttachments row_codec atts opts = [[(''mime_type'', GStr ''image/jpeg''), (''data'', GStr (EncodeToString ''wwwwhh''))]]
      \<and> CompactAttachments row_codec (CompactAttachments row_codec atts opts) opts = CompactAttachments row_codec atts opts"
proof -
  let ?atts = "[[(''mime_type'', GStr ''image/gif''), (''data'', GStr row_photo)]]"
    and ?opts = "Some \<lparr>co_MaxDim = 4, co_JPEGQuality = 0\<rparr>"
  have "CompactAttachments row_codec ?atts ?opts = [[(''mime_type'', GStr ''image/jpeg''), (''data'', GStr (EncodeToString ''wwwwhh''))]]"
    by code_simp
  with compaction_idempotent [OF row_codec_laws, of ?atts ?opts] show ?thesis by (simp add: Let_def)
qed

end
