(* ===== verification/App_Kit.thy ===== *)
theory App_Kit
  imports Session
begin

text \<open>
  Small parts of the application kit: application keys in contexts (appkit/app_key.go), the default
  bootstrap of a pooled connection (appkit/client.go), and the draining of a connection's event
  channel around a turn (drainEventCh of appkit/turn_runner.go).
\<close>

section \<open>Application keys\<close>

text \<open>The values of a context, innermost first; a nil context is \<open>None\<close>.\<close>

datatype ctx_key = AppKeyContextKey | OtherKey nat

type_synonym ctx_values = "(ctx_key \<times> gval) list"

definition ctx_Value :: "ctx_values \<Rightarrow> ctx_key \<Rightarrow> gval" where
  "ctx_Value ctx k = (case map_of ctx k of None \<Rightarrow> GNil | Some v \<Rightarrow> v)"

definition ContextWithAppKey :: "ctx_values option \<Rightarrow> string \<Rightarrow> ctx_values" where
  "ContextWithAppKey ctx appKey = (AppKeyContextKey, GStr appKey) # (case ctx of None \<Rightarrow> [] | Some c \<Rightarrow> c)"

definition AppKeyFromContext :: "ctx_values option \<Rightarrow> string \<times> bool" where
  "AppKeyFromContext ctx =
     (case ctx of
        None \<Rightarrow> ([], False)
      | Some c \<Rightarrow>
          (case as_str (ctx_Value c AppKeyContextKey) of
             None \<Rightarrow> ([], False)
           | Some v \<Rightarrow> if v = [] then ([], False) else (v, True)))"

text \<open>The innermost key is the one that is found, unless it is empty: an empty key hides an outer one.\<close>

lemma AppKey_roundtrip: "AppKeyFromContext (Some (ContextWithAppKey ctx k)) = (k, k \<noteq> [])"
  by (simp add: AppKeyFromContext_def ContextWithAppKey_def ctx_Value_def)

lemma AppKey_other_values:
  "AppKeyFromContext (Some ((OtherKey n, v) # ctx)) = AppKeyFromContext (Some ctx)"
  by (simp add: AppKeyFromContext_def ctx_Value_def)

section \<open>The default bootstrap\<close>

text \<open>A managed client is the core client or another implementation, of which only the type's name
  matters here.\<close>

datatype managed_client = CoreClient env | OtherClient string

definition DefaultBootstrapFunc ::
  "(gmap \<Rightarrow> string) \<Rightarrow> call_in \<Rightarrow> call_in \<Rightarrow> managed_client \<Rightarrow> string \<Rightarrow> string \<Rightarrow> Config option
     \<Rightarrow> (managed_client, goerr + string) run" where
  "DefaultBootstrapFunc fmt c1 c2 client workspaceID userID cfg =
     (case client of
        OtherClient ty \<Rightarrow>
          Ret (Inl (ErrText (''appkit: DefaultBootstrapFunc requires *soothe.Client, got '' @ ty))) client
      | CoreClient s \<Rightarrow>
          (case BootstrapLoopSession fmt c1 c2 [] workspaceID cfg
                  (Some \<lparr>lso_ClientWorkspace = workspaceID, lso_UserID = userID, lso_ClientWorkspaceID = workspaceID\<rparr>) s of
             Ret r s1 \<Rightarrow> Ret r (CoreClient s1)
           | Hang s1 \<Rightarrow> Hang (CoreClient s1)
           | Crash s1 \<Rightarrow> Crash (CoreClient s1)))"

section \<open>Draining an event channel\<close>

text \<open>A channel with its buffered events, and what the forwarder does between two polls: the events it
  pushes, and whether it closes the channel.\<close>

record 'e event_chan =
  ec_buf :: "'e list"
  ec_closed :: bool

type_synonym 'e arrivals = "'e list \<times> bool"

definition arrive :: "'e arrivals \<Rightarrow> 'e event_chan \<Rightarrow> 'e event_chan" where
  "arrive a ch = (if ec_closed ch then ch else ch\<lparr>ec_buf := ec_buf ch @ fst a, ec_closed := snd a\<rparr>)"

fun drain_ready :: "'e arrivals list \<Rightarrow> 'e event_chan \<Rightarrow> ('e event_chan, unit) run" where
  "drain_ready [] ch = Hang ch"
| "drain_ready (a # as) ch =
     (let ch1 = arrive a ch
      in case ec_buf ch1 of
           [] \<Rightarrow> Ret () ch1
         | _ # rest \<Rightarrow> drain_ready as (ch1\<lparr>ec_buf := rest\<rparr>))"

text \<open>One turn of the outer loop: the \<^verbatim>\<open>select\<close> takes the timer, or an event, or it waits.\<close>

fun drain_settle :: "('e arrivals \<times> bool) list \<Rightarrow> 'e event_chan \<Rightarrow> ('e event_chan, unit) run" where
  "drain_settle [] ch = Hang ch"
| "drain_settle ((a, timer) # ins) ch =
     (let ch1 = arrive a ch
      in if timer then drain_ready (map fst ins) ch1
         else
           (case ec_buf ch1 of
              [] \<Rightarrow> if ec_closed ch1 then Ret () ch1 else drain_settle ins ch1
            | _ # rest \<Rightarrow> drain_settle ins (ch1\<lparr>ec_buf := rest\<rparr>)))"

definition drainEventCh :: "int \<Rightarrow> ('e arrivals \<times> bool) list \<Rightarrow> 'e event_chan option \<Rightarrow> ('e event_chan option, unit) run" where
  "drainEventCh settle ins ch =
     (case ch of
        None \<Rightarrow> Ret () None
      | Some c \<Rightarrow>
          (case (if settle \<le> 0 then drain_ready (map fst ins) c else drain_settle ins c) of
             Ret u c1 \<Rightarrow> Ret u (Some c1)
           | Hang c1 \<Rightarrow> Hang (Some c1)
           | Crash c1 \<Rightarrow> Crash (Some c1)))"

lemma drain_ready_empty: "drain_ready as ch = Ret u ch' \<Longrightarrow> ec_buf ch' = []"
  by (induction as arbitrary: ch) (auto simp: Let_def split: list.splits)

lemma drain_settle_empty: "drain_settle ins ch = Ret u ch' \<Longrightarrow> ec_buf ch' = []"
  by (induction ins arbitrary: ch) (auto simp: Let_def drain_ready_empty split: list.splits if_splits)

text \<open>The number of events that are buffered or still to come.\<close>

definition pending_events :: "'e arrivals list \<Rightarrow> 'e event_chan \<Rightarrow> nat" where
  "pending_events as ch = length (ec_buf ch) + (if ec_closed ch then 0 else length (concat (map fst as)))"

lemma pending_arrive: "pending_events as (arrive a ch) \<le> pending_events (a # as) ch"
  by (simp add: pending_events_def arrive_def)

lemma pending_take:
  "ec_buf (arrive a ch) = e # rest \<Longrightarrow> pending_events as ((arrive a ch)\<lparr>ec_buf := rest\<rparr>) < pending_events (a # as) ch"
  using pending_arrive [of as a ch] by (simp add: pending_events_def split: if_splits)

lemma drain_ready_returns:
  "pending_events as ch < length as \<Longrightarrow> \<exists>ch'. drain_ready as ch = Ret () ch'"
proof (induction as arbitrary: ch)
  case (Cons a as)
  show ?case
  proof (cases "ec_buf (arrive a ch)")
    case buf: (Cons e rest)
    from pending_take [OF this, of as] Cons.prems have "pending_events as ((arrive a ch)\<lparr>ec_buf := rest\<rparr>) < length as" by simp
    from Cons.IH [OF this] buf show ?thesis by (simp add: Let_def)
  qed (simp add: Let_def)
qed (simp add: pending_events_def)

lemma drain_settle_returns:
  "pending_events (map fst (pre @ (a, True) # post)) ch < length post
   \<Longrightarrow> \<exists>ch'. drain_settle (pre @ (a, True) # post) ch = Ret () ch'"
proof (induction pre arbitrary: ch)
  case Nil
  have "pending_events (map fst post) (arrive a ch) < length post"
    using le_less_trans [OF pending_arrive] Nil by simp
  then show ?case using drain_ready_returns [of "map fst post" "arrive a ch"] by (simp add: Let_def)
next
  case (Cons i pre)
  obtain x t where i: "i = (x, t)" by fastforce
  let ?ins = "pre @ (a, True) # post"
  have less: "pending_events (map fst ?ins) (arrive x ch) < length post"
    using le_less_trans [OF pending_arrive] Cons.prems i by simp
  show ?case
  proof (cases t)
    case True
    have "pending_events (map fst ?ins) (arrive x ch) < length (map fst ?ins)" using less by simp
    from drain_ready_returns [OF this] show ?thesis using i True by (simp add: Let_def)
  next
    case False
    show ?thesis
    proof (cases "ec_buf (arrive x ch)")
      case Nil
      then show ?thesis using Cons.IH [OF less] i False by (simp add: Let_def)
    next
      case buf: (Cons e rest)
      have "pending_events (map fst ?ins) ((arrive x ch)\<lparr>ec_buf := rest\<rparr>) < length post"
        using pending_take [OF buf, of "map fst ?ins"] Cons.prems i by simp
      from Cons.IH [OF this] show ?thesis using i False buf by (simp add: Let_def)
    qed
  qed
qed

section \<open>Properties\<close>

text \<open>The drain before a turn ends and leaves nothing behind: whatever the forwarder pushes meanwhile,
  once the quiet window has passed and there are more polls than events, it returns, and the channel
  is empty when it does.\<close>

theorem drain_leaves_nothing:
  assumes "pending_events (map fst (pre @ (a, True) # post)) ch < length post"
  shows "\<exists>ch'. drainEventCh settle (pre @ (a, True) # post) (Some ch) = Ret () (Some ch') \<and> ec_buf ch' = []"
proof (cases "settle \<le> 0")
  case True
  have "pending_events (map fst (pre @ (a, True) # post)) ch < length (map fst (pre @ (a, True) # post))" using assms by simp
  from drain_ready_returns [OF this] obtain ch' where "drain_ready (map fst (pre @ (a, True) # post)) ch = Ret () ch'" ..
  then show ?thesis using True drain_ready_empty by (fastforce simp: drainEventCh_def simp del: map_append)
next
  case False
  from drain_settle_returns [OF assms] obtain ch' where "drain_settle (pre @ (a, True) # post) ch = Ret () ch'" ..
  then show ?thesis using False drain_settle_empty by (fastforce simp: drainEventCh_def)
qed

end
