(* ===== verification/Spec2Isabelle.thy ===== *)
theory Spec2Isabelle
  imports Turn_Runner Card_Projection Api_Spec Turn_Delivery Attachments App_Kit
begin

text \<open>
  A verification of \<^verbatim>\<open>soothe-client-go\<close>, the Go client of the Soothe daemon.

  \<^bold>\<open>The program.\<close> The client talks to the daemon over a WebSocket with a JSON envelope protocol. A
  \<^verbatim>\<open>Client\<close> dials, shakes hands and then sends requests, notifications and subscriptions; frames that
  come back are routed by a multiplexer to the call or the subscription that waits for them, or
  returned to the reader; events that need it are acknowledged; a drop of the connection is signalled
  once. The application kit (src/appkit) builds on it: a pool of connections by application key, a
  gate that lets one query per key run, a classifier that decides what an event means for a reply, a
  boundary that decides when the daemon's turn has ended, a broadcaster of server-sent events, and the
  turn runner that puts them together. A card projection folds card frames into a list of cards. The
  daemon session is the other way to run turns: it has a client for the stream of a loop and a second one
  for requests about it, and forwards the chunks of a turn to a consumer until the turn ends. The command
  client opens a connection for one request and closes it again.

  \<^bold>\<open>Theories and sources.\<close> Each theory models the files named with it; definitions carry the names
  of the code.
  \<^item> \<open>Prelude\<close>: the parts of Go's \<^verbatim>\<open>strings\<close>, \<^verbatim>\<open>strconv\<close> and \<^verbatim>\<open>unicode/utf8\<close> that are used, on byte strings.
  \<^item> \<open>Go_Values\<close>: \<^verbatim>\<open>interface{}\<close> values and maps. \<open>Json\<close>: \<^verbatim>\<open>encoding/json\<close>, texts and decoding into fields.
  \<^item> \<open>Wire_Names\<close>: events.go, verbosity.go, intent_hints.go. \<open>Stream_Terminal\<close>: stream_terminal.go.
    \<open>Turn_Id\<close>: turn_boundary.go. \<open>Protocol\<close>: protocol.go. \<open>Errors\<close>: errors.go and the shape of a run of
    Go code (returns, blocks, panics).
  \<^item> \<open>Heartbeat\<close>: heartbeat.go. \<open>Config\<close>: config.go. \<open>Mux\<close>: multiplexer.go.
  \<^item> \<open>Client_Link\<close>, \<open>Inbound\<close>, \<open>Delivery_Ack\<close>, \<open>Read_Event\<close>: client.go and inbound_priority.go (sending, closing
    and the drop signal; the bounded buffer; acknowledgements; reading and the reader goroutine).
  \<^item> \<open>Rpc\<close>: the waiting calls of request.go. \<open>Session\<close>: handshake, Connect, Reconnect and reattach of client.go,
    session.go, and the readiness wait of request.go.
  \<^item> \<open>Card_Projection\<close>: card_projection.go.
  \<^item> \<open>Turn_Gate\<close>: appkit/turn_lifecycle_gate.go, appkit/turn_boundary.go. \<open>Query_Gate\<close>: appkit/query_gate.go.
    \<open>Broadcaster\<close>: appkit/broadcaster.go. \<open>Chunk_Filter\<close>: appkit/chunk_filter.go, appkit/events.go.
    \<open>Thinking_Step\<close>: appkit/thinking_step.go. \<open>Classifier\<close>: appkit/classifier.go. \<open>Pool\<close>: appkit/pool.go.
    \<open>Turn_Runner\<close>: appkit/turn_runner.go.
  \<^item> \<open>Rpc_Api\<close>: the request methods of request.go. \<open>Send_Api\<close>: send_methods.go. \<open>Job_Api\<close>: job.go, autopilot.go.
    \<open>Command_Api\<close>: helpers.go, command_client.go. \<open>Api_Spec\<close> states what all these methods have in common: it
    names every method by a value and gives the method, the refusals and the counterpart of each.
  \<^item> \<open>Daemon_Session\<close>, \<open>Turn_Iter\<close>: appkit/daemon_session.go (the session and its operations; the loop of
    IterTurnChunks and its drain) and appkit/observability.go. \<open>Daemon_Session_Spec\<close>, \<open>Turn_Iter_Returns\<close>,
    \<open>Turn_Iter_Spec\<close>, \<open>Turn_Delivery\<close>: the properties of the session, that the loop returns, how it decides, and
    what it delivers.
  \<^item> \<open>Attachments\<close>: appkit/attachments.go with base64. \<open>App_Kit\<close>: appkit/app_key.go, appkit/client.go and drainEventCh
    of appkit/turn_runner.go.

  \<^bold>\<open>How state and effects are modelled.\<close> The state of a component is a record; its operations pass it
  explicitly. What the network, the daemon, the clock, contexts and other goroutines contribute to one
  call is an input of the model: the results of socket reads, the frames a concurrent reader routes
  between two steps of a wait, the case a \<^verbatim>\<open>select\<close> takes. A statement quantified over these inputs
  holds for every behaviour of the outside. Locks that a call releases in between split it into several
  definitions, and where the order matters a step relation or a sequence of operations interleaves
  them (\<open>Mux\<close>, \<open>Delivery_Ack\<close>, \<open>Pool\<close>). Channels are lists with the capacity of the code, pointers are handles into
  heaps, errors are values of \<open>goerr\<close>, and a call that blocks for ever or panics is a value of \<open>run\<close>.
  A wait loop runs over a list of rounds; its claims either hold for every list or say that the
  call returns within the given rounds. For IterTurnChunks the number of rounds is bounded by the buffered
  events and socket reads (\<open>Turn_Iter_Returns\<close>). Recursions over JSON values terminate by size; there is no other
  fuel. Ids made by \<^verbatim>\<open>google/uuid\<close>, the dialler, and the decoding, scaling and encoding of images are
  parameters; the runner takes the compaction of attachments as an argument.

  \<^bold>\<open>What is shown.\<close>
  \<^item> Wire format: events survive encoding and decoding, payloads split into their lines, batches
    expand in order, turn ids round-trip (\<open>Protocol\<close>, \<open>Turn_Id\<close>).
  \<^item> Multiplexing and calls: under every interleaving channels are bounded, frames reach only the
    waiter of their id and nothing is closed twice (\<open>Mux\<close>); a request returns the response with its own
    id when it arrives after registration, and returns at all when one is routed (\<open>Rpc\<close>).
  \<^item> The link: the drop signal is delivered once with the first cause; a successful Connect means a
    ready daemon and a failed one leaves no connection; retries are bounded; acknowledgements are never ahead of
    what was received nor sent twice; the inbound buffer is bounded, ordered and counts what it drops.
  \<^item> Turns: a turn ends only when it was seen running, made progress and the end carries its id, and it
    does end then; the bound turn never goes back (\<open>Turn_Gate\<close>). A turn of the runner reports exactly
    once, delivers the streamed text, its deltas are its content, and left-over frames do not end it.
  \<^item> Pool, gate, broadcaster, cards: slots are conserved and keys isolated; one query per key; broadcasts
    never panic and arrive in order; the projection refines an ordered list and replays restore it.
  \<^item> The API: every request method refuses bad arguments without an effect or writes at most one
    well-formed request of its method; sending methods write what their waiting counterparts write; the options of
    a user input can be read back from the wire; a command leaves no connection behind. The last section of this
    theory shows that the message the turn runner builds is the one \<^verbatim>\<open>SendInput\<close> writes.
  \<^item> The session: reconnecting restores the stream, the loop and the flags; a turn is streamed completely, in
    order and through the filter; its loop always returns on a failing connection, and it ends a turn exactly when
    the boundary of the turn runner does, cancellations apart.
  \<^item> Attachments: base64 round-trips, compacted images fit the limit and compaction is idempotent. Draining a
    channel ends and leaves it empty.
  \<^item> Where the code departs from what it means to do, the departure is itself a theorem: a failed write
    deadlocks the client, a refused subscription is reported as a timeout, frames after the first of a payload are
    lost to ReadEvent, a wrapped turn end is not recognised, concurrent acquires lose a slot, a refused
    turn closes the connection of the one in flight, a repeated chunk is lost, text in content blocks is dropped, a ping
    ends a streamed turn, chunks in next envelopes are skipped, peeling reorders buffered events, a session that
    was closed and connected again cannot be closed.

  \<^bold>\<open>Interfaces.\<close> The contracts between components are locales, each interpreted on the model's own
  definitions: \<open>waiter_registry\<close> (\<open>Mux\<close>), \<open>dropping_buffer\<close> (\<open>Inbound\<close>), \<open>turn_end\<close> (\<open>Turn_Gate\<close>),
  \<open>single_flight\<close> (\<open>Query_Gate\<close>), \<open>keyed_slots\<close> (\<open>Pool\<close>), and \<open>wait_frame\<close> (\<open>Rpc_Api\<close>): what every wait for an
  answer keeps, interpreted once for the messages it may send and once for the state of the link.

  \<^bold>\<open>What is not modelled.\<close> The image codecs and the scaling of pixels; the goroutines that only copy between
  channels; deadlines set on the socket, which appear as results of reads; logging and wall-clock fields of
  stored rows; metadata counters nothing in the repository updates. Examples, test configuration, package
  documentation and the store interface, which has no code of its own, are left out.
\<close>

section \<open>Two ways to send an input\<close>

text \<open>The options of \<^verbatim>\<open>SendInput\<close> that correspond to those of the turn runner's messages.\<close>

definition client_options :: "string \<Rightarrow> gobj list \<Rightarrow> InputOpts option \<Rightarrow> InputOption list" where
  "client_options loopID attachments opts =
     [WithLoopID loopID, WithAttachments (if attachments = [] then None else Some attachments)] @
     (case opts of
        None \<Rightarrow> []
      | Some op \<Rightarrow>
          [WithIntentHint (TrimSpace (io_IntentHint op)), WithSubagent (TrimSpace (io_PreferredSubagent op)),
           WithIntakeScope (TrimSpace (io_IntakeScope op)), WithInteractionMode (TrimSpace (io_InteractionMode op)),
           WithResponseSchema (if io_ResponseSchema op = Some [] then None else io_ResponseSchema op),
           WithResponseSchemaName (TrimSpace (io_ResponseSchemaName op))] @
          (case io_ResponseSchemaStrict op of None \<Rightarrow> [] | Some b \<Rightarrow> [WithResponseSchemaStrict b]))"

lemmas With_defs = WithLoopID_def WithAttachments_def WithIntentHint_def WithSubagent_def WithIntakeScope_def
  WithInteractionMode_def WithResponseSchema_def WithResponseSchemaName_def WithResponseSchemaStrict_def

lemma client_options_applied:
  "apply_options (client_options loopID atts opts) =
     zero_inputOptions\<lparr>opt_loopID := loopID, opt_attachments := (if atts = [] then None else Some atts),
       opt_intentHint := (case opts of None \<Rightarrow> [] | Some op \<Rightarrow> TrimSpace (io_IntentHint op)),
       opt_preferredSubagent := (case opts of None \<Rightarrow> [] | Some op \<Rightarrow> TrimSpace (io_PreferredSubagent op)),
       opt_intakeScope := (case opts of None \<Rightarrow> [] | Some op \<Rightarrow> TrimSpace (io_IntakeScope op)),
       opt_interactionMode := (case opts of None \<Rightarrow> [] | Some op \<Rightarrow> TrimSpace (io_InteractionMode op)),
       opt_responseSchema := (case opts of None \<Rightarrow> None | Some op \<Rightarrow> if io_ResponseSchema op = Some [] then None else io_ResponseSchema op),
       opt_responseSchemaName := (case opts of None \<Rightarrow> [] | Some op \<Rightarrow> TrimSpace (io_ResponseSchemaName op)),
       opt_responseSchemaStrict := (case opts of None \<Rightarrow> None | Some op \<Rightarrow> io_ResponseSchemaStrict op)\<rparr>"
  by (cases opts) (simp_all add: client_options_def apply_options_def zero_inputOptions_def With_defs split: option.split)

text \<open>Lookups, one key at a time.\<close>

lemma look_put_if: "map_of (put_if b k v m) k' = (if b \<and> k' = k then Some v else map_of m k')"
  by (simp add: put_if_def)

lemma look_put_some: "map_of (put_some k f v m) k' = (if v \<noteq> None \<and> k' = k then Some (f (the v)) else map_of m k')"
  by (auto simp: put_some_def split: option.split)

lemma put_strict: "(case v of Some b \<Rightarrow> put k (GBool b) m | None \<Rightarrow> m) = put_some k GBool v m"
  by (simp add: put_some_def split: option.split)

lemma put_schema: "(case v of Some (x # xs) \<Rightarrow> put k (GMap (x # xs)) m | _ \<Rightarrow> m) = put_some k GMap (if v = Some [] then None else v) m"
  by (simp add: put_some_def split: option.split list.split)

lemmas looks = look_put_if look_put_some put_str_def put_trimmed_def put_strict put_schema

lemma wf_loop_input: "wf_obj (loop_input_params content loopID atts opts)"
  unfolding loop_input_params_def Let_def put_strict put_schema put_trimmed_def
  by (cases opts) (simp_all add: put_some_def wf_obj_def [of "[x]" for x] split: option.split)

definition input_keys :: "string list" where
  "input_keys = [''loop_id'', ''content'', ''attachments'', ''intent_hint'', ''preferred_subagent'', ''intake_scope'', ''interaction_mode'',
     ''response_schema'', ''response_schema_name'', ''response_schema_strict'']"

lemma same_params:
  assumes "TrimSpace loopID = loopID" "loopID \<noteq> []"
  shows "map_of (input_params text (apply_options (client_options loopID atts opts))) = map_of (loop_input_params text loopID atts opts)"
proof
  fix k
  let ?l = "map_of (input_params text (apply_options (client_options loopID atts opts))) k"
  let ?r = "map_of (loop_input_params text loopID atts opts) k"
  show "?l = ?r"
  proof (cases opts)
    case None
    show ?thesis unfolding None input_params_def client_options_applied loop_input_params_def Let_def looks
      by (simp add: zero_inputOptions_def assms looks)
  next
    case (Some op)
    consider "k = ''loop_id''" | "k = ''content''" | "k = ''attachments''" | "k = ''intent_hint''" | "k = ''preferred_subagent''"
      | "k = ''intake_scope''" | "k = ''interaction_mode''" | "k = ''response_schema''" | "k = ''response_schema_name''"
      | "k = ''response_schema_strict''" | "k \<notin> set input_keys"
      by (auto simp: input_keys_def)
    then show ?thesis
      unfolding Some input_params_def client_options_applied loop_input_params_def Let_def looks option.case
      by cases (simp_all add: zero_inputOptions_def assms looks input_keys_def)
  qed
qed

lemma to_iface_obj: "wf_obj m \<Longrightarrow> to_iface (marshal (GMap m)) = GMap (reread m)"
  using marshal_fields_wf [of m] by simp

lemma msg_map_notification:
  assumes "wf_obj p" "p \<noteq> []" "mth \<noteq> []"
  shows "msg_map (MEnvelope (NewNotificationEnvelope mth (Some p))) =
    Some [(''proto'', GStr ProtoVersion), (''type'', GStr ''notification''), (''method'', GStr mth), (''params'', GMap (reread p))]"
proof -
  let ?o = "[(''proto'', GStr ProtoVersion), (''type'', GStr ''notification''), (''method'', GStr mth), (''params'', GMap p)]"
  have "envelope_obj (NewNotificationEnvelope mth (Some p)) = ?o"
    using assms by (cases p) (simp_all add: envelope_obj_def NewNotificationEnvelope_def zero_envelope_def opt_str_def opt_map_def)
  moreover have "to_iface (marshal (GMap ?o)) = GMap (reread ?o)" by (rule to_iface_obj) (simp add: wf_obj_def)
  moreover have "reread ?o = [(''proto'', GStr ProtoVersion), (''type'', GStr ''notification''), (''method'', GStr mth), (''params'', GMap (reread p))]"
    using to_iface_obj [OF assms(1)] by (simp add: reread_def)
  ultimately show ?thesis unfolding msg_map_def by (simp del: marshal.simps to_iface.simps)
qed

lemma map_of_reread: "map_of (reread m) k = map_option (\<lambda>v. to_iface (marshal v)) (map_of m k)"
  by (induction m) (auto simp: reread_def)

text \<open>C21: The turn runner and the client send the same input: for a loop id without surrounding white space,
  \<^verbatim>\<open>SendInput\<close> with the corresponding options writes one message that reads, field by field and
  parameter by parameter, as the message the runner builds.\<close>

theorem runner_input_same_as_client:
  assumes "can_send s" "TrimSpace loopID = loopID" "loopID \<noteq> []"
  shows "\<exists>e m p q. SendInput None content (client_options loopID atts opts) s = Ret None (s\<lparr>e_sent := e_sent s @ [MEnvelope e]\<rparr>)
    \<and> msg_map (MEnvelope e) = Some m
    \<and> (\<forall>k. k \<noteq> ''params'' \<longrightarrow> map_of m k = map_of (InputMessageForLoop content loopID atts opts) k)
    \<and> idx m ''params'' = GMap p \<and> idx (InputMessageForLoop content loopID atts opts) ''params'' = GMap q \<and> map_of p = map_of q"
proof -
  let ?op = "apply_options (client_options loopID atts opts)"
  let ?p = "input_params content ?op" and ?q = "loop_input_params content loopID atts opts"
  let ?e = "NewNotificationEnvelope ''loop_input'' (Some ?p)"
  let ?m = "\<lambda>x. [(''proto'', GStr ProtoVersion), (''type'', GStr ''notification''), (''method'', GStr ''loop_input''), (''params'', GMap x)]"
  have "TrimSpace (opt_loopID ?op) \<noteq> []" using assms by (simp add: client_options_applied)
  then have sent: "SendInput None content (client_options loopID atts opts) s = Ret None (s\<lparr>e_sent := e_sent s @ [MEnvelope ?e]\<rparr>)"
    using assms(1) by (simp add: SendInput_def Let_def SendMessage_ok can_send_def)
  have same: "map_of ?p = map_of ?q" by (rule same_params [OF assms(2,3)])
  have wf: "wf_obj ?p" "wf_obj ?q" by (simp_all add: wf_input_params wf_loop_input)
  have "idx ?p ''content'' = GStr content" by (simp add: input_idx)
  then have ne: "?p \<noteq> []" "?q \<noteq> []" using same by (auto simp: idx_def)
  have "map_of (reread ?p) = map_of (reread ?q)" using same by (simp add: fun_eq_iff map_of_reread)
  moreover have "msg_map (MEnvelope ?e) = Some (?m (reread ?p))" by (simp add: msg_map_notification [OF wf(1) ne(1)])
  moreover have "InputMessageForLoop content loopID atts opts = ?m (reread ?q)"
    by (simp add: InputMessageForLoop_def msg_map_notification [OF wf(2) ne(2)])
  ultimately show ?thesis
    by (intro exI [of _ ?e] exI [of _ "?m (reread ?p)"] exI [of _ "reread ?p"] exI [of _ "reread ?q"]) (simp add: sent)
qed

theorem runner_input_same_as_client_witness:
  "let s = start_env ((NewClient ''u'' None)\<lparr>c_conn := Some 0\<rparr>) [] []
   in can_send s \<and> (\<exists>e m p q. SendInput None ''hi'' (client_options ''l'' [] None) s = Ret None (s\<lparr>e_sent := e_sent s @ [MEnvelope e]\<rparr>)
        \<and> msg_map (MEnvelope e) = Some m \<and> idx m ''params'' = GMap p
        \<and> idx (InputMessageForLoop ''hi'' ''l'' [] None) ''params'' = GMap q \<and> map_of p = map_of q)"
proof -
  let ?s = "start_env ((NewClient ''u'' None)\<lparr>c_conn := Some 0\<rparr>) [] []"
  have "can_send ?s" by (simp add: can_send_def start_env_def NewClient_def Client.defs env.defs)
  moreover have "TrimSpace ''l'' = ''l''" by (simp add: TrimSpace_plain_ends plain_byteI)
  ultimately show ?thesis
    using runner_input_same_as_client [of ?s "''l''" "''hi''" "[]" None] unfolding Let_def by blast
qed

end
